(* ===== verification/Prelude.thy ===== *)
theory Prelude
  imports Main "HOL-Library.Word"
begin

text \<open>
  Shared vocabulary of the development: the types the Go sources use everywhere (64-bit
  integers, durations, instants), the collections of simplification rules the component
  theories feed, and the generic lemmas on sums, options, maps and lists that more than one
  component needs.

  A Go \<^verbatim>\<open>int64\<close> is a 64-bit word read as two's complement (\<open>sint\<close>). A \<^verbatim>\<open>time.Time\<close> is the
  instant it denotes, in nanoseconds since the Unix epoch; a \<^verbatim>\<open>time.Duration\<close> is an \<^verbatim>\<open>int64\<close>
  number of nanoseconds. A function of the sources that returns \<^verbatim>\<open>(value, error)\<close> with exactly
  one of the two set returns a sum here: \<open>Inl\<close> the error, \<open>Inr\<close> the value.
\<close>

named_theorems repo_simps "unfolding rules of the repository operations"
named_theorems svc_simps "unfolding rules of the service operations"
named_theorems http_simps "unfolding rules of the middleware and the handlers"

type_synonym int64 = "64 word"
type_synonym instant = int
type_synonym duration = int64

abbreviation (input) nanosecond :: int where "nanosecond \<equiv> 1"
abbreviation (input) second :: int where "second \<equiv> 1000000000"

section \<open>Sums as results\<close>

definition is_ok :: "'e + 'a \<Rightarrow> bool" where
  "is_ok r = (case r of Inl _ \<Rightarrow> False | Inr _ \<Rightarrow> True)"

lemma is_ok_simps [simp]: "is_ok (Inr x)" "\<not> is_ok (Inl e)"
  by (simp_all add: is_ok_def)

lemma is_ok_iff: "is_ok r \<longleftrightarrow> (\<exists>x. r = Inr x)"
  by (cases r) simp_all

text \<open>Sequencing of fallible steps: the first error is the result.\<close>

definition bind_r :: "'e + 'a \<Rightarrow> ('a \<Rightarrow> 'e + 'b) \<Rightarrow> 'e + 'b" where
  "bind_r r f = (case r of Inl e \<Rightarrow> Inl e | Inr x \<Rightarrow> f x)"

lemma bind_r_simps [simp]: "bind_r (Inr x) f = f x" "bind_r (Inl e) f = Inl e"
  by (simp_all add: bind_r_def)

lemma bind_r_Inr_iff: "bind_r r f = Inr y \<longleftrightarrow> (\<exists>x. r = Inr x \<and> f x = Inr y)"
  by (cases r) simp_all

section \<open>Partial maps\<close>

lemma map_le_upd_drop: "m' \<subseteq>\<^sub>m m \<Longrightarrow> m' k = Some v \<Longrightarrow> m k = Some v"
  by (metis domI map_le_def)

lemma map_le_None: "m' \<subseteq>\<^sub>m m \<Longrightarrow> m k = None \<Longrightarrow> m' k = None"
  by (metis domIff map_le_def)

lemma map_le_upd_cases:
  assumes "m' \<subseteq>\<^sub>m m(k \<mapsto> v)" and "m' x = Some y"
  shows "x = k \<and> y = v \<or> x \<noteq> k \<and> m x = Some y"
  using map_le_upd_drop [OF assms] by (simp split: if_splits)

section \<open>Lists\<close>

lemma last_filter_append:
  "filter P (xs @ ys) \<noteq> [] \<Longrightarrow> filter P ys \<noteq> [] \<Longrightarrow>
   last (filter P (xs @ ys)) = last (filter P ys)"
  by simp

lemma append_eq_same_prefix [simp]: "(p @ a = p @ b) = (a = b)"
  by simp

end
