(* ===== verification/GoStrings.thy ===== *)
theory GoStrings
  imports Prelude
begin

text \<open>
  What the sources use of Go's \<^verbatim>\<open>strings\<close>, \<^verbatim>\<open>strconv\<close>, \<^verbatim>\<open>unicode/utf8\<close> and \<^verbatim>\<open>fmt\<close> packages. A Go
  string is a list of bytes, so it is a \<^typ>\<open>string\<close> whose characters are bytes. Case mapping
  beyond ASCII needs the Unicode tables; \<open>ToUpper\<close> takes that part as a parameter and is exact on
  ASCII strings.
\<close>

section \<open>ASCII\<close>

definition byte :: "char \<Rightarrow> nat" where
  "byte c = of_char c"

definition is_ascii :: "string \<Rightarrow> bool" where
  "is_ascii s = list_all (\<lambda>c. byte c < 128) s"

definition upper_char :: "char \<Rightarrow> char" where
  "upper_char c = (if 97 \<le> byte c \<and> byte c \<le> 122 then char_of (byte c - 32) else c)"

definition lower_char :: "char \<Rightarrow> char" where
  "lower_char c = (if 65 \<le> byte c \<and> byte c \<le> 90 then char_of (byte c + 32) else c)"

text \<open>\<^verbatim>\<open>strings.ToUpper\<close>; \<open>uni\<close> is the mapping of a string that is not ASCII.\<close>

definition ToUpper :: "(string \<Rightarrow> string) \<Rightarrow> string \<Rightarrow> string" where
  "ToUpper uni s = (if is_ascii s then map upper_char s else uni s)"

text \<open>
  \<^verbatim>\<open>strings.EqualFold\<close> with an ASCII pattern none of whose letters is \<open>k\<close> or \<open>s\<close>: those two are
  the only ASCII letters with a Unicode fold outside ASCII.
\<close>

definition EqualFold :: "string \<Rightarrow> string \<Rightarrow> bool" where
  "EqualFold s t = (map lower_char s = map lower_char t)"

lemma byte_lt_256: "byte c < 256"
  by (simp add: byte_def)

lemma byte_upper_char: "byte (upper_char c) =
    (if 97 \<le> byte c \<and> byte c \<le> 122 then byte c - 32 else byte c)"
  using byte_lt_256 [of c] by (auto simp: upper_char_def byte_def)

lemma upper_char_idem [simp]: "upper_char (upper_char c) = upper_char c"
proof -
  have "\<not> (97 \<le> byte (upper_char c) \<and> byte (upper_char c) \<le> 122)"
    by (auto simp: byte_upper_char)
  then show ?thesis by (simp only: upper_char_def [of "upper_char c"] if_False)
qed

lemma is_ascii_Nil [simp]: "is_ascii []"
  by (simp add: is_ascii_def)

lemma is_ascii_Cons [simp]: "is_ascii (c # s) = (byte c < 128 \<and> is_ascii s)"
  by (simp add: is_ascii_def)

lemma is_ascii_append [simp]: "is_ascii (s @ t) = (is_ascii s \<and> is_ascii t)"
  by (simp add: is_ascii_def)

lemma is_ascii_upper [simp]: "is_ascii s \<Longrightarrow> is_ascii (map upper_char s)"
  by (induction s) (auto simp: byte_upper_char)

lemma ToUpper_idem: "is_ascii s \<Longrightarrow> ToUpper uni (ToUpper uni s) = ToUpper uni s"
  by (simp add: ToUpper_def o_def)

section \<open>Splitting and trimming\<close>

text \<open>\<^verbatim>\<open>strings.Split(s, c)\<close> for a one-byte separator.\<close>

fun Split :: "char \<Rightarrow> string \<Rightarrow> string list" where
  "Split c [] = [[]]"
| "Split c (x # xs) =
     (if x = c then [] # Split c xs
      else (case Split c xs of [] \<Rightarrow> [[x]] | y # ys \<Rightarrow> (x # y) # ys))"

text \<open>\<^verbatim>\<open>strings.SplitN(s, c, 2)\<close> for a one-byte separator.\<close>

definition SplitN2 :: "char \<Rightarrow> string \<Rightarrow> string list" where
  "SplitN2 c s =
     (if c \<in> set s then [takeWhile (\<lambda>x. x \<noteq> c) s, tl (dropWhile (\<lambda>x. x \<noteq> c) s)] else [s])"

text \<open>
  The white space of \<^verbatim>\<open>strings.TrimSpace\<close>: the UTF-8 encodings of the code points that
  \<^verbatim>\<open>unicode.IsSpace\<close> accepts.
\<close>

definition space_seqs :: "string list" where
  "space_seqs = map (map char_of)
     [[9::nat], [10], [11], [12], [13], [32], [194, 133], [194, 160], [225, 154, 128],
      [226, 128, 128], [226, 128, 129], [226, 128, 130], [226, 128, 131], [226, 128, 132],
      [226, 128, 133], [226, 128, 134], [226, 128, 135], [226, 128, 136], [226, 128, 137],
      [226, 128, 138], [226, 128, 168], [226, 128, 169], [226, 128, 175], [226, 129, 159],
      [227, 128, 128]]"

definition strip_prefix :: "string list \<Rightarrow> string \<Rightarrow> string option" where
  "strip_prefix seqs s =
     (case filter (\<lambda>q. take (length q) s = q) seqs of
        [] \<Rightarrow> None | q # _ \<Rightarrow> Some (drop (length q) s))"

fun trim_left_fuel :: "nat \<Rightarrow> string list \<Rightarrow> string \<Rightarrow> string" where
  "trim_left_fuel 0 seqs s = s"
| "trim_left_fuel (Suc n) seqs s =
     (case strip_prefix seqs s of None \<Rightarrow> s | Some t \<Rightarrow> trim_left_fuel n seqs t)"

text \<open>Every stripped prefix is a non-empty byte sequence, so \<open>length s\<close> rounds are enough.\<close>

definition trim_left :: "string list \<Rightarrow> string \<Rightarrow> string" where
  "trim_left seqs s = trim_left_fuel (length s) seqs s"

definition TrimSpace :: "string \<Rightarrow> string" where
  "TrimSpace s =
     rev (trim_left (map rev space_seqs) (rev (trim_left space_seqs s)))"

lemma Split_not_Nil [simp]: "Split c s \<noteq> []"
  by (induction s) (auto split: list.splits)

text \<open>Joining the pieces with the separator gives the string back.\<close>

fun Join :: "char \<Rightarrow> string list \<Rightarrow> string" where
  "Join c [] = []"
| "Join c [s] = s"
| "Join c (s # ss) = s @ c # Join c ss"

lemma Join_Cons_char: "ys \<noteq> [] \<Longrightarrow> Join c ((x # hd ys) # tl ys) = x # Join c ys"
  by (cases ys; cases "tl ys") auto

lemma Join_Split: "Join c (Split c s) = s"
proof (induction s)
  case Nil
  then show ?case by simp
next
  case (Cons x xs)
  show ?case
  proof (cases "Split c xs")
    case Nil
    then show ?thesis by simp
  next
    case (Cons y ys)
    with Cons.IH show ?thesis
      using Join_Cons_char [of "y # ys" c x] by auto
  qed
qed

lemma Split_no_sep: "s' \<in> set (Split c s) \<Longrightarrow> c \<notin> set s'"
  by (induction s arbitrary: s') (auto split: list.splits if_splits)

section \<open>Decimal numbers\<close>

definition digit_char :: "nat \<Rightarrow> char" where
  "digit_char d = char_of (48 + d)"

definition is_digit :: "char \<Rightarrow> bool" where
  "is_digit c = (48 \<le> byte c \<and> byte c \<le> 57)"

fun show_nat :: "nat \<Rightarrow> string" where
  "show_nat n = (if n < 10 then [digit_char n] else show_nat (n div 10) @ [digit_char (n mod 10)])"

declare show_nat.simps [simp del]

text \<open>\<^verbatim>\<open>fmt.Sprintf("%d", i)\<close> and \<^verbatim>\<open>strconv.Itoa\<close>.\<close>

definition show_int :: "int \<Rightarrow> string" where
  "show_int i = (if i < 0 then CHR ''-'' # show_nat (nat (- i)) else show_nat (nat i))"

definition read_digits :: "string \<Rightarrow> nat" where
  "read_digits s = foldl (\<lambda>n c. 10 * n + (byte c - 48)) 0 s"

lemma byte_digit_char: "d < 10 \<Longrightarrow> byte (digit_char d) = 48 + d"
  by (simp add: digit_char_def byte_def)

lemma is_digit_digit_char [simp]: "d < 10 \<Longrightarrow> is_digit (digit_char d)"
  by (simp add: is_digit_def byte_digit_char)

lemma read_digits_snoc [simp]: "read_digits (s @ [c]) = 10 * read_digits s + (byte c - 48)"
  by (simp add: read_digits_def)

lemma show_nat_not_Nil [simp]: "show_nat n \<noteq> []"
  by (subst show_nat.simps) simp

lemma show_nat_digits: "list_all is_digit (show_nat n)"
proof (induction n rule: show_nat.induct)
  case (1 n)
  then show ?case by (subst show_nat.simps) (auto simp: list_all_iff)
qed

lemma read_show_nat: "read_digits (show_nat n) = n"
proof (induction n rule: show_nat.induct)
  case (1 n)
  show ?case
  proof (cases "n < 10")
    case True
    then show ?thesis
      by (subst show_nat.simps) (simp add: read_digits_def byte_digit_char)
  next
    case False
    with 1 show ?thesis
      by (subst show_nat.simps) (simp add: byte_digit_char)
  qed
qed

lemma show_nat_inject [simp]: "(show_nat m = show_nat n) = (m = n)"
  by (metis read_show_nat)

lemma minus_not_digit [simp]: "\<not> is_digit (CHR ''-'')" "\<not> is_digit (CHR ''+'')"
  by (simp_all add: is_digit_def byte_def)

lemma hd_show_nat_digit: "is_digit (hd (show_nat n))"
  using show_nat_digits [of n] by (cases "show_nat n") auto

lemma show_nat_neq_minus [simp]: "show_nat n \<noteq> CHR ''-'' # s" "CHR ''-'' # s \<noteq> show_nat n"
  using hd_show_nat_digit [of n] by (metis list.sel(1) minus_not_digit(1))+

lemma show_int_inject [simp]: "(show_int i = show_int j) = (i = j)"
  by (auto simp: show_int_def)

lemma digit_byte: "is_digit c \<Longrightarrow> byte c < 128"
  by (simp add: is_digit_def)

lemma is_ascii_digits: "list_all is_digit s \<Longrightarrow> is_ascii s"
  by (induction s) (auto dest: digit_byte)

lemma is_ascii_show_int [simp]: "is_ascii (show_int i)"
  using is_ascii_digits [OF show_nat_digits]
  by (simp add: show_int_def byte_def)

text \<open>
  \<^verbatim>\<open>strconv.Atoi\<close>: an optional sign and at least one decimal digit, within the range of a 64-bit
  \<^verbatim>\<open>int\<close>; \<open>None\<close> is the syntax or range error.
\<close>

definition split_sign :: "string \<Rightarrow> bool \<times> string" where
  "split_sign s =
     (case s of [] \<Rightarrow> (False, [])
      | c # t \<Rightarrow> if c = CHR ''-'' then (True, t) else if c = CHR ''+'' then (False, t) else (False, s))"

definition Atoi :: "string \<Rightarrow> int option" where
  "Atoi s =
     (case split_sign s of (neg, ds) \<Rightarrow>
        if ds = [] \<or> \<not> list_all is_digit ds then None
        else let i = (if neg then - int (read_digits ds) else int (read_digits ds))
             in if - (2 ^ 63) \<le> i \<and> i < 2 ^ 63 then Some i else None)"

lemma split_sign_show_int: "split_sign (show_int i) = (i < 0, show_nat (nat \<bar>i\<bar>))"
proof (cases "i < 0")
  case True
  then show ?thesis by (simp add: show_int_def split_sign_def)
next
  case False
  obtain c t where ct: "show_nat (nat i) = c # t" by (cases "show_nat (nat i)") auto
  then have "is_digit c" using hd_show_nat_digit [of "nat i"] by simp
  then have "c \<noteq> CHR ''-''" "c \<noteq> CHR ''+''" by auto
  with False ct show ?thesis by (simp add: show_int_def split_sign_def)
qed

lemma Atoi_show_int: "- (2 ^ 63) \<le> i \<Longrightarrow> i < 2 ^ 63 \<Longrightarrow> Atoi (show_int i) = Some i"
  by (simp add: Atoi_def split_sign_show_int show_nat_digits read_show_nat Let_def)

lemma Atoi_range: "Atoi s = Some i \<Longrightarrow> - (2 ^ 63) \<le> i \<and> i < 2 ^ 63"
  by (auto simp: Atoi_def Let_def split: prod.splits if_splits)

end
