(* ===== verification/GoErrors.thy ===== *)
theory GoErrors
  imports GoStrings
begin

text \<open>
  Go's \<^verbatim>\<open>error\<close> values as the sources build and inspect them: the sentinels of the packages
  \<^verbatim>\<open>domain\<close>, \<^verbatim>\<open>service\<close>, \<^verbatim>\<open>jwt\<close> and \<^verbatim>\<open>cache\<close>, the two sentinels of libraries that the sources test
  for, errors a library returns (known only by their text), and \<^verbatim>\<open>fmt.Errorf\<close> with one \<^verbatim>\<open>%w\<close>.
  \<open>Errorf p e s\<close> is the error whose text is \<open>p\<close>, the text of \<open>e\<close>, then \<open>s\<close>, and that unwraps to
  \<open>e\<close>. \<open>errors_Is\<close> is \<^verbatim>\<open>errors.Is\<close>, \<open>Error\<close> is the method \<^verbatim>\<open>Error()\<close>.
\<close>

datatype error =
    ErrNotFound
  | ErrConflict
  | ErrInvalidCredentials
  | ErrEmailTaken
  | ErrInvalidRefreshToken
  | ErrUnsupportedCurrency
  | ErrTokenExpired
  | ErrTokenInvalid
  | ErrCacheMiss
  | ErrRecordNotFound      \<comment> \<open>\<^verbatim>\<open>gorm.ErrRecordNotFound\<close>\<close>
  | ErrJwtTokenExpired     \<comment> \<open>\<^verbatim>\<open>jwt.ErrTokenExpired\<close> of the JWT library\<close>
  | ErrLib string          \<comment> \<open>any other error of a library, by its text\<close>
  | ErrNew string          \<comment> \<open>\<^verbatim>\<open>errors.New\<close> at the place of use\<close>
  | Errorf string error string

fun errors_Is :: "error \<Rightarrow> error \<Rightarrow> bool" where
  "errors_Is (Errorf p e s) t = (Errorf p e s = t \<or> errors_Is e t)"
| "errors_Is e t = (e = t)"

fun Error :: "error \<Rightarrow> string" where
  "Error ErrNotFound = ''resource not found''"
| "Error ErrConflict = ''resource already exists''"
| "Error ErrInvalidCredentials = ''invalid email or password''"
| "Error ErrEmailTaken = ''email already taken''"
| "Error ErrInvalidRefreshToken = ''invalid or expired refresh token''"
| "Error ErrUnsupportedCurrency = ''unsupported currency''"
| "Error ErrTokenExpired = ''token has expired''"
| "Error ErrTokenInvalid = ''token is invalid''"
| "Error ErrCacheMiss = ''cache miss''"
| "Error ErrRecordNotFound = ''record not found''"
| "Error ErrJwtTokenExpired = ''token is expired''"
| "Error (ErrLib m) = m"
| "Error (ErrNew m) = m"
| "Error (Errorf p e s) = p @ Error e @ s"

text \<open>\<open>is_sentinel e\<close>: the error is one of the package-level values that code compares with.\<close>

fun is_sentinel :: "error \<Rightarrow> bool" where
  "is_sentinel (Errorf p e s) = False"
| "is_sentinel (ErrLib m) = False"
| "is_sentinel (ErrNew m) = False"
| "is_sentinel e = True"

lemma errors_Is_refl [simp]: "errors_Is e e"
  by (cases e) simp_all

lemma errors_Is_Errorf [simp]: "is_sentinel t \<Longrightarrow> errors_Is (Errorf p e s) t = errors_Is e t"
  by (cases t) simp_all

lemma errors_Is_lib [simp]: "is_sentinel t \<Longrightarrow> \<not> errors_Is (ErrLib m) t"
  by (cases t) simp_all

text \<open>An error unwraps to at most one sentinel: a chain has a single innermost error.\<close>

lemma errors_Is_unique:
  "errors_Is e a \<Longrightarrow> errors_Is e b \<Longrightarrow> is_sentinel a \<Longrightarrow> is_sentinel b \<Longrightarrow> a = b"
  by (induction e) auto

text \<open>
  \<open>lib_error e\<close>: the error comes from a library, so no sentinel of the application is in its
  chain. Libraries know nothing of the packages \<^verbatim>\<open>domain\<close>, \<^verbatim>\<open>service\<close>, \<^verbatim>\<open>jwt\<close> and \<^verbatim>\<open>cache\<close>.
\<close>

fun lib_error :: "error \<Rightarrow> bool" where
  "lib_error (Errorf p e s) = lib_error e"
| "lib_error (ErrLib m) = True"
| "lib_error ErrRecordNotFound = True"
| "lib_error ErrJwtTokenExpired = True"
| "lib_error e = False"

definition app_sentinel :: "error \<Rightarrow> bool" where
  "app_sentinel e = (is_sentinel e \<and> e \<noteq> ErrRecordNotFound \<and> e \<noteq> ErrJwtTokenExpired)"

lemma lib_error_not_app: "lib_error e \<Longrightarrow> app_sentinel t \<Longrightarrow> \<not> errors_Is e t"
  by (induction e) (auto simp: app_sentinel_def)

lemma app_sentinel_simps [simp]:
  "app_sentinel ErrNotFound" "app_sentinel ErrConflict" "app_sentinel ErrInvalidCredentials"
  "app_sentinel ErrEmailTaken" "app_sentinel ErrInvalidRefreshToken"
  "app_sentinel ErrUnsupportedCurrency" "app_sentinel ErrCacheMiss"
  by (simp_all add: app_sentinel_def)

section \<open>UTF-8\<close>

text \<open>
  \<open>utf8_width s\<close> is the number of bytes of the first code point of \<open>s\<close>, 0 where the bytes are not
  valid UTF-8, as \<^verbatim>\<open>utf8.DecodeRuneInString\<close> decides it. \<open>utf8_fix\<close> is what \<^verbatim>\<open>encoding/json\<close> makes
  of a string: every invalid byte becomes the replacement character.
\<close>

definition in_range :: "nat \<Rightarrow> nat \<Rightarrow> char \<Rightarrow> bool" where
  "in_range lo hi c = (lo \<le> byte c \<and> byte c \<le> hi)"

definition cont :: "char \<Rightarrow> bool" where
  "cont c = in_range 128 191 c"

definition utf8_width :: "string \<Rightarrow> nat" where
  "utf8_width s =
     (case s of
        [] \<Rightarrow> 0
      | [a] \<Rightarrow> if in_range 0 127 a then 1 else 0
      | [a, b] \<Rightarrow> if in_range 0 127 a then 1 else if in_range 194 223 a \<and> cont b then 2 else 0
      | a # b # c # s' \<Rightarrow>
          if in_range 0 127 a then 1
          else if in_range 194 223 a \<and> cont b then 2
          else if (in_range 224 224 a \<and> in_range 160 191 b \<or> in_range 225 236 a \<and> cont b
                   \<or> in_range 237 237 a \<and> in_range 128 159 b \<or> in_range 238 239 a \<and> cont b) \<and> cont c
          then 3
          else case s' of
                 [] \<Rightarrow> 0
               | d # _ \<Rightarrow>
                   if (in_range 240 240 a \<and> in_range 144 191 b \<or> in_range 241 243 a \<and> cont b
                       \<or> in_range 244 244 a \<and> in_range 128 143 b) \<and> cont c \<and> cont d
                   then 4 else 0)"

definition replacement :: string where
  "replacement = map char_of [239::nat, 191, 189]"

function utf8_fix :: "string \<Rightarrow> string" where
  "utf8_fix s =
     (if s = [] then []
      else let n = utf8_width s
           in if n = 0 then replacement @ utf8_fix (drop 1 s)
              else take n s @ utf8_fix (drop n s))"
  by pat_completeness auto
termination
  by (relation "measure length") auto

declare utf8_fix.simps [simp del]

definition valid_utf8 :: "string \<Rightarrow> bool" where
  "valid_utf8 s = (utf8_fix s = s)"

text \<open>\<^verbatim>\<open>utf8.RuneCountInString\<close>: an invalid byte counts as one code point.\<close>

function rune_count :: "string \<Rightarrow> nat" where
  "rune_count s = (if s = [] then 0 else Suc (rune_count (drop (max 1 (utf8_width s)) s)))"
  by pat_completeness auto
termination
  by (relation "measure length") auto

declare rune_count.simps [simp del]

lemma utf8_width_ascii: "byte a < 128 \<Longrightarrow> utf8_width (a # s) = 1"
  by (auto simp: utf8_width_def in_range_def split: list.splits)

lemma utf8_fix_Nil [simp]: "utf8_fix [] = []"
  by (simp add: utf8_fix.simps)

lemma utf8_fix_ascii: "is_ascii s \<Longrightarrow> utf8_fix s = s"
  by (induction s) (simp_all add: utf8_fix.simps [of "_ # _"] utf8_width_ascii)

lemma valid_utf8_ascii: "is_ascii s \<Longrightarrow> valid_utf8 s"
  by (simp add: valid_utf8_def utf8_fix_ascii)

lemma rune_count_ascii: "is_ascii s \<Longrightarrow> rune_count s = length s"
  by (induction s) (simp_all add: rune_count.simps [of "_ # _"] rune_count.simps [of "[]"] utf8_width_ascii)

lemma rune_count_le_length: "rune_count s \<le> length s"
proof (induction s rule: rune_count.induct)
  case (1 s)
  show ?case
  proof (cases "s = []")
    case True
    then show ?thesis by (simp add: rune_count.simps)
  next
    case False
    define n where "n = max 1 (utf8_width s)"
    have "rune_count (drop n s) \<le> length s - n" and "1 \<le> n" and "1 \<le> length s"
      using 1 False by (auto simp: n_def Suc_le_eq)
    with False show ?thesis by (simp add: rune_count.simps [of s] n_def)
  qed
qed

end
