(* ===== verification/Float64.thy ===== *)
theory Float64
  imports Prelude
begin

text \<open>
  Go's \<^verbatim>\<open>float64\<close>, IEEE 754 binary64 with one NaN. A finite value is a sign, a significand and a
  binary exponent, \<open>\<plusminus>m * 2 ^ e\<close>, kept in a normal form (\<open>f64_ok\<close>): \<open>m < 2 ^ 53\<close>, \<open>-1074 \<le> e \<le> 971\<close>,
  and \<open>m\<close> is below \<open>2 ^ 52\<close> only at the smallest exponent. \<open>f64_round\<close> rounds an exact product to
  the nearest representable value, ties to even, and overflows to infinity; multiplication is the
  \<open>*\<close> of the type.
\<close>

datatype float64 = NaN | Inf bool | Fin bool nat int

fun f64_ok :: "float64 \<Rightarrow> bool" where
  "f64_ok NaN = True"
| "f64_ok (Inf s) = True"
| "f64_ok (Fin s m e) =
     (m < 2 ^ 53 \<and> - 1074 \<le> e \<and> e \<le> 971 \<and> (m < 2 ^ 52 \<longrightarrow> e = - 1074))"

fun bitlen :: "nat \<Rightarrow> nat" where
  "bitlen n = (if n = 0 then 0 else Suc (bitlen (n div 2)))"

declare bitlen.simps [simp del]

text \<open>\<open>shift_even m k\<close> is \<open>m / 2 ^ k\<close> rounded to the nearest natural number, ties to even.\<close>

definition shift_even :: "nat \<Rightarrow> nat \<Rightarrow> nat" where
  "shift_even m k =
     (let q = m div 2 ^ k; r = m mod 2 ^ k
      in if 2 * r > 2 ^ k \<or> 2 * r = 2 ^ k \<and> odd q then q + 1 else q)"

text \<open>The exponent of the last place of the result for an exact value \<open>m * 2 ^ e\<close>.\<close>

definition ulp_exp :: "nat \<Rightarrow> int \<Rightarrow> int" where
  "ulp_exp m e = max (e + int (bitlen m) - 53) (- 1074)"

definition f64_pack :: "bool \<Rightarrow> nat \<Rightarrow> int \<Rightarrow> float64" where
  "f64_pack s q e =
     (if q = 2 ^ 53 then (if e + 1 > 971 then Inf s else Fin s (2 ^ 52) (e + 1))
      else if e > 971 then Inf s else Fin s q e)"

definition f64_round :: "bool \<Rightarrow> nat \<Rightarrow> int \<Rightarrow> float64" where
  "f64_round s m e =
     (if m = 0 then Fin s 0 (- 1074)
      else let u = ulp_exp m e
           in if u \<le> e then f64_pack s (m * 2 ^ nat (e - u)) u
              else f64_pack s (shift_even m (nat (u - e))) u)"

instantiation float64 :: "{one, times, zero}"
begin

definition one_float64 :: float64 where
  "one_float64 = Fin False (2 ^ 52) (- 52)"

definition zero_float64 :: float64 where
  "zero_float64 = Fin False 0 (- 1074)"

fun times_float64 :: "float64 \<Rightarrow> float64 \<Rightarrow> float64" where
  "times_float64 (Fin s m e) (Fin t n f) = f64_round (s \<noteq> t) (m * n) (e + f)"
| "times_float64 NaN y = NaN"
| "times_float64 x NaN = NaN"
| "times_float64 (Inf s) (Inf t) = Inf (s \<noteq> t)"
| "times_float64 (Inf s) (Fin t n f) = (if n = 0 then NaN else Inf (s \<noteq> t))"
| "times_float64 (Fin s m e) (Inf t) = (if m = 0 then NaN else Inf (s \<noteq> t))"

instance ..

end

text \<open>Conversion of an integer constant or literal.\<close>

text \<open>
  Division. The quotient is taken with 128 extra bits, and a last bit that is set if there is a
  remainder, so that one rounding gives the nearest value.
\<close>

fun f64_div :: "float64 \<Rightarrow> float64 \<Rightarrow> float64" where
  "f64_div NaN y = NaN"
| "f64_div x NaN = NaN"
| "f64_div (Inf s) (Inf t) = NaN"
| "f64_div (Inf s) (Fin t m e) = Inf (s \<noteq> t)"
| "f64_div (Fin s m e) (Inf t) = Fin (s \<noteq> t) 0 (- 1074)"
| "f64_div (Fin s m e) (Fin t n f) =
     (if n = 0 then if m = 0 then NaN else Inf (s \<noteq> t)
      else let k = m * 2 ^ 128
           in f64_round (s \<noteq> t) (2 * (k div n) + (if k mod n = 0 then 0 else 1)) (e - f - 129))"

definition f64_of_int :: "int \<Rightarrow> float64" where
  "f64_of_int i = f64_round (i < 0) (nat \<bar>i\<bar>) 0"

definition f64_positive :: "float64 \<Rightarrow> bool" where
  "f64_positive x = (case x of NaN \<Rightarrow> False | Inf s \<Rightarrow> \<not> s | Fin s m e \<Rightarrow> \<not> s \<and> m \<noteq> 0)"

section \<open>Rounding\<close>

lemma bitlen_bounds: "m \<noteq> 0 \<Longrightarrow> 2 ^ (bitlen m - 1) \<le> m \<and> m < 2 ^ bitlen m"
proof (induction m rule: bitlen.induct)
  case (1 n)
  show ?case
  proof (cases "n div 2 = 0")
    case True
    with "1.prems" have "n = 1" by simp
    then show ?thesis by (simp add: bitlen.simps)
  next
    case False
    with 1 have "2 ^ (bitlen (n div 2) - 1) \<le> n div 2" "n div 2 < 2 ^ bitlen (n div 2)"
      by auto
    moreover have "bitlen (n div 2) \<noteq> 0" using False by (simp add: bitlen.simps)
    moreover have "bitlen n = Suc (bitlen (n div 2))" using "1.prems" by (simp add: bitlen.simps)
    ultimately show ?thesis by (cases "bitlen (n div 2)") auto
  qed
qed

lemma shift_even_le: "shift_even m k \<le> m div 2 ^ k + 1"
  by (simp add: shift_even_def Let_def)

lemma shift_even_ge: "m div 2 ^ k \<le> shift_even m k"
  by (simp add: shift_even_def Let_def)

text \<open>The rounding error is at most half a unit in the last place.\<close>

lemma shift_even_error:
  "2 * (shift_even m k * 2 ^ k) \<le> 2 * m + 2 ^ k \<and> 2 * m \<le> 2 * (shift_even m k * 2 ^ k) + 2 ^ k"
proof -
  define q r where "q = m div 2 ^ k" and "r = m mod 2 ^ k"
  have m: "m = q * 2 ^ k + r" unfolding q_def r_def by (rule div_mult_mod_eq [symmetric])
  have r: "r < 2 ^ k" by (simp add: r_def)
  show ?thesis
  proof (cases "2 * r > 2 ^ k \<or> 2 * r = 2 ^ k \<and> odd q")
    case True
    then have "shift_even m k = q + 1" by (simp add: shift_even_def q_def r_def Let_def)
    then have "shift_even m k * 2 ^ k = q * 2 ^ k + 2 ^ k" by simp
    moreover from True have "2 ^ k \<le> 2 * r" by auto
    ultimately show ?thesis using m r by simp
  next
    case False
    then have "shift_even m k = q" by (simp add: shift_even_def q_def r_def Let_def)
    with False m r show ?thesis by simp
  qed
qed

lemma f64_pack_ok:
  assumes "q \<le> 2 ^ 53" "- 1074 \<le> e" "q < 2 ^ 52 \<Longrightarrow> e = - 1074"
  shows "f64_ok (f64_pack s q e)"
  using assms by (auto simp: f64_pack_def)

lemma mult_shift_bounds:
  assumes "(m::nat) \<noteq> 0" "bitlen m + k \<le> 53"
  shows "m * 2 ^ k < 2 ^ 53" and "bitlen m + k = 53 \<Longrightarrow> 2 ^ 52 \<le> m * 2 ^ k"
proof -
  from assms(1) have b: "2 ^ (bitlen m - 1) \<le> m" "m < 2 ^ bitlen m" "bitlen m \<noteq> 0"
    using bitlen_bounds [of m] by (auto simp: bitlen.simps [of m])
  have "m * 2 ^ k < 2 ^ bitlen m * 2 ^ k" using b(2) by simp
  also have "\<dots> = 2 ^ (bitlen m + k)" by (simp add: power_add)
  also have "\<dots> \<le> 2 ^ 53" by (rule power_increasing [OF assms(2)]) simp
  finally show "m * 2 ^ k < 2 ^ 53" .
  assume eq: "bitlen m + k = 53"
  have "(2::nat) ^ 52 = 2 ^ (bitlen m - 1 + k)" using eq b(3) by simp
  also have "\<dots> = 2 ^ (bitlen m - 1) * 2 ^ k" by (simp add: power_add)
  also have "\<dots> \<le> m * 2 ^ k" using b(1) by simp
  finally show "2 ^ 52 \<le> m * 2 ^ k" .
qed

lemma div_shift_bounds:
  assumes "(m::nat) \<noteq> 0" "bitlen m \<le> 53 + k"
  shows "m div 2 ^ k < 2 ^ 53" and "bitlen m = 53 + k \<Longrightarrow> 2 ^ 52 \<le> m div 2 ^ k"
proof -
  from assms(1) have b: "2 ^ (bitlen m - 1) \<le> m" "m < 2 ^ bitlen m" "bitlen m \<noteq> 0"
    using bitlen_bounds [of m] by (auto simp: bitlen.simps [of m])
  have "(2::nat) ^ bitlen m \<le> 2 ^ (53 + k)" by (rule power_increasing [OF assms(2)]) simp
  with b(2) have "m < 2 ^ 53 * 2 ^ k" by (simp add: power_add)
  then show "m div 2 ^ k < 2 ^ 53" by (simp add: less_mult_imp_div_less)
  assume "bitlen m = 53 + k"
  then have "bitlen m - 1 = 52 + k" by simp
  then have "(2::nat) ^ 52 * 2 ^ k = 2 ^ (bitlen m - 1)" by (simp only: power_add)
  with b(1) have "2 ^ 52 * 2 ^ k \<le> m" by simp
  then have "(2 ^ 52 * 2 ^ k) div 2 ^ k \<le> m div 2 ^ k" by (rule div_le_mono)
  then show "2 ^ 52 \<le> m div 2 ^ k" by simp
qed

lemma f64_round_ok: "f64_ok (f64_round s m e)"
proof (cases "m = 0")
  case True
  then show ?thesis by (simp add: f64_round_def)
next
  case False
  define u where "u = ulp_exp m e"
  have u: "- 1074 \<le> u" "e + int (bitlen m) - 53 \<le> u"
    "u \<noteq> - 1074 \<Longrightarrow> e + int (bitlen m) - 53 = u"
    by (auto simp: u_def ulp_exp_def max_def split: if_splits)
  show ?thesis
  proof (cases "u \<le> e")
    case True
    define k where "k = nat (e - u)"
    have "bitlen m + k \<le> 53" "u \<noteq> - 1074 \<Longrightarrow> bitlen m + k = 53"
      using True u by (auto simp: k_def)
    with False have "m * 2 ^ k < 2 ^ 53" "u \<noteq> - 1074 \<Longrightarrow> 2 ^ 52 \<le> m * 2 ^ k"
      using mult_shift_bounds [of m k] by blast+
    with u(1) have "f64_ok (f64_pack s (m * 2 ^ k) u)"
      by (intro f64_pack_ok) (auto simp: not_le [symmetric])
    with False True show ?thesis by (simp add: f64_round_def u_def k_def Let_def)
  next
    case lt: False
    define k where "k = nat (u - e)"
    have "bitlen m \<le> 53 + k" "u \<noteq> - 1074 \<Longrightarrow> bitlen m = 53 + k"
      using lt u by (auto simp: k_def)
    with False have b: "m div 2 ^ k < 2 ^ 53" "u \<noteq> - 1074 \<Longrightarrow> 2 ^ 52 \<le> m div 2 ^ k"
      using div_shift_bounds [of m k] by blast+
    have "shift_even m k \<le> 2 ^ 53" using b(1) shift_even_le [of m k] by simp
    moreover have "shift_even m k < 2 ^ 52 \<Longrightarrow> u = - 1074"
      using b(2) shift_even_ge [of m k] by fastforce
    ultimately have "f64_ok (f64_pack s (shift_even m k) u)"
      using u(1) by (intro f64_pack_ok) auto
    with False lt show ?thesis by (simp add: f64_round_def u_def k_def Let_def)
  qed
qed

lemma f64_times_ok: "f64_ok (x * y)"
  by (induction x y rule: times_float64.induct) (simp_all add: f64_round_ok)

lemma f64_times_commute: "(x :: float64) * y = y * x"
proof -
  have "f64_round (s = (\<not> t)) m e = f64_round (t = (\<not> s)) m e" for s t m e
    by (cases s; cases t) simp_all
  then show ?thesis by (cases x; cases y) (auto simp: mult.commute add.commute)
qed

end
