(* ===== verification/Json.thy ===== *)
theory Json
  imports GoErrors Float64
begin

text \<open>
  What the sources use of \<^verbatim>\<open>encoding/json\<close>, at the level of JSON values: the text of a document is
  represented by the value it denotes. Two refinements keep what the code depends on. A number
  literal is \<open>JInt\<close> where the encoder printed an integer and \<open>JFloat\<close> where it printed a
  \<^verbatim>\<open>float64\<close>. A string literal that the encoder made from a \<^verbatim>\<open>time.Time\<close> is \<open>JTime\<close>, the instant
  its RFC 3339 text denotes. Encoding fails on the values for which \<^verbatim>\<open>json.Marshal\<close> fails: an
  instant whose year is not in 0..9999, a NaN or an infinity. Decoding a member absent from the
  object, or null, leaves the destination's zero value; a member of the wrong type is an error.
\<close>

datatype json =
    JNull
  | JBool bool
  | JInt int
  | JFloat float64
  | JStr string
  | JTime instant
  | JArr "json list"
  | JObj "(string \<times> json) list"

definition jstr :: "string \<Rightarrow> json" where
  "jstr s = JStr (utf8_fix s)"

section \<open>Encoding\<close>

text \<open>The first instant of the year 0 and the last of the year 9999, in UTC.\<close>

definition year_ok :: "instant \<Rightarrow> bool" where
  "year_ok t = (- 62167219200 * second \<le> t \<and> t < 253402300800 * second)"

definition marshal_time :: "instant \<Rightarrow> error + json" where
  "marshal_time t = (if year_ok t then Inr (JTime t) else Inl (ErrLib ''json: year outside of range [0,9999]''))"

definition marshal_float :: "float64 \<Rightarrow> error + json" where
  "marshal_float f =
     (case f of Fin s m e \<Rightarrow> Inr (JFloat f) | _ \<Rightarrow> Inl (ErrLib ''json: unsupported value''))"

text \<open>The members of an object are encoded in turn; the first failure is the result.\<close>

fun marshal_members :: "(string \<times> (error + json)) list \<Rightarrow> error + (string \<times> json) list" where
  "marshal_members [] = Inr []"
| "marshal_members ((k, r) # ms) =
     (case r of
        Inl e \<Rightarrow> Inl e
      | Inr v \<Rightarrow> (case marshal_members ms of Inl e \<Rightarrow> Inl e | Inr vs \<Rightarrow> Inr ((k, v) # vs)))"

definition marshal_obj :: "(string \<times> (error + json)) list \<Rightarrow> error + json" where
  "marshal_obj ms = (case marshal_members ms of Inl e \<Rightarrow> Inl e | Inr vs \<Rightarrow> Inr (JObj vs))"

section \<open>Decoding\<close>

definition json_fold :: "string \<Rightarrow> string" where
  "json_fold s = map lower_char s"

text \<open>The member that sets the field named \<open>k\<close>: the last whose key is \<open>k\<close> up to ASCII case.\<close>

definition jfield :: "string \<Rightarrow> (string \<times> json) list \<Rightarrow> json" where
  "jfield k ms =
     (case filter (\<lambda>m. json_fold (fst m) = json_fold k) (rev ms) of [] \<Rightarrow> JNull | m # _ \<Rightarrow> snd m)"

definition type_error :: error where
  "type_error = ErrLib ''json: cannot unmarshal''"

definition dec_string :: "json \<Rightarrow> error + string" where
  "dec_string j = (case j of JNull \<Rightarrow> Inr [] | JStr s \<Rightarrow> Inr s | _ \<Rightarrow> Inl type_error)"

definition dec_int64 :: "json \<Rightarrow> error + int64" where
  "dec_int64 j =
     (case j of
        JNull \<Rightarrow> Inr 0
      | JInt i \<Rightarrow> if - (2 ^ 63) \<le> i \<and> i < 2 ^ 63 then Inr (word_of_int i) else Inl type_error
      | _ \<Rightarrow> Inl type_error)"

definition dec_float64 :: "json \<Rightarrow> error + float64" where
  "dec_float64 j =
     (case j of
        JNull \<Rightarrow> Inr 0
      | JInt i \<Rightarrow> (case f64_of_int i of Fin s m e \<Rightarrow> Inr (Fin s m e) | _ \<Rightarrow> Inl type_error)
      | JFloat f \<Rightarrow> Inr f
      | _ \<Rightarrow> Inl type_error)"

text \<open>\<open>zero_time\<close> is Go's zero \<^verbatim>\<open>time.Time\<close>, 1 January of the year 1.\<close>

definition zero_time :: instant where
  "zero_time = - 62135596800 * second"

definition dec_time :: "json \<Rightarrow> error + instant" where
  "dec_time j = (case j of JNull \<Rightarrow> Inr zero_time | JTime t \<Rightarrow> Inr t | _ \<Rightarrow> Inl type_error)"

text \<open>A \<^verbatim>\<open>map[string]float64\<close> is an association list; a later binding of a key wins.\<close>

fun dec_float_members :: "(string \<times> json) list \<Rightarrow> error + (string \<times> float64) list" where
  "dec_float_members [] = Inr []"
| "dec_float_members ((k, j) # ms) =
     (case dec_float64 j of
        Inl e \<Rightarrow> Inl e
      | Inr v \<Rightarrow>
          (case dec_float_members ms of
             Inl e \<Rightarrow> Inl e
           | Inr vs \<Rightarrow> Inr (if k \<in> fst ` set vs then vs else (k, v) # vs)))"

definition dec_float_map :: "json \<Rightarrow> error + (string \<times> float64) list" where
  "dec_float_map j =
     (case j of JNull \<Rightarrow> Inr [] | JObj ms \<Rightarrow> dec_float_members ms | _ \<Rightarrow> Inl type_error)"

definition marshal_float_map :: "(string \<times> float64) list \<Rightarrow> error + json" where
  "marshal_float_map rs = marshal_obj (map (\<lambda>(k, v). (utf8_fix k, marshal_float v)) rs)"

section \<open>Round trips\<close>

lemma dec_jstr [simp]: "dec_string (jstr s) = Inr (utf8_fix s)"
  by (simp add: dec_string_def jstr_def)

lemma dec_int64_sint [simp]: "dec_int64 (JInt (sint w)) = Inr w"
  using sint_range_size [of w] by (simp add: dec_int64_def word_size)

lemma dec_time_JTime [simp]: "dec_time (JTime t) = Inr t"
  by (simp add: dec_time_def)

lemma dec_float_marshal: "marshal_float f = Inr j \<Longrightarrow> dec_float64 j = Inr f"
  by (auto simp: marshal_float_def dec_float64_def split: float64.splits)

definition finite_f64 :: "float64 \<Rightarrow> bool" where
  "finite_f64 f = (case f of Fin _ _ _ \<Rightarrow> True | _ \<Rightarrow> False)"

lemma marshal_float_finite: "finite_f64 f \<Longrightarrow> marshal_float f = Inr (JFloat f)"
  by (simp add: finite_f64_def marshal_float_def split: float64.splits)

lemma marshal_members_keys: "marshal_members ms = Inr vs \<Longrightarrow> map fst vs = map fst ms"
  by (induction ms arbitrary: vs rule: marshal_members.induct) (auto split: sum.splits)

lemma dec_float_members_keys:
  "dec_float_members ms = Inr vs \<Longrightarrow> fst ` set vs = fst ` set ms"
proof (induction ms arbitrary: vs rule: dec_float_members.induct)
  case 1
  then show ?case by simp
next
  case (2 k j ms)
  then obtain v us where v: "dec_float64 j = Inr v" and us: "dec_float_members ms = Inr us"
    and vs: "vs = (if k \<in> fst ` set us then us else (k, v) # us)"
    by (auto split: sum.splits)
  from "2.IH" [OF v us] vs show ?case by auto
qed

text \<open>A map with distinct UTF-8 keys survives encoding and decoding.\<close>

lemma float_map_roundtrip:
  assumes "distinct (map fst rs)" and "\<forall>(k, v) \<in> set rs. valid_utf8 k"
    and "marshal_float_map rs = Inr j"
  shows "dec_float_map j = Inr rs"
proof -
  have "dec_float_members vs = Inr rs"
    if "marshal_members (map (\<lambda>(k, v). (utf8_fix k, marshal_float v)) rs) = Inr vs"
      "distinct (map fst rs)" "\<forall>(k, v) \<in> set rs. valid_utf8 k" for vs
    using that
  proof (induction rs arbitrary: vs)
    case Nil
    then show ?case by simp
  next
    case (Cons p rs)
    obtain k v where p: "p = (k, v)" by (cases p)
    from Cons.prems p obtain jv vs' where
      jv: "marshal_float v = Inr jv" and
      vs': "marshal_members (map (\<lambda>(k, v). (utf8_fix k, marshal_float v)) rs) = Inr vs'" and
      vs: "vs = (utf8_fix k, jv) # vs'"
      by (auto split: sum.splits)
    from Cons.IH [OF vs'] Cons.prems have "dec_float_members vs' = Inr rs" by simp
    with vs dec_float_marshal [OF jv] Cons.prems p show ?case
      by (auto simp: valid_utf8_def)
  qed
  with assms show ?thesis
    by (auto simp: marshal_float_map_def marshal_obj_def dec_float_map_def split: sum.splits)
qed

end
