(* ===== verification/Model.thy ===== *)
theory Model
  imports Json
begin

text \<open>
  The domain types of \<^verbatim>\<open>internal/model\<close>, with their JSON encodings (the \<^verbatim>\<open>json\<close> tags) and their
  validation rules (the \<^verbatim>\<open>binding\<close> tags). Field names carry a prefix for the struct they belong to.
  \<open>usr_Password\<close> has the tag \<^verbatim>\<open>json:"-"\<close>: it is neither written nor read.
\<close>

section \<open>Users\<close>

type_synonym Role = string

definition RoleUser :: Role where "RoleUser = ''user''"
definition RoleAdmin :: Role where "RoleAdmin = ''admin''"

record User =
  usr_ID :: int64
  usr_Email :: string
  usr_Username :: string
  usr_Password :: string
  usr_Name :: string
  usr_Role :: Role
  usr_CreatedAt :: instant
  usr_UpdatedAt :: instant

text \<open>The zero value of the struct, from which composite literals and decoding start.\<close>

definition zero_User :: User where
  "zero_User = \<lparr>usr_ID = 0, usr_Email = [], usr_Username = [], usr_Password = [], usr_Name = [],
                usr_Role = [], usr_CreatedAt = zero_time, usr_UpdatedAt = zero_time\<rparr>"

definition marshal_User :: "User \<Rightarrow> error + json" where
  "marshal_User u =
     marshal_obj
       [(''id'', Inr (JInt (sint (usr_ID u)))),
        (''email'', Inr (jstr (usr_Email u))),
        (''username'', Inr (jstr (usr_Username u))),
        (''name'', Inr (jstr (usr_Name u))),
        (''role'', Inr (jstr (usr_Role u))),
        (''created_at'', marshal_time (usr_CreatedAt u)),
        (''updated_at'', marshal_time (usr_UpdatedAt u))]"

definition unmarshal_User_members :: "(string \<times> json) list \<Rightarrow> error + User" where
  "unmarshal_User_members ms =
     bind_r (dec_int64 (jfield ''id'' ms)) (\<lambda>i.
     bind_r (dec_string (jfield ''email'' ms)) (\<lambda>em.
     bind_r (dec_string (jfield ''username'' ms)) (\<lambda>un.
     bind_r (dec_string (jfield ''name'' ms)) (\<lambda>nm.
     bind_r (dec_string (jfield ''role'' ms)) (\<lambda>ro.
     bind_r (dec_time (jfield ''created_at'' ms)) (\<lambda>ca.
     bind_r (dec_time (jfield ''updated_at'' ms)) (\<lambda>ua.
       Inr \<lparr>usr_ID = i, usr_Email = em, usr_Username = un, usr_Password = [], usr_Name = nm,
            usr_Role = ro, usr_CreatedAt = ca, usr_UpdatedAt = ua\<rparr>)))))))"

definition unmarshal_User :: "json \<Rightarrow> error + User" where
  "unmarshal_User j =
     (case j of JNull \<Rightarrow> Inr zero_User | JObj ms \<Rightarrow> unmarshal_User_members ms | _ \<Rightarrow> Inl type_error)"

text \<open>A user without the password, and without the time stamps.\<close>

definition safe_User :: "User \<Rightarrow> User" where
  "safe_User u = u\<lparr>usr_Password := []\<rparr>"

definition no_times :: "User \<Rightarrow> User" where
  "no_times u = u\<lparr>usr_CreatedAt := 0, usr_UpdatedAt := 0\<rparr>"

lemma no_times_eq_iff:
  "no_times u = no_times v \<longleftrightarrow>
     usr_ID u = usr_ID v \<and> usr_Email u = usr_Email v \<and> usr_Username u = usr_Username v \<and>
     usr_Password u = usr_Password v \<and> usr_Name u = usr_Name v \<and> usr_Role u = usr_Role v"
  by (cases u; cases v) (auto simp: no_times_def)

definition utf8_User :: "User \<Rightarrow> bool" where
  "utf8_User u = (valid_utf8 (usr_Email u) \<and> valid_utf8 (usr_Username u) \<and>
                  valid_utf8 (usr_Name u) \<and> valid_utf8 (usr_Role u))"

lemma jfield_Cons:
  "jfield k ((k', j) # ms) =
     (if \<exists>m \<in> set ms. json_fold (fst m) = json_fold k then jfield k ms
      else if json_fold k' = json_fold k then j else JNull)"
proof (cases "filter (\<lambda>m. json_fold (fst m) = json_fold k) (rev ms)")
  case Nil
  then show ?thesis by (auto simp: jfield_def filter_empty_conv)
next
  case (Cons m l)
  then have "m \<in> set (filter (\<lambda>m. json_fold (fst m) = json_fold k) (rev ms))" by simp
  then have "\<exists>m \<in> set ms. json_fold (fst m) = json_fold k" by auto
  with Cons show ?thesis by (simp add: jfield_def)
qed

lemma jfield_Nil [simp]: "jfield k [] = JNull"
  by (simp add: jfield_def)

lemmas json_key_simps = jfield_Cons json_fold_def lower_char_def byte_def

lemma jfield_user_members:
  fixes a b c d e f g :: json defines "ms \<equiv> [(''id'', a), (''email'', b), (''username'', c), (''name'', d),
                           (''role'', e), (''created_at'', f), (''updated_at'', g)]"
  shows "jfield ''id'' ms = a" "jfield ''email'' ms = b" "jfield ''username'' ms = c"
    "jfield ''name'' ms = d" "jfield ''role'' ms = e" "jfield ''created_at'' ms = f"
    "jfield ''updated_at'' ms = g"
  by (simp_all add: ms_def json_key_simps)

lemma marshal_User_Inr:
  "marshal_User u = Inr j \<longleftrightarrow>
     year_ok (usr_CreatedAt u) \<and> year_ok (usr_UpdatedAt u) \<and>
     j = JObj [(''id'', JInt (sint (usr_ID u))), (''email'', jstr (usr_Email u)),
               (''username'', jstr (usr_Username u)), (''name'', jstr (usr_Name u)),
               (''role'', jstr (usr_Role u)), (''created_at'', JTime (usr_CreatedAt u)),
               (''updated_at'', JTime (usr_UpdatedAt u))]"
  by (auto simp: marshal_User_def marshal_obj_def marshal_time_def)

text \<open>
  Encoding and decoding a user gives the user back, with the password blanked and each string made
  valid UTF-8.
\<close>

lemma unmarshal_marshal_User:
  "marshal_User u = Inr j \<Longrightarrow>
   unmarshal_User j =
     Inr (u\<lparr>usr_Password := [], usr_Email := utf8_fix (usr_Email u),
            usr_Username := utf8_fix (usr_Username u), usr_Name := utf8_fix (usr_Name u),
            usr_Role := utf8_fix (usr_Role u)\<rparr>)"
  by (cases u) (simp add: marshal_User_Inr unmarshal_User_def unmarshal_User_members_def
      jfield_user_members)

lemma unmarshal_marshal_safe:
  "utf8_User u \<Longrightarrow> marshal_User u = Inr j \<Longrightarrow> unmarshal_User j = Inr (safe_User u)"
  by (cases u) (simp add: unmarshal_marshal_User utf8_User_def valid_utf8_def safe_User_def)

lemma marshal_User_password [simp]: "marshal_User (u\<lparr>usr_Password := p\<rparr>) = marshal_User u"
  by (simp add: marshal_User_def)

lemma marshal_safe_User [simp]: "marshal_User (safe_User u) = marshal_User u"
  by (simp add: safe_User_def)

lemma safe_User_simps [simp]:
  "usr_ID (safe_User u) = usr_ID u" "usr_Email (safe_User u) = usr_Email u"
  "usr_Username (safe_User u) = usr_Username u" "usr_Password (safe_User u) = []"
  "usr_Name (safe_User u) = usr_Name u" "usr_Role (safe_User u) = usr_Role u"
  "safe_User (safe_User u) = safe_User u" "utf8_User (safe_User u) = utf8_User u"
  by (simp_all add: safe_User_def utf8_User_def)

lemma unmarshal_User_no_password: "unmarshal_User j = Inr u \<Longrightarrow> usr_Password u = []"
  by (auto simp: unmarshal_User_def unmarshal_User_members_def zero_User_def bind_r_Inr_iff
      split: json.splits)

section \<open>Requests and responses\<close>

record RegisterRequest =
  reg_Email :: string
  reg_Password :: string
  reg_Name :: string
  reg_Username :: string

record LoginRequest =
  login_Email :: string
  login_Password :: string

record RefreshRequest =
  refresh_Token :: string

record UpdateProfileRequest =
  upd_Name :: string
  upd_Email :: string
  upd_Username :: string

record AuthResponse =
  auth_AccessToken :: string
  auth_RefreshToken :: string
  auth_ExpiresAt :: int

record CheckAvailabilityRequest =
  chk_Email :: string
  chk_Username :: string

record CheckAvailabilityResponse =
  chk_EmailAvailable :: bool
  chk_UsernameAvailable :: bool

definition marshal_AuthResponse :: "AuthResponse \<Rightarrow> json" where
  "marshal_AuthResponse r =
     JObj [(''access_token'', jstr (auth_AccessToken r)),
           (''refresh_token'', jstr (auth_RefreshToken r)),
           (''expires_at'', JInt (auth_ExpiresAt r))]"

definition marshal_CheckAvailabilityResponse :: "CheckAvailabilityResponse \<Rightarrow> json" where
  "marshal_CheckAvailabilityResponse r =
     JObj [(''email_available'', JBool (chk_EmailAvailable r)),
           (''username_available'', JBool (chk_UsernameAvailable r))]"

section \<open>Validation rules\<close>

text \<open>
  The \<^verbatim>\<open>binding\<close> tags of a request, as the value of each string field with its rules. Checking them
  is the work of the validator library; \<open>binding_ok\<close> states what the rules mean (lengths count code
  points), with the library's e-mail syntax \<open>mail\<close> a parameter. A request that the library binds
  satisfies it.
\<close>

datatype tag = Required | Omitempty | EmailTag | MinTag nat | MaxTag nat | Alphanum

definition alnum_char :: "char \<Rightarrow> bool" where
  "alnum_char c = (in_range 48 57 c \<or> in_range 65 90 c \<or> in_range 97 122 c)"

fun tag_ok :: "(string \<Rightarrow> bool) \<Rightarrow> string \<Rightarrow> tag \<Rightarrow> bool" where
  "tag_ok mail s Required = (s \<noteq> [])"
| "tag_ok mail s Omitempty = True"
| "tag_ok mail s EmailTag = mail s"
| "tag_ok mail s (MinTag n) = (n \<le> rune_count s)"
| "tag_ok mail s (MaxTag n) = (rune_count s \<le> n)"
| "tag_ok mail s Alphanum = (s \<noteq> [] \<and> list_all alnum_char s)"

definition binding_ok :: "(string \<Rightarrow> bool) \<Rightarrow> (string \<times> tag list) list \<Rightarrow> bool" where
  "binding_ok mail fs =
     list_all (\<lambda>(s, ts). Omitempty \<in> set ts \<and> s = [] \<or> list_all (tag_ok mail s) ts) fs"

definition RegisterRequest_binding :: "RegisterRequest \<Rightarrow> (string \<times> tag list) list" where
  "RegisterRequest_binding r =
     [(reg_Email r, [Required, EmailTag]),
      (reg_Password r, [Required, MinTag 8, MaxTag 72]),
      (reg_Name r, [Required, MinTag 1, MaxTag 100]),
      (reg_Username r, [Required, MinTag 3, MaxTag 50, Alphanum])]"

definition LoginRequest_binding :: "LoginRequest \<Rightarrow> (string \<times> tag list) list" where
  "LoginRequest_binding r =
     [(login_Email r, [Required, EmailTag]), (login_Password r, [Required, MinTag 1])]"

definition RefreshRequest_binding :: "RefreshRequest \<Rightarrow> (string \<times> tag list) list" where
  "RefreshRequest_binding r = [(refresh_Token r, [Required])]"

definition UpdateProfileRequest_binding :: "UpdateProfileRequest \<Rightarrow> (string \<times> tag list) list" where
  "UpdateProfileRequest_binding r =
     [(upd_Name r, [Omitempty, MinTag 1, MaxTag 100]),
      (upd_Email r, [Omitempty, EmailTag]),
      (upd_Username r, [Omitempty, MinTag 3, MaxTag 50, Alphanum])]"

definition CheckAvailabilityRequest_binding ::
    "CheckAvailabilityRequest \<Rightarrow> (string \<times> tag list) list" where
  "CheckAvailabilityRequest_binding r =
     [(chk_Email r, [Omitempty, EmailTag]),
      (chk_Username r, [Omitempty, MinTag 3, MaxTag 50, Alphanum])]"

end
