(* ===== verification/Database.thy ===== *)
theory Database
  imports Model
begin

text \<open>
  \<^verbatim>\<open>internal/database\<close> and the database behind it. The ORM and PostgreSQL are a parameter, the record
  \<open>gorm\<close>: one function per query the repository makes, on the database state \<open>'d\<close> and through a
  connection, which is the pool or an open transaction. A context carries at most one transaction,
  the value under \<^verbatim>\<open>TXKey\<close>.

  \<open>gorm_ok g rows\<close> is the documented behaviour the repository relies on, with \<open>rows d c\<close> the users
  table as connection \<open>c\<close> sees it: reads return rows of the table, writes change one row or none and
  keep the constraints of the migrations (primary key, unique e-mail, unique user name), an error
  changes nothing, and a write through one connection is not seen through another. Any query may
  fail with an error of the library at any time. Time stamps may lose precision when stored.
\<close>

section \<open>Contexts and connections\<close>

datatype conn = DB | TX nat

record go_context =
  ctx_TXKey :: "nat option"

definition background :: go_context where
  "background = \<lparr>ctx_TXKey = None\<rparr>"

definition TXFromContext :: "go_context \<Rightarrow> conn \<Rightarrow> conn" where
  "TXFromContext ctx db = (case ctx_TXKey ctx of Some tx \<Rightarrow> TX tx | None \<Rightarrow> db)"

lemma TXFromContext_background [simp]: "TXFromContext background db = db"
  by (simp add: TXFromContext_def background_def)

section \<open>The ORM as a parameter\<close>

record 'd gorm =
  gorm_Create :: "conn \<Rightarrow> 'd \<Rightarrow> User \<Rightarrow> (error option \<times> User) \<times> 'd"
  gorm_First :: "conn \<Rightarrow> 'd \<Rightarrow> int64 \<Rightarrow> (error + User) \<times> 'd"
  gorm_Where_First :: "conn \<Rightarrow> 'd \<Rightarrow> string \<Rightarrow> string \<Rightarrow> (error + User) \<times> 'd"
  gorm_Select_Scan :: "conn \<Rightarrow> 'd \<Rightarrow> string \<Rightarrow> (error + (string \<times> string) list) \<times> 'd"
  gorm_Updates :: "conn \<Rightarrow> 'd \<Rightarrow> User \<Rightarrow> (string \<times> string) list \<Rightarrow> (error option \<times> nat \<times> User) \<times> 'd"
  gorm_Delete :: "conn \<Rightarrow> 'd \<Rightarrow> int64 \<Rightarrow> (error option \<times> nat) \<times> 'd"
  gorm_Find :: "conn \<Rightarrow> 'd \<Rightarrow> int \<Rightarrow> int \<Rightarrow> string \<Rightarrow> (error + User list) \<times> 'd"
  gorm_Transaction :: "'d \<Rightarrow> (nat \<Rightarrow> 'd \<Rightarrow> error option \<times> 'd) \<Rightarrow> error option \<times> 'd"

text \<open>\<^verbatim>\<open>transactionManager.Run\<close>\<close>

definition TransactionManager_Run ::
    "'d gorm \<Rightarrow> go_context \<Rightarrow> 'd \<Rightarrow> (go_context \<Rightarrow> 'd \<Rightarrow> error option \<times> 'd) \<Rightarrow> error option \<times> 'd" where
  "TransactionManager_Run g ctx d fn =
     gorm_Transaction g d (\<lambda>tx. fn (ctx\<lparr>ctx_TXKey := Some tx\<rparr>))"

section \<open>The users table\<close>

type_synonym table = "int64 \<rightharpoonup> User"

definition table_wf :: "table \<Rightarrow> bool" where
  "table_wf m \<longleftrightarrow>
     (\<forall>i u. m i = Some u \<longrightarrow> usr_ID u = i \<and> utf8_User u) \<and>
     (\<forall>i j u v. m i = Some u \<longrightarrow> m j = Some v \<longrightarrow>
        usr_Email u = usr_Email v \<or> usr_Username u = usr_Username v \<longrightarrow> i = j)"

definition email_taken :: "table \<Rightarrow> string \<Rightarrow> bool" where
  "email_taken m e \<longleftrightarrow> (\<exists>u \<in> ran m. usr_Email u = e)"

definition username_taken :: "table \<Rightarrow> string \<Rightarrow> bool" where
  "username_taken m e \<longleftrightarrow> (\<exists>u \<in> ran m. usr_Username u = e)"

text \<open>The columns the repository filters and sorts by.\<close>

definition column :: "string \<Rightarrow> User \<Rightarrow> string" where
  "column q u = (if q = ''email = ?'' then usr_Email u else usr_Username u)"

definition rows_by_id :: "table \<Rightarrow> User list \<Rightarrow> bool" where
  "rows_by_id m xs \<longleftrightarrow>
     set xs = ran m \<and> sorted_wrt (\<lambda>a b. sint (usr_ID a) < sint (usr_ID b)) xs"

lemma table_wf_id: "table_wf m \<Longrightarrow> m i = Some u \<Longrightarrow> usr_ID u = i"
  by (simp add: table_wf_def)

lemma table_wf_utf8: "table_wf m \<Longrightarrow> m i = Some u \<Longrightarrow> utf8_User u"
  by (simp add: table_wf_def)

lemma table_wf_email:
  "table_wf m \<Longrightarrow> m i = Some u \<Longrightarrow> m j = Some v \<Longrightarrow> usr_Email u = usr_Email v \<Longrightarrow> i = j"
  unfolding table_wf_def by blast

lemma table_wf_username:
  "table_wf m \<Longrightarrow> m i = Some u \<Longrightarrow> m j = Some v \<Longrightarrow> usr_Username u = usr_Username v \<Longrightarrow> i = j"
  unfolding table_wf_def by blast

lemma table_wf_ranD: "table_wf m \<Longrightarrow> row \<in> ran m \<Longrightarrow> m (usr_ID row) = Some row"
  unfolding ran_def using table_wf_id by fastforce

lemma table_wf_ran_id: "table_wf m \<Longrightarrow> row \<in> ran m \<and> usr_ID row = i \<longleftrightarrow> m i = Some row"
  using table_wf_ranD table_wf_id ranI by metis

lemma table_wf_no_id: "table_wf m \<Longrightarrow> (\<forall>row \<in> ran m. usr_ID row \<noteq> i) \<longleftrightarrow> m i = None"
  using table_wf_ran_id by (metis not_None_eq)

lemma table_wf_ran_email:
  "table_wf m \<Longrightarrow> u \<in> ran m \<Longrightarrow> v \<in> ran m \<Longrightarrow> usr_Email u = usr_Email v \<Longrightarrow> u = v"
  using table_wf_ranD table_wf_email by (metis option.inject)

section \<open>The contract\<close>

type_synonym 'd rows = "'d \<Rightarrow> conn \<Rightarrow> table"

definition db_wf :: "'d rows \<Rightarrow> 'd \<Rightarrow> bool" where
  "db_wf rows d \<longleftrightarrow> (\<forall>c. table_wf (rows d c))"

text \<open>An operation through connection \<open>c\<close> leaves the view of every other connection alone.\<close>

definition others_same :: "'d rows \<Rightarrow> conn \<Rightarrow> 'd \<Rightarrow> 'd \<Rightarrow> bool" where
  "others_same rows c d d' \<longleftrightarrow> (\<forall>c'. c' \<noteq> c \<longrightarrow> rows d' c' = rows d c')"

definition gorm_reads_ok :: "'d gorm \<Rightarrow> 'd rows \<Rightarrow> bool" where
  "gorm_reads_ok g rows \<longleftrightarrow>
     (\<forall>c d i r d'. gorm_First g c d i = (r, d') \<longrightarrow> db_wf rows d \<longrightarrow> rows d' = rows d \<and>
        (case r of Inr u \<Rightarrow> rows d c i = Some u
         | Inl e \<Rightarrow> lib_error e \<and> (errors_Is e ErrRecordNotFound \<longrightarrow> rows d c i = None))) \<and>
     (\<forall>c d q v r d'. gorm_Where_First g c d q v = (r, d') \<longrightarrow> db_wf rows d \<longrightarrow> rows d' = rows d \<and>
        (case r of Inr u \<Rightarrow> u \<in> ran (rows d c) \<and> column q u = v
         | Inl e \<Rightarrow> lib_error e \<and>
             (errors_Is e ErrRecordNotFound \<longrightarrow> (\<forall>u \<in> ran (rows d c). column q u \<noteq> v)))) \<and>
     (\<forall>c d q r d'. gorm_Select_Scan g c d q = (r, d') \<longrightarrow> db_wf rows d \<longrightarrow> rows d' = rows d \<and>
        (case r of Inr ps \<Rightarrow> set ps = (\<lambda>u. (usr_Email u, usr_Username u)) ` ran (rows d c)
         | Inl e \<Rightarrow> lib_error e)) \<and>
     (\<forall>c d off lim q r d'. gorm_Find g c d off lim q = (r, d') \<longrightarrow> db_wf rows d \<longrightarrow> rows d' = rows d \<and>
        (case r of
           Inr us \<Rightarrow> 0 \<le> off \<longrightarrow> 0 < lim \<longrightarrow> q = ''id'' \<longrightarrow>
             (\<exists>xs. rows_by_id (rows d c) xs \<and> us = take (nat lim) (drop (nat off) xs))
         | Inl e \<Rightarrow> lib_error e))"

definition gorm_Create_ok :: "'d gorm \<Rightarrow> 'd rows \<Rightarrow> bool" where
  "gorm_Create_ok g rows \<longleftrightarrow>
     (\<forall>c d u r u' d'. gorm_Create g c d u = ((r, u'), d') \<longrightarrow> db_wf rows d \<longrightarrow> usr_ID u = 0 \<longrightarrow>
        db_wf rows d' \<and> others_same rows c d d' \<and>
        (case r of
           Some e \<Rightarrow> lib_error e \<and> rows d' c = rows d c
         | None \<Rightarrow>
             rows d c (usr_ID u') = None \<and> usr_ID u' \<noteq> 0 \<and>
             no_times (u'\<lparr>usr_ID := 0\<rparr>) = no_times u \<and>
             (\<exists>row. rows d' c = (rows d c)(usr_ID u' \<mapsto> row) \<and> no_times row = no_times u')))"

definition update_row :: "(string \<times> string) list \<Rightarrow> User \<Rightarrow> User" where
  "update_row kvs u =
     u\<lparr>usr_Name := (case map_of kvs ''name'' of Some v \<Rightarrow> v | None \<Rightarrow> usr_Name u),
       usr_Email := (case map_of kvs ''email'' of Some v \<Rightarrow> v | None \<Rightarrow> usr_Email u),
       usr_Username := (case map_of kvs ''username'' of Some v \<Rightarrow> v | None \<Rightarrow> usr_Username u)\<rparr>"

definition gorm_Updates_ok :: "'d gorm \<Rightarrow> 'd rows \<Rightarrow> bool" where
  "gorm_Updates_ok g rows \<longleftrightarrow>
     (\<forall>c d u kvs r n u' d'. gorm_Updates g c d u kvs = ((r, n, u'), d') \<longrightarrow> db_wf rows d \<longrightarrow>
        db_wf rows d' \<and> others_same rows c d d' \<and>
        (case r of
           Some e \<Rightarrow> lib_error e \<and> rows d' c = rows d c
         | None \<Rightarrow>
             no_times u' = no_times (update_row kvs u) \<and>
             (if n = 0 then rows d c (usr_ID u) = None \<and> rows d' c = rows d c
              else \<exists>old t. rows d c (usr_ID u) = Some old \<and>
                     rows d' c = (rows d c)(usr_ID u \<mapsto> update_row kvs old\<lparr>usr_UpdatedAt := t\<rparr>))))"

definition gorm_Delete_ok :: "'d gorm \<Rightarrow> 'd rows \<Rightarrow> bool" where
  "gorm_Delete_ok g rows \<longleftrightarrow>
     (\<forall>c d i r n d'. gorm_Delete g c d i = ((r, n), d') \<longrightarrow> db_wf rows d \<longrightarrow>
        db_wf rows d' \<and> others_same rows c d d' \<and>
        (case r of
           Some e \<Rightarrow> lib_error e \<and> rows d' c = rows d c
         | None \<Rightarrow> (n = 0 \<longleftrightarrow> rows d c i = None) \<and> rows d' c = (rows d c)(i := None)))"

text \<open>
  A transaction runs its function on a state where the new connection sees what the pool sees. An
  error of the function rolls back; success commits, or fails to commit and changes nothing.
\<close>

definition gorm_Transaction_ok :: "'d gorm \<Rightarrow> 'd rows \<Rightarrow> bool" where
  "gorm_Transaction_ok g rows \<longleftrightarrow>
     (\<forall>d f r d'. gorm_Transaction g d f = (r, d') \<longrightarrow> db_wf rows d \<longrightarrow>
        (\<exists>e. r = Some e \<and> lib_error e \<and> rows d' = rows d) \<or>
        (\<exists>tx d1 d2 r2. db_wf rows d1 \<and> rows d1 (TX tx) = rows d DB \<and>
           others_same rows (TX tx) d d1 \<and> f tx d1 = (r2, d2) \<and>
           (case r2 of
              Some e \<Rightarrow> r = Some e \<and> rows d' DB = rows d2 DB
            | None \<Rightarrow> r = None \<and> rows d' DB = rows d2 (TX tx) \<or>
                      (\<exists>e. r = Some e \<and> lib_error e \<and> rows d' DB = rows d2 DB))))"

definition gorm_ok :: "'d gorm \<Rightarrow> 'd rows \<Rightarrow> bool" where
  "gorm_ok g rows \<longleftrightarrow>
     gorm_reads_ok g rows \<and> gorm_Create_ok g rows \<and> gorm_Updates_ok g rows \<and>
     gorm_Delete_ok g rows \<and> gorm_Transaction_ok g rows"

section \<open>The contract, one fact per query\<close>

lemma gorm_First_D:
  assumes "gorm_ok g rows" "db_wf rows d" "gorm_First g c d i = (r, d')"
  shows "rows d' = rows d" and "r = Inr u \<Longrightarrow> rows d c i = Some u"
    and "r = Inl e \<Longrightarrow> lib_error e"
    and "r = Inl e \<Longrightarrow> errors_Is e ErrRecordNotFound \<Longrightarrow> rows d c i = None"
  using assms(1) [unfolded gorm_ok_def gorm_reads_ok_def, THEN conjunct1, THEN conjunct1, rule_format, OF assms(3) assms(2)]
  by (auto split: sum.splits)

lemma gorm_Where_First_D:
  assumes "gorm_ok g rows" "db_wf rows d" "gorm_Where_First g c d q v = (r, d')"
  shows "rows d' = rows d" and "r = Inr u \<Longrightarrow> u \<in> ran (rows d c) \<and> column q u = v"
    and "r = Inl e \<Longrightarrow> lib_error e"
    and "r = Inl e \<Longrightarrow> errors_Is e ErrRecordNotFound \<Longrightarrow> w \<in> ran (rows d c) \<Longrightarrow> column q w \<noteq> v"
  using assms(1) [unfolded gorm_ok_def gorm_reads_ok_def, THEN conjunct1, THEN conjunct2, THEN conjunct1, rule_format, OF assms(3) assms(2)]
  by (auto split: sum.splits)

lemma gorm_Select_Scan_D:
  assumes "gorm_ok g rows" "db_wf rows d" "gorm_Select_Scan g c d q = (r, d')"
  shows "rows d' = rows d"
    and "r = Inr ps \<Longrightarrow> set ps = (\<lambda>u. (usr_Email u, usr_Username u)) ` ran (rows d c)"
    and "r = Inl e \<Longrightarrow> lib_error e"
  using assms(1) [unfolded gorm_ok_def gorm_reads_ok_def, THEN conjunct1, THEN conjunct2, THEN conjunct2, THEN conjunct1, rule_format, OF assms(3) assms(2)]
  by (auto split: sum.splits)

lemma gorm_Find_D:
  assumes "gorm_ok g rows" "db_wf rows d" "gorm_Find g c d off lim ''id'' = (r, d')"
  shows "rows d' = rows d"
    and "r = Inr us \<Longrightarrow> 0 \<le> off \<Longrightarrow> 0 < lim \<Longrightarrow>
         \<exists>xs. rows_by_id (rows d c) xs \<and> us = take (nat lim) (drop (nat off) xs)"
    and "r = Inl e \<Longrightarrow> lib_error e"
  using assms(1) [unfolded gorm_ok_def gorm_reads_ok_def, THEN conjunct1, THEN conjunct2, THEN conjunct2, THEN conjunct2, rule_format, OF assms(3) assms(2)]
  by (auto split: sum.splits)

lemma gorm_Create_D:
  assumes "gorm_ok g rows" "db_wf rows d" "gorm_Create g c d u = ((r, u'), d')" "usr_ID u = 0"
  shows "db_wf rows d'" and "others_same rows c d d'"
    and "r = Some e \<Longrightarrow> lib_error e \<and> rows d' c = rows d c"
    and "r = None \<Longrightarrow> rows d c (usr_ID u') = None \<and> usr_ID u' \<noteq> 0 \<and>
         no_times (u'\<lparr>usr_ID := 0\<rparr>) = no_times u \<and>
         (\<exists>row. rows d' c = (rows d c)(usr_ID u' \<mapsto> row) \<and> no_times row = no_times u')"
  using assms(1) [unfolded gorm_ok_def gorm_Create_ok_def, THEN conjunct2, THEN conjunct1, rule_format, OF assms(3) assms(2) assms(4)]
  by (auto split: option.splits)

lemma gorm_Updates_D:
  assumes "gorm_ok g rows" "db_wf rows d" "gorm_Updates g c d u kvs = ((r, n, u'), d')"
  shows "db_wf rows d'" and "others_same rows c d d'"
    and "r = Some e \<Longrightarrow> lib_error e \<and> rows d' c = rows d c"
    and "r = None \<Longrightarrow> no_times u' = no_times (update_row kvs u)"
    and "r = None \<Longrightarrow> n = 0 \<Longrightarrow> rows d c (usr_ID u) = None \<and> rows d' c = rows d c"
    and "r = None \<Longrightarrow> n \<noteq> 0 \<Longrightarrow> \<exists>old t. rows d c (usr_ID u) = Some old \<and>
         rows d' c = (rows d c)(usr_ID u \<mapsto> update_row kvs old\<lparr>usr_UpdatedAt := t\<rparr>)"
  using assms(1) [unfolded gorm_ok_def gorm_Updates_ok_def, THEN conjunct2, THEN conjunct2, THEN conjunct1, rule_format, OF assms(3) assms(2)]
  by (auto split: option.splits if_splits)

lemma gorm_Delete_D:
  assumes "gorm_ok g rows" "db_wf rows d" "gorm_Delete g c d i = ((r, n), d')"
  shows "db_wf rows d'" and "others_same rows c d d'"
    and "r = Some e \<Longrightarrow> lib_error e \<and> rows d' c = rows d c"
    and "r = None \<Longrightarrow> (n = 0 \<longleftrightarrow> rows d c i = None) \<and> rows d' c = (rows d c)(i := None)"
  using assms(1) [unfolded gorm_ok_def gorm_Delete_ok_def, THEN conjunct2, THEN conjunct2, THEN conjunct2, THEN conjunct1, rule_format, OF assms(3) assms(2)]
  by (auto split: option.splits)

end
