(* ===== verification/Jwt.thy ===== *)
theory Jwt
  imports Json
begin

text \<open>
  \<^verbatim>\<open>pkg/jwt\<close>: issuing and validating tokens. The JWT library is a parameter (\<open>jwtlib\<close>): signing
  claims with a method and a key, parsing a token with a key function at an instant, and rounding an
  instant to a numeric date. \<open>jwt_ok\<close> states the documented behaviour the package relies on;
  \<open>sig m k tok c\<close> stands for "\<open>tok\<close> carries the claims \<open>c\<close> and a valid signature of method \<open>m\<close>
  under key \<open>k\<close>".
\<close>

datatype signing_method = SigningMethodHMAC string | OtherMethod string

definition SigningMethodHS256 :: signing_method where
  "SigningMethodHS256 = SigningMethodHMAC ''HS256''"

record Claims =
  cl_UserID :: int64
  cl_Email :: string
  cl_Role :: string
  cl_ExpiresAt :: "instant option"
  cl_IssuedAt :: "instant option"
  cl_Issuer :: string
  cl_Subject :: string

record TokenPair =
  tp_AccessToken :: string
  tp_RefreshToken :: string
  tp_ExpiresAt :: instant

text \<open>A parsed token: its claims (\<open>None\<close> if they are of another Go type) and its \<^verbatim>\<open>Valid\<close> flag.\<close>

record jtoken =
  tok_Claims :: "Claims option"
  tok_Valid :: bool

record jwtlib =
  jwt_NewNumericDate :: "instant \<Rightarrow> instant"
  jwt_SignedString :: "signing_method \<Rightarrow> Claims \<Rightarrow> string \<Rightarrow> error + string"
  jwt_ParseWithClaims ::
    "instant \<Rightarrow> string \<Rightarrow> (signing_method \<Rightarrow> error + string) \<Rightarrow> error + jtoken"

section \<open>Issuing\<close>

definition access_claims :: "jwtlib \<Rightarrow> instant \<Rightarrow> int64 \<Rightarrow> string \<Rightarrow> string \<Rightarrow> duration \<Rightarrow> Claims" where
  "access_claims J now userID email role accessExpiry =
     \<lparr>cl_UserID = userID, cl_Email = email, cl_Role = role,
      cl_ExpiresAt = Some (jwt_NewNumericDate J (now + sint accessExpiry)),
      cl_IssuedAt = Some (jwt_NewNumericDate J now),
      cl_Issuer = ''golang-api-server'',
      cl_Subject = show_int (sint userID)\<rparr>"

definition refresh_claims :: "jwtlib \<Rightarrow> instant \<Rightarrow> int64 \<Rightarrow> duration \<Rightarrow> Claims" where
  "refresh_claims J now userID refreshExpiry =
     \<lparr>cl_UserID = userID, cl_Email = [], cl_Role = [],
      cl_ExpiresAt = Some (jwt_NewNumericDate J (now + sint refreshExpiry)),
      cl_IssuedAt = Some (jwt_NewNumericDate J now),
      cl_Issuer = ''golang-api-server'',
      cl_Subject = show_int (sint userID)\<rparr>"

definition GenerateTokenPair ::
    "jwtlib \<Rightarrow> instant \<Rightarrow> string \<Rightarrow> int64 \<Rightarrow> string \<Rightarrow> string \<Rightarrow> duration \<Rightarrow> duration
     \<Rightarrow> error + TokenPair" where
  "GenerateTokenPair J now secret userID email role accessExpiry refreshExpiry =
     (case jwt_SignedString J SigningMethodHS256
             (access_claims J now userID email role accessExpiry) secret of
        Inl e \<Rightarrow> Inl (Errorf ''sign access token: '' e [])
      | Inr accessString \<Rightarrow>
          (case jwt_SignedString J SigningMethodHS256
                  (refresh_claims J now userID refreshExpiry) secret of
             Inl e \<Rightarrow> Inl (Errorf ''sign refresh token: '' e [])
           | Inr refreshString \<Rightarrow>
               Inr \<lparr>tp_AccessToken = accessString, tp_RefreshToken = refreshString,
                    tp_ExpiresAt = now + sint accessExpiry\<rparr>))"

section \<open>Validating\<close>

definition keyFunc :: "string \<Rightarrow> signing_method \<Rightarrow> error + string" where
  "keyFunc secret m =
     (case m of
        SigningMethodHMAC alg \<Rightarrow> Inr secret
      | OtherMethod alg \<Rightarrow> Inl (ErrNew (''unexpected signing method: '' @ alg)))"

definition ValidateToken :: "jwtlib \<Rightarrow> instant \<Rightarrow> string \<Rightarrow> string \<Rightarrow> error + Claims" where
  "ValidateToken J now secret tokenString =
     (case jwt_ParseWithClaims J now tokenString (keyFunc secret) of
        Inl e \<Rightarrow> if errors_Is e ErrJwtTokenExpired then Inl ErrTokenExpired else Inl ErrTokenInvalid
      | Inr token \<Rightarrow>
          (case tok_Claims token of
             None \<Rightarrow> Inl ErrTokenInvalid
           | Some claims \<Rightarrow> if \<not> tok_Valid token then Inl ErrTokenInvalid else Inr claims))"

section \<open>The library's contract\<close>

definition utf8_Claims :: "Claims \<Rightarrow> bool" where
  "utf8_Claims c = (valid_utf8 (cl_Email c) \<and> valid_utf8 (cl_Role c) \<and> valid_utf8 (cl_Issuer c)
                    \<and> valid_utf8 (cl_Subject c))"

definition unexpired :: "instant \<Rightarrow> Claims \<Rightarrow> bool" where
  "unexpired now c = (case cl_ExpiresAt c of None \<Rightarrow> True | Some x \<Rightarrow> now < x)"

definition jwt_ok :: "jwtlib \<Rightarrow> (signing_method \<Rightarrow> string \<Rightarrow> string \<Rightarrow> Claims \<Rightarrow> bool) \<Rightarrow> bool" where
  "jwt_ok J sig \<longleftrightarrow>
     (\<forall>t. jwt_NewNumericDate J t \<le> t \<and> t < jwt_NewNumericDate J t + second) \<and>
     (\<forall>alg c key. \<exists>tok. jwt_SignedString J (SigningMethodHMAC alg) c key = Inr tok) \<and>
     (\<forall>m c key tok. utf8_Claims c \<longrightarrow> jwt_SignedString J m c key = Inr tok \<longrightarrow> sig m key tok c) \<and>
     (\<forall>now m c key tok kf. sig m key tok c \<longrightarrow> kf m = Inr key \<longrightarrow>
        (if unexpired now c
         then jwt_ParseWithClaims J now tok kf = Inr \<lparr>tok_Claims = Some c, tok_Valid = True\<rparr>
         else \<exists>e. jwt_ParseWithClaims J now tok kf = Inl e \<and> errors_Is e ErrJwtTokenExpired)) \<and>
     (\<forall>now tok kf t c. jwt_ParseWithClaims J now tok kf = Inr t \<longrightarrow> tok_Claims t = Some c \<longrightarrow>
        tok_Valid t \<longrightarrow> (\<exists>m key. kf m = Inr key \<and> sig m key tok c) \<and> unexpired now c)"

lemma jwt_okD:
  assumes "jwt_ok J sig"
  shows "jwt_NewNumericDate J t \<le> t" and "t < jwt_NewNumericDate J t + second"
    and "\<exists>tok. jwt_SignedString J (SigningMethodHMAC alg) c key = Inr tok"
    and "utf8_Claims c \<Longrightarrow> jwt_SignedString J m c key = Inr tok \<Longrightarrow> sig m key tok c"
    and "sig m key tok c \<Longrightarrow> kf m = Inr key \<Longrightarrow> unexpired now c \<Longrightarrow>
         jwt_ParseWithClaims J now tok kf = Inr \<lparr>tok_Claims = Some c, tok_Valid = True\<rparr>"
    and "sig m key tok c \<Longrightarrow> kf m = Inr key \<Longrightarrow> \<not> unexpired now c \<Longrightarrow>
         \<exists>e. jwt_ParseWithClaims J now tok kf = Inl e \<and> errors_Is e ErrJwtTokenExpired"
    and "jwt_ParseWithClaims J now tok kf = Inr jt \<Longrightarrow> tok_Claims jt = Some c \<Longrightarrow> tok_Valid jt \<Longrightarrow>
         (\<exists>m key. kf m = Inr key \<and> sig m key tok c) \<and> unexpired now c"
  using assms unfolding jwt_ok_def by (blast | meson)+

lemma keyFunc_Inr: "keyFunc secret m = Inr key \<longleftrightarrow> key = secret \<and> (\<exists>alg. m = SigningMethodHMAC alg)"
  by (auto simp: keyFunc_def split: signing_method.splits)

section \<open>What the package promises\<close>

text \<open>Issuing never fails: HMAC signing has no error case.\<close>

lemma GenerateTokenPair_total:
  assumes "jwt_ok J sig"
  shows "\<exists>p. GenerateTokenPair J now secret i em ro ae re = Inr p"
proof -
  obtain a r where
    "jwt_SignedString J SigningMethodHS256 (access_claims J now i em ro ae) secret = Inr a"
    "jwt_SignedString J SigningMethodHS256 (refresh_claims J now i re) secret = Inr r"
    using jwt_okD(3) [OF assms] unfolding SigningMethodHS256_def by meson
  then show ?thesis by (simp add: GenerateTokenPair_def)
qed

lemma GenerateTokenPair_signed:
  assumes "jwt_ok J sig" and "GenerateTokenPair J now secret i em ro ae re = Inr p"
  shows "valid_utf8 em \<Longrightarrow> valid_utf8 ro \<Longrightarrow>
           sig SigningMethodHS256 secret (tp_AccessToken p) (access_claims J now i em ro ae)"
    and "sig SigningMethodHS256 secret (tp_RefreshToken p) (refresh_claims J now i re)"
    and "tp_ExpiresAt p = now + sint ae"
proof -
  obtain a r where
    a: "jwt_SignedString J SigningMethodHS256 (access_claims J now i em ro ae) secret = Inr a" and
    r: "jwt_SignedString J SigningMethodHS256 (refresh_claims J now i re) secret = Inr r" and
    p: "p = \<lparr>tp_AccessToken = a, tp_RefreshToken = r, tp_ExpiresAt = now + sint ae\<rparr>"
    using assms(2) by (auto simp: GenerateTokenPair_def split: sum.splits)
  have sub: "valid_utf8 (show_int (sint i))" and iss: "valid_utf8 ''golang-api-server''"
    by (simp_all add: valid_utf8_ascii byte_def)
  have "utf8_Claims (refresh_claims J now i re)"
    by (simp add: utf8_Claims_def refresh_claims_def sub iss valid_utf8_ascii)
  with jwt_okD(4) [OF assms(1) _ r] p
  show "sig SigningMethodHS256 secret (tp_RefreshToken p) (refresh_claims J now i re)" by simp
  show "tp_ExpiresAt p = now + sint ae" by (simp add: p)
  assume "valid_utf8 em" "valid_utf8 ro"
  then have "utf8_Claims (access_claims J now i em ro ae)"
    by (simp add: utf8_Claims_def access_claims_def sub iss)
  with jwt_okD(4) [OF assms(1) _ a] p
  show "sig SigningMethodHS256 secret (tp_AccessToken p) (access_claims J now i em ro ae)"
    by simp
qed

lemma ValidateToken_signed:
  assumes "jwt_ok J sig" and "sig (SigningMethodHMAC alg) secret tok c"
  shows "ValidateToken J now secret tok = (if unexpired now c then Inr c else Inl ErrTokenExpired)"
proof -
  have k: "keyFunc secret (SigningMethodHMAC alg) = Inr secret" by (simp add: keyFunc_def)
  show ?thesis
  proof (cases "unexpired now c")
    case True
    then show ?thesis
      using jwt_okD(5) [where kf = "keyFunc secret", OF assms k] by (simp add: ValidateToken_def)
  next
    case False
    obtain e where "jwt_ParseWithClaims J now tok (keyFunc secret) = Inl e"
      "errors_Is e ErrJwtTokenExpired"
      using jwt_okD(6) [where kf = "keyFunc secret", OF assms k False] by blast
    with False show ?thesis by (simp add: ValidateToken_def)
  qed
qed

lemma ValidateToken_sound:
  assumes "jwt_ok J sig" and "ValidateToken J now secret tok = Inr c"
  shows "(\<exists>alg. sig (SigningMethodHMAC alg) secret tok c) \<and> unexpired now c"
proof -
  obtain t where "jwt_ParseWithClaims J now tok (keyFunc secret) = Inr t" "tok_Claims t = Some c"
    "tok_Valid t"
    using assms(2) by (auto simp: ValidateToken_def split: sum.splits option.splits if_splits)
  then show ?thesis using jwt_okD(7) [OF assms(1)] by (metis keyFunc_Inr)
qed

lemma ValidateToken_errors: "ValidateToken J now secret tok = Inl e \<Longrightarrow> e \<in> {ErrTokenExpired, ErrTokenInvalid}"
  by (auto simp: ValidateToken_def split: sum.splits option.splits if_splits)

end
