(* ===== verification/Http.thy ===== *)
theory Http
  imports Database Jwt
begin

text \<open>
  What the middleware and the handlers use of the web framework: the per-request context
  \<^verbatim>\<open>gin.Context\<close> as a record, and a chain of handlers. A handler gets the rest of the chain as its
  argument (\<^verbatim>\<open>c.Next()\<close>), and the state \<open>'w\<close> of the server beside the context. Every middleware of
  the program either calls \<^verbatim>\<open>c.Next()\<close> once, or aborts; the last handler of a chain does neither.

  \<open>gc_FullPath\<close> and \<open>gc_Param_id\<close> are what the framework's router matched; the body and the query
  string are handed to the framework's binding functions, which are parameters. A response is a
  status and the result of encoding its body.

  The locale \<open>guard\<close> is the contract of the middleware that admit or reject: on \<open>adm\<close> the chain
  goes on, otherwise it ends with an aborted context, and what \<open>frame\<close> shows of the server's state is
  untouched either way. Guards compose (\<open>guard_seq\<close>).
\<close>

datatype key_val = KInt64 int64 | KString string

record gin_ctx =
  gc_Method :: string
  gc_FullPath :: string
  gc_Param_id :: string
  gc_ClientIP :: string
  gc_Header :: "string \<Rightarrow> string"
  gc_Body :: string
  gc_Query :: string
  gc_Context :: go_context
  gc_Keys :: "string \<rightharpoonup> key_val"
  gc_Out :: "(string \<times> string) list"
  gc_Resp :: "(nat \<times> (error + json)) option"
  gc_Aborted :: bool

type_synonym 'w req_state = "'w \<times> gin_ctx"
type_synonym 'w handler = "('w req_state \<Rightarrow> 'w req_state) \<Rightarrow> 'w req_state \<Rightarrow> 'w req_state"

definition gin_JSON :: "nat \<Rightarrow> error + json \<Rightarrow> gin_ctx \<Rightarrow> gin_ctx" where
  "gin_JSON status body c = c\<lparr>gc_Resp := Some (status, body)\<rparr>"

definition gin_H :: "(string \<times> string) list \<Rightarrow> error + json" where
  "gin_H kvs = Inr (JObj (map (\<lambda>(k, v). (k, jstr v)) kvs))"

definition gin_Abort :: "gin_ctx \<Rightarrow> gin_ctx" where
  "gin_Abort c = c\<lparr>gc_Aborted := True\<rparr>"

definition gin_Set :: "string \<Rightarrow> key_val \<Rightarrow> gin_ctx \<Rightarrow> gin_ctx" where
  "gin_Set k v c = c\<lparr>gc_Keys := (gc_Keys c)(k \<mapsto> v)\<rparr>"

definition gin_SetHeader :: "string \<Rightarrow> string \<Rightarrow> gin_ctx \<Rightarrow> gin_ctx" where
  "gin_SetHeader k v c = c\<lparr>gc_Out := (k, v) # filter (\<lambda>p. fst p \<noteq> k) (gc_Out c)\<rparr>"

definition resp_status :: "gin_ctx \<Rightarrow> nat option" where
  "resp_status c = map_option fst (gc_Resp c)"

fun run_chain :: "'w handler list \<Rightarrow> 'w req_state \<Rightarrow> 'w req_state" where
  "run_chain [] st = st"
| "run_chain (h # hs) st = h (run_chain hs) st"

lemmas gin_defs [http_simps] = gin_JSON_def gin_H_def gin_Abort_def gin_Set_def gin_SetHeader_def resp_status_def

text \<open>A handler that ends the chain.\<close>

definition final :: "('w req_state \<Rightarrow> 'w req_state) \<Rightarrow> 'w handler" where
  "final h next st = h st"

lemma final_simp [simp]: "final h next st = h st"
  by (simp add: final_def)

section \<open>Guards\<close>

locale guard =
  fixes h :: "'w handler"
    and adm :: "'w req_state \<Rightarrow> bool"
    and pass :: "'w req_state \<Rightarrow> 'w req_state"
    and stop :: "'w req_state \<Rightarrow> 'w req_state"
    and frame :: "'w \<Rightarrow> 'v"
    and deny :: "nat set"
  assumes admit: "adm st \<Longrightarrow> h next st = next (pass st)"
    and reject: "\<not> adm st \<Longrightarrow> h next st = stop st"
    and stop_aborts: "\<not> adm st \<Longrightarrow> gc_Aborted (snd (stop st)) \<and> (\<exists>n \<in> deny. resp_status (snd (stop st)) = Some n)"
    and stop_frame: "frame (fst (stop st)) = frame (fst st)"
    and pass_frame: "frame (fst (pass st)) = frame (fst st)"
begin

text \<open>Whatever follows the guard only happens to an admitted request.\<close>

lemma effect_admitted: "frame (fst (h next st)) \<noteq> frame (fst st) \<Longrightarrow> adm st \<and> h next st = next (pass st)"
  using admit reject stop_frame by metis

lemma answer_admitted:
  "resp_status (snd (h next st)) = Some n \<Longrightarrow> n \<notin> deny \<Longrightarrow> adm st \<and> h next st = next (pass st)"
  using admit reject stop_aborts by (metis option.inject)

lemma admitted:
  "frame (fst (h next st)) \<noteq> frame (fst st) \<or> (\<exists>n. resp_status (snd (h next st)) = Some n \<and> n \<notin> deny) \<Longrightarrow>
   adm st \<and> h next st = next (pass st)"
  using effect_admitted answer_admitted by blast

end

text \<open>Two guards one after the other are a guard.\<close>

definition seq_handler :: "'w handler \<Rightarrow> 'w handler \<Rightarrow> 'w handler" where
  "seq_handler h1 h2 next = h1 (h2 next)"

locale guard_seq = first: guard h1 adm1 pass1 stop1 frame deny1 + second: guard h2 adm2 pass2 stop2 frame deny2
  for h1 :: "'w handler" and adm1 pass1 stop1 and h2 :: "'w handler" and adm2 pass2 stop2
    and frame :: "'w \<Rightarrow> 'v" and deny1 deny2
begin

lemma seq_guard:
  "guard (seq_handler h1 h2) (\<lambda>st. adm1 st \<and> adm2 (pass1 st)) (\<lambda>st. pass2 (pass1 st))
     (\<lambda>st. if adm1 st then stop2 (pass1 st) else stop1 st) frame (deny1 \<union> deny2)"
  by unfold_locales
     (auto simp: seq_handler_def first.admit first.reject second.admit second.reject
       first.stop_frame first.pass_frame second.stop_frame second.pass_frame
       dest: first.stop_aborts second.stop_aborts)

end

sublocale guard_seq \<subseteq> both: guard "seq_handler h1 h2" "\<lambda>st. adm1 st \<and> adm2 (pass1 st)"
    "\<lambda>st. pass2 (pass1 st)" "\<lambda>st. if adm1 st then stop2 (pass1 st) else stop1 st" frame "deny1 \<union> deny2"
  by (rule seq_guard)

lemma run_chain_Cons: "run_chain (h # hs) = h (run_chain hs)"
  by (rule ext) simp

lemma run_chain_seq: "run_chain (h1 # h2 # hs) = run_chain (seq_handler h1 h2 # hs)"
  by (simp add: run_chain_Cons seq_handler_def)

end
