(* ===== verification/Middleware.thy ===== *)
theory Middleware
  imports Http
begin

text \<open>
  \<^verbatim>\<open>internal/middleware\<close>: authentication, role check, request identifiers, request log and metrics.
  What the program writes to the log is I/O and left out, except for the record that \<^verbatim>\<open>RequestLogger\<close>
  exists to write; log sink and metrics registry are arguments that act on the server's state.
  \<open>AuthMiddleware\<close> and \<open>RequireRole\<close> are interpreted as guards.
\<close>

section \<open>Reading the context\<close>

definition GetUserID :: "gin_ctx \<Rightarrow> int64" where
  "GetUserID c = (case gc_Keys c ''user_id'' of Some (KInt64 i) \<Rightarrow> i | _ \<Rightarrow> 0)"

definition GetUserRole :: "gin_ctx \<Rightarrow> string" where
  "GetUserRole c = (case gc_Keys c ''role'' of Some (KString r) \<Rightarrow> r | _ \<Rightarrow> [])"

section \<open>Authentication and authorisation\<close>

definition unauthorized :: "string \<Rightarrow> 'w req_state \<Rightarrow> 'w req_state" where
  "unauthorized msg st = (fst st, gin_Abort (gin_JSON 401 (gin_H [(''error'', msg)]) (snd st)))"

definition AuthMiddleware :: "jwtlib \<Rightarrow> instant \<Rightarrow> string \<Rightarrow> 'w handler" where
  "AuthMiddleware J now secret next st =
     (let authHeader = gc_Header (snd st) ''Authorization''
      in if authHeader = [] then unauthorized ''authorization header required'' st
         else
           let parts = SplitN2 (CHR '' '') authHeader
           in if length parts \<noteq> 2 \<or> \<not> EqualFold (parts ! 0) ''Bearer''
              then unauthorized ''invalid authorization header format'' st
              else
                (case ValidateToken J now secret (parts ! 1) of
                   Inl e \<Rightarrow> unauthorized ''invalid or expired token'' st
                 | Inr claims \<Rightarrow>
                     next (fst st,
                       gin_Set ''role'' (KString (cl_Role claims))
                         (gin_Set ''email'' (KString (cl_Email claims))
                           (gin_Set ''user_id'' (KInt64 (cl_UserID claims)) (snd st))))))"

definition RequireRole :: "string list \<Rightarrow> 'w handler" where
  "RequireRole roles next st =
     (case gc_Keys (snd st) ''role'' of
        None \<Rightarrow> unauthorized ''unauthorized'' st
      | Some (KInt64 _) \<Rightarrow>
          (fst st, gin_Abort (gin_JSON 500 (gin_H [(''error'', ''internal error'')]) (snd st)))
      | Some (KString role) \<Rightarrow>
          if list_ex (\<lambda>r. role = r) roles then next st
          else (fst st, gin_Abort (gin_JSON 403 (gin_H [(''error'', ''insufficient permissions'')]) (snd st))))"

section \<open>Request identifiers, log and metrics\<close>

definition RequestIDHeader :: string where
  "RequestIDHeader = ''X-Request-ID''"

definition RequestID :: "string \<Rightarrow> 'w handler" where
  "RequestID uuid next st =
     (let i = gc_Header (snd st) RequestIDHeader;
          i = (if i = [] then uuid else i)
      in next (fst st, gin_SetHeader RequestIDHeader i (gin_Set ''request_id'' (KString i) (snd st))))"

datatype log_val = LStr string | LInt int | LDur int | LKey "key_val option"

definition RequestLogger ::
    "(string \<Rightarrow> (string \<times> log_val) list \<Rightarrow> 'w \<Rightarrow> 'w) \<Rightarrow> instant \<Rightarrow> instant \<Rightarrow> (gin_ctx \<Rightarrow> int) \<Rightarrow> 'w handler" where
  "RequestLogger slog_Info start now Writer_Status next st =
     (case next st of (w, c) \<Rightarrow>
        (slog_Info ''http request''
           [(''method'', LStr (gc_Method c)), (''path'', LStr (gc_FullPath c)),
            (''status'', LInt (Writer_Status c)), (''latency'', LDur (now - start)),
            (''ip'', LStr (gc_ClientIP c)), (''user_id'', LInt (sint (GetUserID c))),
            (''request_id'', LKey (gc_Keys c ''request_id''))] w, c))"

definition Metrics ::
    "(string list \<Rightarrow> 'w \<Rightarrow> 'w) \<Rightarrow> (string list \<Rightarrow> int \<Rightarrow> 'w \<Rightarrow> 'w) \<Rightarrow> instant \<Rightarrow> instant \<Rightarrow> (gin_ctx \<Rightarrow> int)
     \<Rightarrow> 'w handler" where
  "Metrics requests_Inc duration_Observe start now Writer_Status next st =
     (case next st of (w, c) \<Rightarrow>
        let path = (if gc_FullPath c = [] then ''unknown'' else gc_FullPath c);
            status = show_int (Writer_Status c)
        in (duration_Observe [gc_Method c, path] (now - start)
              (requests_Inc [gc_Method c, path, status] w), c))"

section \<open>The guards\<close>

text \<open>The bearer token of a request, if it has one.\<close>

definition bearer :: "gin_ctx \<Rightarrow> string option" where
  "bearer c =
     (let parts = SplitN2 (CHR '' '') (gc_Header c ''Authorization'')
      in if gc_Header c ''Authorization'' \<noteq> [] \<and> length parts = 2 \<and> EqualFold (parts ! 0) ''Bearer''
         then Some (parts ! 1) else None)"

definition auth_claims :: "jwtlib \<Rightarrow> instant \<Rightarrow> string \<Rightarrow> gin_ctx \<Rightarrow> Claims option" where
  "auth_claims J now secret c =
     (case bearer c of
        None \<Rightarrow> None
      | Some tok \<Rightarrow> (case ValidateToken J now secret tok of Inl e \<Rightarrow> None | Inr cl \<Rightarrow> Some cl))"

definition with_claims :: "Claims \<Rightarrow> gin_ctx \<Rightarrow> gin_ctx" where
  "with_claims cl c =
     c\<lparr>gc_Keys := (gc_Keys c)(''user_id'' \<mapsto> KInt64 (cl_UserID cl), ''email'' \<mapsto> KString (cl_Email cl),
                              ''role'' \<mapsto> KString (cl_Role cl))\<rparr>"

lemma with_claims_simps [simp]:
  "GetUserID (with_claims cl c) = cl_UserID cl" "GetUserRole (with_claims cl c) = cl_Role cl"
  "gc_Keys (with_claims cl c) ''role'' = Some (KString (cl_Role cl))"
  "gc_Body (with_claims cl c) = gc_Body c" "gc_Param_id (with_claims cl c) = gc_Param_id c"
  "gc_Context (with_claims cl c) = gc_Context c" "gc_ClientIP (with_claims cl c) = gc_ClientIP c"
  "gc_Query (with_claims cl c) = gc_Query c"
  by (simp_all add: with_claims_def GetUserID_def GetUserRole_def)

lemma AuthMiddleware_pass:
  "auth_claims J now secret (snd st) = Some cl \<Longrightarrow>
   AuthMiddleware J now secret next st = next (fst st, with_claims cl (snd st))"
  by (auto simp: AuthMiddleware_def auth_claims_def bearer_def with_claims_def gin_Set_def Let_def
      split: option.splits sum.splits if_splits)

definition auth_stop :: "'w req_state \<Rightarrow> 'w req_state" where
  "auth_stop st =
     (if gc_Header (snd st) ''Authorization'' = [] then unauthorized ''authorization header required'' st
      else if bearer (snd st) = None then unauthorized ''invalid authorization header format'' st
      else unauthorized ''invalid or expired token'' st)"

lemma AuthMiddleware_stop:
  "auth_claims J now secret (snd st) = None \<Longrightarrow> AuthMiddleware J now secret next st = auth_stop st"
  by (auto simp: AuthMiddleware_def auth_claims_def bearer_def auth_stop_def Let_def
      split: option.splits sum.splits if_splits)

lemma unauthorized_simps [simp]:
  "fst (unauthorized m st) = fst st" "gc_Aborted (snd (unauthorized m st))"
  "resp_status (snd (unauthorized m st)) = Some 401"
  by (simp_all add: unauthorized_def gin_defs)

interpretation auth: guard "AuthMiddleware J now secret" "\<lambda>st. auth_claims J now secret (snd st) \<noteq> None"
    "\<lambda>st. (fst st, with_claims (the (auth_claims J now secret (snd st))) (snd st))" auth_stop frame "{401}"
  for J now secret and frame :: "'w \<Rightarrow> 'v"
  by unfold_locales (auto simp: AuthMiddleware_pass AuthMiddleware_stop auth_stop_def)

definition role_ok :: "string list \<Rightarrow> gin_ctx \<Rightarrow> bool" where
  "role_ok roles c = (\<exists>r \<in> set roles. gc_Keys c ''role'' = Some (KString r))"

interpretation role: guard "RequireRole roles" "\<lambda>st. role_ok roles (snd st)" "\<lambda>st. st"
    "RequireRole roles (\<lambda>st. st)" frame "{401, 403, 500}"
  for roles and frame :: "'w \<Rightarrow> 'v"
  by unfold_locales
     (auto simp: RequireRole_def role_ok_def list_ex_iff unauthorized_def gin_defs
       split: option.splits key_val.splits)

text \<open>Authentication followed by a role check.\<close>

interpretation auth_role: guard_seq "AuthMiddleware J now secret" "\<lambda>st. auth_claims J now secret (snd st) \<noteq> None"
    "\<lambda>st. (fst st, with_claims (the (auth_claims J now secret (snd st))) (snd st))" auth_stop
    "RequireRole roles" "\<lambda>st. role_ok roles (snd st)" "\<lambda>st. st" "RequireRole roles (\<lambda>st. st)" frame "{401}" "{401, 403, 500}"
  for J now secret roles and frame :: "'w \<Rightarrow> 'v"
  by unfold_locales

end
