(* ===== verification/UserRepository.thy ===== *)
theory UserRepository
  imports Database
begin

text \<open>
  The interface \<^verbatim>\<open>service.UserRepository\<close> and its database implementation
  (\<^verbatim>\<open>internal/repository/user.go\<close>). A Go interface value is a record of its methods, over the state
  \<open>'s\<close> the implementation works on; a method that mutates the user its caller passes returns it.

  Two locales state what a client may rely on. \<open>user_reader\<close>: a lookup that succeeds returns the row
  of the table (up to \<open>view\<close>), one that says "not found" is right, and no lookup changes the table.
  \<open>user_repository\<close>, where the row itself is returned, adds the writes. Both are interpreted on \<open>NewUserRepository g\<close>.
\<close>

section \<open>The interface\<close>

record 's UserRepository =
  repo_Create :: "go_context \<Rightarrow> 's \<Rightarrow> User \<Rightarrow> string \<Rightarrow> (error option \<times> User) \<times> 's"
  repo_GetByID :: "go_context \<Rightarrow> 's \<Rightarrow> int64 \<Rightarrow> (error + User) \<times> 's"
  repo_GetByEmail :: "go_context \<Rightarrow> 's \<Rightarrow> string \<Rightarrow> (error + User) \<times> 's"
  repo_GetByUsername :: "go_context \<Rightarrow> 's \<Rightarrow> string \<Rightarrow> (error + User) \<times> 's"
  repo_Update :: "go_context \<Rightarrow> 's \<Rightarrow> User \<Rightarrow> (error option \<times> User) \<times> 's"
  repo_Delete :: "go_context \<Rightarrow> 's \<Rightarrow> int64 \<Rightarrow> error option \<times> 's"
  repo_List :: "go_context \<Rightarrow> 's \<Rightarrow> int \<Rightarrow> int \<Rightarrow> (error + User list) \<times> 's"
  repo_AllEmailsAndUsernames :: "go_context \<Rightarrow> 's \<Rightarrow> (error + string list \<times> string list) \<times> 's"

section \<open>The database implementation\<close>

definition isUniqueViolation :: "error \<Rightarrow> bool" where
  "isUniqueViolation e = (Error e = ''duplicate key value violates unique constraint'')"

definition UserRepositoryImpl_Create ::
    "'d gorm \<Rightarrow> go_context \<Rightarrow> 'd \<Rightarrow> User \<Rightarrow> string \<Rightarrow> (error option \<times> User) \<times> 'd" where
  "UserRepositoryImpl_Create g ctx d user passwordHash =
     (let db = TXFromContext ctx DB
      in case gorm_Create g db d (user\<lparr>usr_Password := passwordHash\<rparr>) of
           ((Some e, user'), d') \<Rightarrow>
             if isUniqueViolation e then ((Some ErrConflict, user'), d')
             else ((Some (Errorf ''create user: '' e []), user'), d')
         | ((None, user'), d') \<Rightarrow> ((None, user'), d'))"

definition UserRepositoryImpl_GetByID ::
    "'d gorm \<Rightarrow> go_context \<Rightarrow> 'd \<Rightarrow> int64 \<Rightarrow> (error + User) \<times> 'd" where
  "UserRepositoryImpl_GetByID g ctx d i =
     (let db = TXFromContext ctx DB
      in case gorm_First g db d i of
           (Inl e, d') \<Rightarrow>
             if errors_Is e ErrRecordNotFound then (Inl ErrNotFound, d')
             else (Inl (Errorf (''get user by id '' @ show_int (sint i) @ '': '') e []), d')
         | (Inr user, d') \<Rightarrow> (Inr user, d'))"

definition UserRepositoryImpl_GetByEmail ::
    "'d gorm \<Rightarrow> go_context \<Rightarrow> 'd \<Rightarrow> string \<Rightarrow> (error + User) \<times> 'd" where
  "UserRepositoryImpl_GetByEmail g ctx d email =
     (let db = TXFromContext ctx DB
      in case gorm_Where_First g db d ''email = ?'' email of
           (Inl e, d') \<Rightarrow>
             if errors_Is e ErrRecordNotFound then (Inl ErrNotFound, d')
             else (Inl (Errorf (''get user by email '' @ email @ '': '') e []), d')
         | (Inr user, d') \<Rightarrow> (Inr user, d'))"

definition UserRepositoryImpl_GetByUsername ::
    "'d gorm \<Rightarrow> go_context \<Rightarrow> 'd \<Rightarrow> string \<Rightarrow> (error + User) \<times> 'd" where
  "UserRepositoryImpl_GetByUsername g ctx d username =
     (let db = TXFromContext ctx DB
      in case gorm_Where_First g db d ''username = ?'' username of
           (Inl e, d') \<Rightarrow>
             if errors_Is e ErrRecordNotFound then (Inl ErrNotFound, d')
             else (Inl (Errorf (''get user by username '' @ username @ '': '') e []), d')
         | (Inr user, d') \<Rightarrow> (Inr user, d'))"

text \<open>This query goes to the pool, whatever transaction the context carries.\<close>

definition UserRepositoryImpl_AllEmailsAndUsernames ::
    "'d gorm \<Rightarrow> go_context \<Rightarrow> 'd \<Rightarrow> (error + string list \<times> string list) \<times> 'd" where
  "UserRepositoryImpl_AllEmailsAndUsernames g ctx d =
     (case gorm_Select_Scan g DB d ''email, username'' of
        (Inl e, d') \<Rightarrow> (Inl (Errorf ''fetch all emails and usernames: '' e []), d')
      | (Inr rows, d') \<Rightarrow> (Inr (map fst rows, map snd rows), d'))"

definition UserRepositoryImpl_Update ::
    "'d gorm \<Rightarrow> go_context \<Rightarrow> 'd \<Rightarrow> User \<Rightarrow> (error option \<times> User) \<times> 'd" where
  "UserRepositoryImpl_Update g ctx d user =
     (let db = TXFromContext ctx DB
      in case gorm_Updates g db d user
                [(''name'', usr_Name user), (''email'', usr_Email user),
                 (''username'', usr_Username user)] of
           ((Some e, n, user'), d') \<Rightarrow>
             ((Some (Errorf (''update user '' @ show_int (sint (usr_ID user)) @ '': '') e []), user'), d')
         | ((None, n, user'), d') \<Rightarrow>
             if n = 0 then ((Some ErrNotFound, user'), d') else ((None, user'), d'))"

definition UserRepositoryImpl_Delete ::
    "'d gorm \<Rightarrow> go_context \<Rightarrow> 'd \<Rightarrow> int64 \<Rightarrow> error option \<times> 'd" where
  "UserRepositoryImpl_Delete g ctx d i =
     (let db = TXFromContext ctx DB
      in case gorm_Delete g db d i of
           ((Some e, n), d') \<Rightarrow>
             (Some (Errorf (''delete user '' @ show_int (sint i) @ '': '') e []), d')
         | ((None, n), d') \<Rightarrow> if n = 0 then (Some ErrNotFound, d') else (None, d'))"

definition UserRepositoryImpl_List ::
    "'d gorm \<Rightarrow> go_context \<Rightarrow> 'd \<Rightarrow> int \<Rightarrow> int \<Rightarrow> (error + User list) \<times> 'd" where
  "UserRepositoryImpl_List g ctx d offset limit =
     (let db = TXFromContext ctx DB
      in case gorm_Find g db d offset limit ''id'' of
           (Inl e, d') \<Rightarrow> (Inl (Errorf ''list users: '' e []), d')
         | (Inr users, d') \<Rightarrow> (Inr users, d'))"

definition NewUserRepository :: "'d gorm \<Rightarrow> 'd UserRepository" where
  "NewUserRepository g =
     \<lparr>repo_Create = UserRepositoryImpl_Create g,
      repo_GetByID = UserRepositoryImpl_GetByID g,
      repo_GetByEmail = UserRepositoryImpl_GetByEmail g,
      repo_GetByUsername = UserRepositoryImpl_GetByUsername g,
      repo_Update = UserRepositoryImpl_Update g,
      repo_Delete = UserRepositoryImpl_Delete g,
      repo_List = UserRepositoryImpl_List g,
      repo_AllEmailsAndUsernames = UserRepositoryImpl_AllEmailsAndUsernames g\<rparr>"

lemmas UserRepositoryImpl_defs [repo_simps] =
  UserRepositoryImpl_Create_def UserRepositoryImpl_GetByID_def UserRepositoryImpl_GetByEmail_def
  UserRepositoryImpl_GetByUsername_def UserRepositoryImpl_AllEmailsAndUsernames_def
  UserRepositoryImpl_Update_def UserRepositoryImpl_Delete_def UserRepositoryImpl_List_def

lemma NewUserRepository_simps [simp]:
  "repo_Create (NewUserRepository g) = UserRepositoryImpl_Create g"
  "repo_GetByID (NewUserRepository g) = UserRepositoryImpl_GetByID g"
  "repo_GetByEmail (NewUserRepository g) = UserRepositoryImpl_GetByEmail g"
  "repo_GetByUsername (NewUserRepository g) = UserRepositoryImpl_GetByUsername g"
  "repo_Update (NewUserRepository g) = UserRepositoryImpl_Update g"
  "repo_Delete (NewUserRepository g) = UserRepositoryImpl_Delete g"
  "repo_List (NewUserRepository g) = UserRepositoryImpl_List g"
  "repo_AllEmailsAndUsernames (NewUserRepository g) = UserRepositoryImpl_AllEmailsAndUsernames g"
  by (simp_all add: NewUserRepository_def)

section \<open>What a client may rely on\<close>

text \<open>
  \<open>lookup_ok m P r v\<close>: the result \<open>r\<close> of looking for a row that satisfies \<open>P\<close> in the table \<open>m\<close>.
\<close>

definition lookup_ok :: "(User \<Rightarrow> User \<Rightarrow> bool) \<Rightarrow> table \<Rightarrow> (User \<Rightarrow> bool) \<Rightarrow> error + User \<Rightarrow> bool" where
  "lookup_ok view m P r =
     (case r of
        Inr u \<Rightarrow> \<exists>row \<in> ran m. P row \<and> view u row
      | Inl e \<Rightarrow> (errors_Is e ErrNotFound \<longrightarrow> (\<forall>row \<in> ran m. \<not> P row)) \<and>
          (errors_Is e ErrNotFound \<or> lib_error e))"

locale user_reader =
  fixes repo :: "'s UserRepository"
    and ctx :: go_context
    and inv :: "'s \<Rightarrow> bool"
    and tbl :: "'s \<Rightarrow> table"
    and view :: "User \<Rightarrow> User \<Rightarrow> bool"
  assumes tbl_wf: "inv s \<Longrightarrow> table_wf (tbl s)"
    and GetByID: "inv s \<Longrightarrow> repo_GetByID repo ctx s i = (r, s') \<Longrightarrow>
          inv s' \<and> tbl s' = tbl s \<and> lookup_ok view (tbl s) (\<lambda>u. usr_ID u = i) r"
    and GetByEmail: "inv s \<Longrightarrow> repo_GetByEmail repo ctx s e = (r, s') \<Longrightarrow>
          inv s' \<and> tbl s' = tbl s \<and> lookup_ok view (tbl s) (\<lambda>u. usr_Email u = e) r"
    and GetByUsername: "inv s \<Longrightarrow> repo_GetByUsername repo ctx s n = (r, s') \<Longrightarrow>
          inv s' \<and> tbl s' = tbl s \<and> lookup_ok view (tbl s) (\<lambda>u. usr_Username u = n) r"
    and List: "inv s \<Longrightarrow> repo_List repo ctx s off lim = (lr, s') \<Longrightarrow>
          inv s' \<and> tbl s' = tbl s \<and>
          (\<forall>us. lr = Inr us \<longrightarrow> 0 \<le> off \<longrightarrow> 0 < lim \<longrightarrow>
             (\<exists>xs. rows_by_id (tbl s) xs \<and> us = take (nat lim) (drop (nat off) xs)))"

text \<open>The row a successful creation stores for the user \<open>u\<close> with the given hash.\<close>

definition created_row :: "table \<Rightarrow> User \<Rightarrow> string \<Rightarrow> User \<Rightarrow> User \<Rightarrow> bool" where
  "created_row m u h u' row \<longleftrightarrow>
     m (usr_ID u') = None \<and> usr_ID u' \<noteq> 0 \<and> no_times row = no_times u' \<and>
     no_times (u'\<lparr>usr_ID := 0\<rparr>) = no_times (u\<lparr>usr_Password := h\<rparr>)"

definition updated_row :: "User \<Rightarrow> User \<Rightarrow> instant \<Rightarrow> User" where
  "updated_row u old t =
     old\<lparr>usr_Name := usr_Name u, usr_Email := usr_Email u, usr_Username := usr_Username u,
         usr_UpdatedAt := t\<rparr>"

locale user_repository = user_reader repo ctx inv tbl "(=)"
  for repo :: "'s UserRepository" and ctx inv tbl +
  assumes Create: "inv s \<Longrightarrow> usr_ID u = 0 \<Longrightarrow> repo_Create repo ctx s u h = ((cr, u'), s') \<Longrightarrow>
          inv s' \<and>
          (case cr of
             None \<Rightarrow> \<exists>row. created_row (tbl s) u h u' row \<and> tbl s' = (tbl s)(usr_ID u' \<mapsto> row)
           | Some e \<Rightarrow> tbl s' = tbl s \<and> (e = ErrConflict \<or> lib_error e))"
    and Update: "inv s \<Longrightarrow> repo_Update repo ctx s u = ((cr, u'), s') \<Longrightarrow>
          inv s' \<and>
          (case cr of
             None \<Rightarrow> no_times u' = no_times u \<and>
               (\<exists>old t. tbl s (usr_ID u) = Some old \<and> tbl s' = (tbl s)(usr_ID u \<mapsto> updated_row u old t))
           | Some e \<Rightarrow> tbl s' = tbl s \<and>
               (if e = ErrNotFound then tbl s (usr_ID u) = None else lib_error e))"
    and Delete: "inv s \<Longrightarrow> repo_Delete repo ctx s i = (dr, s') \<Longrightarrow>
          inv s' \<and>
          (case dr of
             None \<Rightarrow> tbl s i \<noteq> None \<and> tbl s' = (tbl s)(i := None)
           | Some e \<Rightarrow> tbl s' = tbl s \<and> (if e = ErrNotFound then tbl s i = None else lib_error e))"

section \<open>The database implementation provides both\<close>

definition db_inv :: "'d gorm \<Rightarrow> 'd rows \<Rightarrow> 'd \<Rightarrow> bool" where
  "db_inv g rows d \<longleftrightarrow> gorm_ok g rows \<and> db_wf rows d"

definition db_tbl :: "'d rows \<Rightarrow> go_context \<Rightarrow> 'd \<Rightarrow> table" where
  "db_tbl rows ctx d = rows d (TXFromContext ctx DB)"

lemma db_inv_wf: "db_inv g rows d \<Longrightarrow> table_wf (db_tbl rows ctx d)"
  by (simp add: db_inv_def db_tbl_def db_wf_def)

lemma table_wf_lookup_id: "table_wf m \<Longrightarrow> m i = None \<Longrightarrow> row \<in> ran m \<Longrightarrow> usr_ID row \<noteq> i"
  by (auto simp: ran_def dest: table_wf_id)

lemma impl_GetByID:
  assumes "db_inv g rows d" "UserRepositoryImpl_GetByID g ctx d i = (r, d')"
  shows "db_inv g rows d' \<and> db_tbl rows ctx d' = db_tbl rows ctx d \<and>
         lookup_ok (=) (db_tbl rows ctx d) (\<lambda>u. usr_ID u = i) r"
proof -
  let ?c = "TXFromContext ctx DB"
  from assms(1) have ok: "gorm_ok g rows" "db_wf rows d" by (simp_all add: db_inv_def)
  obtain r0 d0 where g: "gorm_First g ?c d i = (r0, d0)" by force
  note D = gorm_First_D [OF ok g]
  have wf: "table_wf (rows d ?c)" using ok(2) by (simp add: db_wf_def)
  have dd: "d0 = d'" using assms(2) g
    by (auto simp: UserRepositoryImpl_GetByID_def split: sum.splits if_splits)
  have "lookup_ok (=) (rows d ?c) (\<lambda>u. usr_ID u = i) r"
  proof (cases r0)
    case (Inl e)
    with assms(2) g D(3,4) show ?thesis
      by (auto simp: UserRepositoryImpl_GetByID_def lookup_ok_def lib_error_not_app
          dest: table_wf_lookup_id [OF wf] split: if_splits)
  next
    case (Inr u)
    with assms(2) g D(2) show ?thesis
      by (auto simp: UserRepositoryImpl_GetByID_def lookup_ok_def intro: ranI table_wf_id [OF wf])
  qed
  moreover have "rows d' = rows d" using D(1) dd by simp
  ultimately show ?thesis using ok by (simp add: db_inv_def db_tbl_def db_wf_def)
qed

text \<open>Looking up by a unique column, for either of the two.\<close>

lemma impl_Where:
  assumes "db_inv g rows d"
    and "(case gorm_Where_First g (TXFromContext ctx DB) d q v of
            (Inl e, d1) \<Rightarrow>
              if errors_Is e ErrRecordNotFound then (Inl ErrNotFound, d1)
              else (Inl (Errorf p e []), d1)
          | (Inr user, d1) \<Rightarrow> (Inr user, d1)) = (r, d')"
  shows "db_inv g rows d' \<and> db_tbl rows ctx d' = db_tbl rows ctx d \<and>
         lookup_ok (=) (db_tbl rows ctx d) (\<lambda>u. column q u = v) r"
proof -
  let ?c = "TXFromContext ctx DB"
  from assms(1) have ok: "gorm_ok g rows" "db_wf rows d" by (simp_all add: db_inv_def)
  obtain r0 d0 where g: "gorm_Where_First g ?c d q v = (r0, d0)" by force
  note D = gorm_Where_First_D [OF ok g]
  have dd: "d0 = d'" using assms(2) g by (auto split: sum.splits if_splits)
  have "lookup_ok (=) (rows d ?c) (\<lambda>u. column q u = v) r"
    using assms(2) g D(2-4)
    by (cases r0) (auto simp: lookup_ok_def lib_error_not_app split: if_splits)
  moreover have "rows d' = rows d" using D(1) dd by simp
  ultimately show ?thesis using ok by (simp add: db_inv_def db_tbl_def db_wf_def)
qed

lemma impl_GetByEmail:
  assumes "db_inv g rows d" "UserRepositoryImpl_GetByEmail g ctx d v = (r, d')"
  shows "db_inv g rows d' \<and> db_tbl rows ctx d' = db_tbl rows ctx d \<and>
         lookup_ok (=) (db_tbl rows ctx d) (\<lambda>u. usr_Email u = v) r"
  using impl_Where [OF assms(1) assms(2) [unfolded UserRepositoryImpl_GetByEmail_def Let_def]]
  by (simp add: column_def)

lemma impl_GetByUsername:
  assumes "db_inv g rows d" "UserRepositoryImpl_GetByUsername g ctx d v = (r, d')"
  shows "db_inv g rows d' \<and> db_tbl rows ctx d' = db_tbl rows ctx d \<and>
         lookup_ok (=) (db_tbl rows ctx d) (\<lambda>u. usr_Username u = v) r"
  using impl_Where [OF assms(1) assms(2) [unfolded UserRepositoryImpl_GetByUsername_def Let_def]]
  by (simp add: column_def)

lemma impl_List:
  assumes "db_inv g rows d" "UserRepositoryImpl_List g ctx d off lim = (r, d')"
  shows "db_inv g rows d' \<and> db_tbl rows ctx d' = db_tbl rows ctx d \<and>
         (\<forall>us. r = Inr us \<longrightarrow> 0 \<le> off \<longrightarrow> 0 < lim \<longrightarrow>
            (\<exists>xs. rows_by_id (db_tbl rows ctx d) xs \<and> us = take (nat lim) (drop (nat off) xs)))"
proof -
  let ?c = "TXFromContext ctx DB"
  from assms(1) have ok: "gorm_ok g rows" "db_wf rows d" by (simp_all add: db_inv_def)
  obtain r0 d0 where g: "gorm_Find g ?c d off lim ''id'' = (r0, d0)" by force
  note D = gorm_Find_D [OF ok g]
  have "d0 = d'" "\<And>us. r = Inr us \<Longrightarrow> r0 = Inr us" using assms(2) g
    by (auto simp: UserRepositoryImpl_List_def split: sum.splits)
  moreover from this(1) have "rows d' = rows d" using D(1) by simp
  ultimately show ?thesis using ok D(2) by (auto simp: db_inv_def db_tbl_def db_wf_def)
qed

lemma impl_Create:
  assumes "db_inv g rows d" "usr_ID u = 0" "UserRepositoryImpl_Create g ctx d u h = ((r, u'), d')"
  shows "db_inv g rows d' \<and>
         (case r of
            None \<Rightarrow> \<exists>row. created_row (db_tbl rows ctx d) u h u' row \<and>
                     db_tbl rows ctx d' = (db_tbl rows ctx d)(usr_ID u' \<mapsto> row)
          | Some e \<Rightarrow> db_tbl rows ctx d' = db_tbl rows ctx d \<and> (e = ErrConflict \<or> lib_error e))"
proof -
  let ?c = "TXFromContext ctx DB" and ?u = "u\<lparr>usr_Password := h\<rparr>"
  from assms(1) have ok: "gorm_ok g rows" "db_wf rows d" by (simp_all add: db_inv_def)
  obtain r0 u0 d0 where g: "gorm_Create g ?c d ?u = ((r0, u0), d0)" by (metis surj_pair)
  from assms(2) have "usr_ID ?u = 0" by simp
  note D = gorm_Create_D [OF ok g this]
  have dd: "d0 = d'" "u0 = u'" using assms(3) g
    by (auto simp: UserRepositoryImpl_Create_def split: option.splits if_splits)
  show ?thesis
  proof (cases r0)
    case None
    with assms(3) g have "r = None" by (simp add: UserRepositoryImpl_Create_def)
    with None D dd ok show ?thesis by (auto simp: db_inv_def db_tbl_def created_row_def)
  next
    case (Some e)
    with assms(3) g D(3) have "\<exists>e'. r = Some e' \<and> (e' = ErrConflict \<or> lib_error e')"
      by (auto simp: UserRepositoryImpl_Create_def split: if_splits)
    with Some D dd ok show ?thesis by (auto simp: db_inv_def db_tbl_def)
  qed
qed

lemma update_row_all:
  "update_row [(''name'', usr_Name u), (''email'', usr_Email u), (''username'', usr_Username u)] old
     \<lparr>usr_UpdatedAt := t\<rparr> = updated_row u old t"
  "update_row [(''name'', usr_Name u), (''email'', usr_Email u), (''username'', usr_Username u)] u = u"
  by (simp_all add: update_row_def updated_row_def)

lemma impl_Update:
  assumes "db_inv g rows d" "UserRepositoryImpl_Update g ctx d u = ((r, u'), d')"
  shows "db_inv g rows d' \<and>
         (case r of
            None \<Rightarrow> no_times u' = no_times u \<and>
              (\<exists>old t. db_tbl rows ctx d (usr_ID u) = Some old \<and>
                 db_tbl rows ctx d' = (db_tbl rows ctx d)(usr_ID u \<mapsto> updated_row u old t))
          | Some e \<Rightarrow> db_tbl rows ctx d' = db_tbl rows ctx d \<and>
              (if e = ErrNotFound then db_tbl rows ctx d (usr_ID u) = None else lib_error e))"
proof -
  let ?c = "TXFromContext ctx DB"
    and ?kvs = "[(''name'', usr_Name u), (''email'', usr_Email u), (''username'', usr_Username u)]"
  from assms(1) have ok: "gorm_ok g rows" "db_wf rows d" by (simp_all add: db_inv_def)
  obtain r0 n u0 d0 where g: "gorm_Updates g ?c d u ?kvs = ((r0, n, u0), d0)" by (metis surj_pair)
  note D = gorm_Updates_D [OF ok g, unfolded update_row_all]
  have dd: "d0 = d'" "u0 = u'" using assms(2) g
    by (auto simp: UserRepositoryImpl_Update_def split: option.splits if_splits)
  show ?thesis
  proof (cases r0)
    case None
    with assms(2) g have "r = (if n = 0 then Some ErrNotFound else None)"
      by (simp add: UserRepositoryImpl_Update_def split: if_splits)
    with None D(1,4,5,6) dd ok show ?thesis by (auto simp: db_inv_def db_tbl_def)
  next
    case (Some e)
    with assms(2) g have "\<exists>p. r = Some (Errorf p e [])" by (auto simp: UserRepositoryImpl_Update_def)
    with Some D(1,3) dd ok show ?thesis by (auto simp: db_inv_def db_tbl_def)
  qed
qed

lemma impl_Delete:
  assumes "db_inv g rows d" "UserRepositoryImpl_Delete g ctx d i = (r, d')"
  shows "db_inv g rows d' \<and>
         (case r of
            None \<Rightarrow> db_tbl rows ctx d i \<noteq> None \<and> db_tbl rows ctx d' = (db_tbl rows ctx d)(i := None)
          | Some e \<Rightarrow> db_tbl rows ctx d' = db_tbl rows ctx d \<and>
              (if e = ErrNotFound then db_tbl rows ctx d i = None else lib_error e))"
proof -
  let ?c = "TXFromContext ctx DB"
  from assms(1) have ok: "gorm_ok g rows" "db_wf rows d" by (simp_all add: db_inv_def)
  obtain r0 n d0 where g: "gorm_Delete g ?c d i = ((r0, n), d0)" by (metis surj_pair)
  note D = gorm_Delete_D [OF ok g]
  have dd: "d0 = d'" using assms(2) g
    by (auto simp: UserRepositoryImpl_Delete_def split: option.splits if_splits)
  show ?thesis
  proof (cases r0)
    case None
    with assms(2) g have "r = (if n = 0 then Some ErrNotFound else None)"
      by (simp add: UserRepositoryImpl_Delete_def split: if_splits)
    with None D(1,4) dd ok show ?thesis by (auto simp: db_inv_def db_tbl_def)
  next
    case (Some e)
    with assms(2) g have "\<exists>p. r = Some (Errorf p e [])" by (auto simp: UserRepositoryImpl_Delete_def)
    with Some D(1,3) dd ok show ?thesis by (auto simp: db_inv_def db_tbl_def)
  qed
qed

interpretation impl: user_repository "NewUserRepository g" ctx "db_inv g rows" "db_tbl rows ctx"
  for g :: "'d gorm" and rows ctx
  by (unfold_locales;
      (rule db_inv_wf | rule impl_GetByID | rule impl_GetByEmail | rule impl_GetByUsername
        | rule impl_List | rule impl_Create | rule impl_Update | rule impl_Delete); simp)

end
