(* ===== verification/Password.thy ===== *)
theory Password
  imports GoErrors
begin

text \<open>
  \<^verbatim>\<open>pkg/password\<close>: a thin layer over bcrypt, which is a parameter (\<open>bcryptlib\<close>). \<open>bcrypt_ok\<close> states the
  documented behaviour: hashing fails exactly beyond 72 bytes, a hash verifies its own password, and
  (up to collisions of the cipher) no other password of at most 72 bytes without a NUL byte. The
  random salt is the first argument of the hash function.
\<close>

record bcryptlib =
  bc_GenerateFromPassword :: "nat \<Rightarrow> string \<Rightarrow> nat \<Rightarrow> error + string"
  bc_CompareHashAndPassword :: "string \<Rightarrow> string \<Rightarrow> error option"

definition bcryptCost :: nat where "bcryptCost = 12"

definition Hash :: "bcryptlib \<Rightarrow> nat \<Rightarrow> string \<Rightarrow> error + string" where
  "Hash P salt password = bc_GenerateFromPassword P salt password bcryptCost"

definition Compare :: "bcryptlib \<Rightarrow> string \<Rightarrow> string \<Rightarrow> bool" where
  "Compare P hash password = (bc_CompareHashAndPassword P hash password = None)"

definition key_ok :: "string \<Rightarrow> bool" where
  "key_ok p = (length p \<le> 72 \<and> CHR 0x00 \<notin> set p)"

definition bcrypt_ok :: "bcryptlib \<Rightarrow> bool" where
  "bcrypt_ok P \<longleftrightarrow>
     (\<forall>salt p. length p \<le> 72 \<longrightarrow> (\<exists>h. bc_GenerateFromPassword P salt p bcryptCost = Inr h)) \<and>
     (\<forall>salt p. length p > 72 \<longrightarrow>
        (\<exists>m. bc_GenerateFromPassword P salt p bcryptCost = Inl (ErrLib m))) \<and>
     (\<forall>salt p h. bc_GenerateFromPassword P salt p bcryptCost = Inr h \<longrightarrow>
        valid_utf8 h \<and> bc_CompareHashAndPassword P h p = None) \<and>
     (\<forall>salt p h q. bc_GenerateFromPassword P salt p bcryptCost = Inr h \<longrightarrow>
        bc_CompareHashAndPassword P h q = None \<longrightarrow> key_ok p \<longrightarrow> key_ok q \<longrightarrow> p = q)"

lemma Hash_defined: "bcrypt_ok P \<Longrightarrow> is_ok (Hash P salt p) \<longleftrightarrow> length p \<le> 72"
  unfolding bcrypt_ok_def Hash_def by (metis is_ok_iff is_ok_simps(2) linorder_not_le)

lemma Compare_Hash: "bcrypt_ok P \<Longrightarrow> Hash P salt p = Inr h \<Longrightarrow> Compare P h p"
  unfolding bcrypt_ok_def Hash_def Compare_def by blast

lemma Compare_other:
  "bcrypt_ok P \<Longrightarrow> Hash P salt p = Inr h \<Longrightarrow> key_ok p \<Longrightarrow> key_ok q \<Longrightarrow> p \<noteq> q \<Longrightarrow> \<not> Compare P h q"
  unfolding bcrypt_ok_def Hash_def Compare_def by blast

lemma Hash_error: "bcrypt_ok P \<Longrightarrow> Hash P salt p = Inl e \<Longrightarrow> \<exists>m. e = ErrLib m"
  unfolding bcrypt_ok_def Hash_def
  by (metis Inl_inject Inl_Inr_False linorder_not_le)

end
