(* ===== verification/Bloom.thy ===== *)
theory Bloom
  imports GoStrings Float64
begin

text \<open>
  \<^verbatim>\<open>pkg/bloom\<close>: the in-process filter over identifiers. The Bloom filter library is a parameter
  (\<open>bloomlib\<close>); \<open>bloom_ok\<close> is its documented promise, no false negatives. The read-write mutex makes
  \<^verbatim>\<open>Add\<close> and \<^verbatim>\<open>Contains\<close> atomic, so each is one function on the filter's state. The locale
  \<open>bloom_filter\<close> is the interface the services use; it is interpreted on \<open>Filter_Add\<close> and
  \<open>Filter_Contains\<close>.
\<close>

record 'b bloomlib =
  bl_NewWithEstimates :: "nat \<Rightarrow> float64 \<Rightarrow> 'b"
  bl_AddString :: "'b \<Rightarrow> string \<Rightarrow> 'b"
  bl_TestString :: "'b \<Rightarrow> string \<Rightarrow> bool"

record 'b Filter =
  f_bf :: 'b

definition bloom_New :: "'b bloomlib \<Rightarrow> nat \<Rightarrow> float64 \<Rightarrow> 'b Filter" where
  "bloom_New B n fpRate = \<lparr>f_bf = bl_NewWithEstimates B n fpRate\<rparr>"

definition Filter_Add :: "'b bloomlib \<Rightarrow> 'b Filter \<Rightarrow> string \<Rightarrow> 'b Filter" where
  "Filter_Add B f item = f\<lparr>f_bf := bl_AddString B (f_bf f) item\<rparr>"

definition Filter_Contains :: "'b bloomlib \<Rightarrow> 'b Filter \<Rightarrow> string \<Rightarrow> bool" where
  "Filter_Contains B f item = bl_TestString B (f_bf f) item"

definition bloom_ok :: "'b bloomlib \<Rightarrow> bool" where
  "bloom_ok B \<longleftrightarrow>
     (\<forall>b x. bl_TestString B (bl_AddString B b x) x) \<and>
     (\<forall>b x y. bl_TestString B b y \<longrightarrow> bl_TestString B (bl_AddString B b x) y)"

locale bloom_filter =
  fixes add :: "'f \<Rightarrow> string \<Rightarrow> 'f"
    and contains :: "'f \<Rightarrow> string \<Rightarrow> bool"
    and inv :: "'f \<Rightarrow> bool"
  assumes contains_add: "inv f \<Longrightarrow> contains (add f x) x"
    and contains_keep: "inv f \<Longrightarrow> contains f y \<Longrightarrow> contains (add f x) y"
    and inv_add: "inv f \<Longrightarrow> inv (add f x)"
begin

text \<open>Adding a list of items in a loop: all of them are found, and nothing found before is lost.\<close>

lemma inv_foldl: "inv f \<Longrightarrow> inv (foldl add f xs)"
  by (induction xs arbitrary: f) (auto simp: inv_add)

lemma keep_foldl: "inv f \<Longrightarrow> contains f y \<Longrightarrow> contains (foldl add f xs) y"
  by (induction xs arbitrary: f) (auto simp: inv_add contains_keep)

lemma contains_foldl: "inv f \<Longrightarrow> x \<in> set xs \<Longrightarrow> contains (foldl add f xs) x"
  by (induction xs arbitrary: f) (auto simp: inv_add contains_add keep_foldl)

end

interpretation filter: bloom_filter "Filter_Add B" "Filter_Contains B" "\<lambda>_. bloom_ok B" for B
  by unfold_locales (auto simp: bloom_ok_def Filter_Add_def Filter_Contains_def)

end
