(* ===== verification/Cache.thy ===== *)
theory Cache
  imports Json
begin

text \<open>
  \<^verbatim>\<open>internal/cache\<close>: the Redis-backed cache. The Redis client is a parameter (\<open>redis\<close>), on the state
  \<open>'c\<close>. \<open>redis_ok R kv\<close> says, with \<open>kv c\<close> the stored values, that a read returns what is stored, and
  that a command stores or removes nothing it was not asked to; entries may vanish at any time (they
  carry a time to live) and any command may fail. \<open>redis_exact R kv\<close> is a Redis that is up and where
  nothing expires. \<open>scan_ok\<close> is what \<^verbatim>\<open>SCAN\<close> guarantees. A Go call passes the destination's type; here the encoder or decoder of that type
  is an argument.

  The locale \<open>kv_cache\<close> is the interface \<^verbatim>\<open>cache.Cache\<close> at one value type, interpreted on
  \<open>RedisCache_Get\<close>, \<open>RedisCache_Set\<close> and \<open>RedisCache_Delete\<close>.
\<close>

datatype redis_reply = RVal json | RNil | RErr error

record 'c redis =
  rd_Get :: "'c \<Rightarrow> string \<Rightarrow> redis_reply \<times> 'c"
  rd_Set :: "'c \<Rightarrow> string \<Rightarrow> json \<Rightarrow> duration \<Rightarrow> error option \<times> 'c"
  rd_Del :: "'c \<Rightarrow> string list \<Rightarrow> error option \<times> 'c"
  rd_IterNext :: "'c \<Rightarrow> string \<Rightarrow> nat \<Rightarrow> (error option + string) \<times> 'c"

section \<open>Operations\<close>

definition RedisCache_Get ::
    "'c redis \<Rightarrow> (json \<Rightarrow> error + 'v) \<Rightarrow> 'c \<Rightarrow> string \<Rightarrow> (error + 'v) \<times> 'c" where
  "RedisCache_Get R unmarshal c key =
     (case rd_Get R c key of
        (RNil, c') \<Rightarrow> (Inl ErrCacheMiss, c')
      | (RErr e, c') \<Rightarrow> (Inl (Errorf ''redis get: '' e []), c')
      | (RVal val, c') \<Rightarrow> (unmarshal val, c'))"

definition RedisCache_Set ::
    "'c redis \<Rightarrow> ('v \<Rightarrow> error + json) \<Rightarrow> 'c \<Rightarrow> string \<Rightarrow> 'v \<Rightarrow> duration \<Rightarrow> error option \<times> 'c" where
  "RedisCache_Set R marshal c key val ttl =
     (case marshal val of
        Inl e \<Rightarrow> (Some (Errorf ''cache marshal: '' e []), c)
      | Inr data \<Rightarrow> rd_Set R c key data ttl)"

definition RedisCache_Delete :: "'c redis \<Rightarrow> 'c \<Rightarrow> string list \<Rightarrow> error option \<times> 'c" where
  "RedisCache_Delete R c keys = (if length keys = 0 then (None, c) else rd_Del R c keys)"

text \<open>
  The loop over the keys that match a pattern. \<open>rd_IterNext R c p k\<close> is the \<open>k\<close>-th step of the scan
  iterator: a key, or the end with the iterator's error. The fuel bounds the number of steps; \<open>None\<close>
  is a scan that has not ended within it.
\<close>

fun scanAndDelete :: "nat \<Rightarrow> 'c redis \<Rightarrow> 'c \<Rightarrow> string \<Rightarrow> nat \<Rightarrow> (error option \<times> 'c) option" where
  "scanAndDelete 0 R c pattern k = None"
| "scanAndDelete (Suc fuel) R c pattern k =
     (case rd_IterNext R c pattern k of
        (Inl err, c') \<Rightarrow> Some (err, c')
      | (Inr key, c') \<Rightarrow>
          (case rd_Del R c' [key] of
             (Some e, c'') \<Rightarrow> Some (Some (Errorf (''redis del '' @ key @ '': '') e []), c'')
           | (None, c'') \<Rightarrow> scanAndDelete fuel R c'' pattern (Suc k)))"

text \<open>
  \<^verbatim>\<open>DeletePattern\<close>. A cluster client is given by its library function \<^verbatim>\<open>ForEachMaster\<close>, which runs a
  function on the client of every master; \<open>None\<close> is a single-node client.
\<close>

type_synonym 'c for_each_master =
  "('c redis \<Rightarrow> 'c \<Rightarrow> (error option \<times> 'c) option) \<Rightarrow> 'c \<Rightarrow> (error option \<times> 'c) option"

definition RedisCache_DeletePattern ::
    "nat \<Rightarrow> 'c for_each_master option \<Rightarrow> 'c redis \<Rightarrow> 'c \<Rightarrow> string \<Rightarrow> (error option \<times> 'c) option" where
  "RedisCache_DeletePattern fuel cluster R c pattern =
     (case cluster of
        Some ForEachMaster \<Rightarrow> ForEachMaster (\<lambda>master c'. scanAndDelete fuel master c' pattern 0) c
      | None \<Rightarrow> scanAndDelete fuel R c pattern 0)"

section \<open>The client's contract\<close>

type_synonym 'c kv = "'c \<Rightarrow> string \<rightharpoonup> json"

definition redis_ok :: "'c redis \<Rightarrow> 'c kv \<Rightarrow> bool" where
  "redis_ok R kv \<longleftrightarrow>
     (\<forall>c k r c'. rd_Get R c k = (r, c') \<longrightarrow> kv c' \<subseteq>\<^sub>m kv c \<and> (\<forall>j. r = RVal j \<longrightarrow> kv c k = Some j)) \<and>
     (\<forall>c k j ttl r c'. rd_Set R c k j ttl = (r, c') \<longrightarrow>
        kv c' \<subseteq>\<^sub>m (kv c)(k \<mapsto> j) \<or> r \<noteq> None \<and> kv c' \<subseteq>\<^sub>m kv c) \<and>
     (\<forall>c ks r c'. rd_Del R c ks = (r, c') \<longrightarrow>
        kv c' \<subseteq>\<^sub>m kv c \<and> (r = None \<longrightarrow> (\<forall>k \<in> set ks. kv c' k = None)))"

definition redis_exact :: "'c redis \<Rightarrow> 'c kv \<Rightarrow> bool" where
  "redis_exact R kv \<longleftrightarrow>
     (\<forall>c k. \<exists>c'. kv c' = kv c \<and>
        rd_Get R c k = ((case kv c k of Some j \<Rightarrow> RVal j | None \<Rightarrow> RNil), c')) \<and>
     (\<forall>c k j ttl. \<exists>c'. rd_Set R c k j ttl = (None, c') \<and> kv c' = (kv c)(k \<mapsto> j)) \<and>
     (\<forall>c ks. \<exists>c'. rd_Del R c ks = (None, c') \<and> kv c' = kv c |` (- set ks))"

lemma redis_exact_Get:
  assumes "redis_exact R kv" "rd_Get R c k = (r, c')"
  shows "kv c' = kv c" and "r = (case kv c k of Some j \<Rightarrow> RVal j | None \<Rightarrow> RNil)"
  using assms unfolding redis_exact_def by (metis prod.inject)+

lemma redis_exact_Set:
  assumes "redis_exact R kv" "rd_Set R c k j ttl = (r, c')"
  shows "r = None" and "kv c' = (kv c)(k \<mapsto> j)"
  using assms unfolding redis_exact_def by (metis prod.inject)+

lemma redis_exact_Del:
  assumes "redis_exact R kv" "rd_Del R c ks = (r, c')"
  shows "r = None" and "kv c' = kv c |` (- set ks)"
  using assms unfolding redis_exact_def by (metis prod.inject)+

lemma redis_exact_ok:
  assumes "redis_exact R kv"
  shows "redis_ok R kv"
proof -
  have "kv c' \<subseteq>\<^sub>m kv c \<and> (\<forall>j. r = RVal j \<longrightarrow> kv c k = Some j)" if "rd_Get R c k = (r, c')" for c k r c'
    using redis_exact_Get [OF assms that] by (auto split: option.splits)
  moreover have "kv c' \<subseteq>\<^sub>m (kv c)(k \<mapsto> j)" if "rd_Set R c k j ttl = (r, c')" for c k j ttl r c'
    using redis_exact_Set [OF assms that] by simp
  moreover have "kv c' \<subseteq>\<^sub>m kv c \<and> (r = None \<longrightarrow> (\<forall>k \<in> set ks. kv c' k = None))"
    if "rd_Del R c ks = (r, c')" for c ks r c'
    using redis_exact_Del [OF assms that] by (auto simp: map_le_def restrict_map_def)
  ultimately show ?thesis unfolding redis_ok_def by blast
qed

section \<open>The interface\<close>

text \<open>
  \<open>may c k v\<close>: a read of \<open>k\<close> may return \<open>v\<close>. \<open>stored v\<close> is what a stored \<open>v\<close> reads back as.
\<close>

locale kv_cache =
  fixes get :: "'c \<Rightarrow> string \<Rightarrow> (error + 'v) \<times> 'c"
    and put :: "'c \<Rightarrow> string \<Rightarrow> 'v \<Rightarrow> error option \<times> 'c"
    and del :: "'c \<Rightarrow> string list \<Rightarrow> error option \<times> 'c"
    and inv :: bool
    and may :: "'c \<Rightarrow> string \<Rightarrow> 'v \<Rightarrow> bool"
    and stored :: "'v \<Rightarrow> 'v"
  assumes get_may: "inv \<Longrightarrow> get c k = (Inr v, c') \<Longrightarrow> may c k v"
    and get_keeps: "inv \<Longrightarrow> get c k = (r, c') \<Longrightarrow> may c' k' v \<Longrightarrow> may c k' v"
    and put_adds: "inv \<Longrightarrow> put c k v = (e, c') \<Longrightarrow> may c' k' w \<Longrightarrow> may c k' w \<or> k' = k \<and> w = stored v"
    and put_replaces: "inv \<Longrightarrow> put c k v = (None, c') \<Longrightarrow> may c' k w \<Longrightarrow> w = stored v"
    and del_keeps: "inv \<Longrightarrow> del c ks = (e, c') \<Longrightarrow> may c' k v \<Longrightarrow> may c k v"
    and del_removes: "inv \<Longrightarrow> del c ks = (None, c') \<Longrightarrow> k \<in> set ks \<Longrightarrow> \<not> may c' k v"

definition codec :: "('v \<Rightarrow> error + json) \<Rightarrow> (json \<Rightarrow> error + 'v) \<Rightarrow> ('v \<Rightarrow> 'v) \<Rightarrow> bool" where
  "codec enc dec stored \<longleftrightarrow> (\<forall>v j. enc v = Inr j \<longrightarrow> dec j = Inr (stored v))"

definition may_read :: "'c kv \<Rightarrow> (json \<Rightarrow> error + 'v) \<Rightarrow> 'c \<Rightarrow> string \<Rightarrow> 'v \<Rightarrow> bool" where
  "may_read kv dec c k v \<longleftrightarrow> (\<exists>j. kv c k = Some j \<and> dec j = Inr v)"

lemma may_read_mono: "kv c' \<subseteq>\<^sub>m kv c \<Longrightarrow> may_read kv dec c' k v \<Longrightarrow> may_read kv dec c k v"
  by (auto simp: may_read_def dest: map_le_upd_drop)

lemma RedisCache_Get_may:
  assumes "redis_ok R kv" "RedisCache_Get R dec c k = (r, c')"
  shows "r = Inr v \<Longrightarrow> may_read kv dec c k v" and "kv c' \<subseteq>\<^sub>m kv c"
proof -
  obtain r0 where g: "rd_Get R c k = (r0, c')"
    using assms(2) by (auto simp: RedisCache_Get_def split: prod.splits redis_reply.splits)
  with assms(1) have le: "kv c' \<subseteq>\<^sub>m kv c" and v: "\<And>j. r0 = RVal j \<Longrightarrow> kv c k = Some j"
    unfolding redis_ok_def by blast+
  show "kv c' \<subseteq>\<^sub>m kv c" by (rule le)
  show "r = Inr v \<Longrightarrow> may_read kv dec c k v"
    using assms(2) g v by (auto simp: RedisCache_Get_def may_read_def split: redis_reply.splits)
qed

lemma RedisCache_Set_may:
  assumes "redis_ok R kv" "codec enc dec stored" "RedisCache_Set R enc c k v ttl = (e, c')"
    and "may_read kv dec c' k' w"
  shows "may_read kv dec c k' w \<or> k' = k \<and> w = stored v"
    and "e = None \<Longrightarrow> k' = k \<Longrightarrow> w = stored v"
proof -
  have "(may_read kv dec c k' w \<or> k' = k \<and> w = stored v) \<and> (e = None \<longrightarrow> k' = k \<longrightarrow> w = stored v)"
  proof (cases "enc v")
    case (Inl a)
    with assms(3,4) show ?thesis by (auto simp: RedisCache_Set_def)
  next
    case (Inr j)
    with assms(3) have s: "rd_Set R c k j ttl = (e, c')" by (simp add: RedisCache_Set_def)
    from Inr assms(2) have j: "dec j = Inr (stored v)" by (simp add: codec_def)
    from s assms(1) consider "kv c' \<subseteq>\<^sub>m (kv c)(k \<mapsto> j)" | "e \<noteq> None" "kv c' \<subseteq>\<^sub>m kv c"
      unfolding redis_ok_def by blast
    then show ?thesis
    proof cases
      case 1
      then show ?thesis using assms(4) j
        by (auto simp: may_read_def dest!: map_le_upd_cases)
    next
      case 2
      then show ?thesis using assms(4) may_read_mono by fastforce
    qed
  qed
  then show "may_read kv dec c k' w \<or> k' = k \<and> w = stored v" "e = None \<Longrightarrow> k' = k \<Longrightarrow> w = stored v"
    by blast+
qed

text \<open>A write does not touch other keys, whatever is stored under them.\<close>

lemma RedisCache_Set_other:
  assumes "redis_ok R kv" "k' \<noteq> k" "may_read kv dec (snd (RedisCache_Set R enc c k v ttl)) k' w"
  shows "may_read kv dec c k' w"
proof (cases "enc v")
  case (Inl a)
  with assms(3) show ?thesis by (simp add: RedisCache_Set_def)
next
  case (Inr j)
  obtain e c' where s: "rd_Set R c k j ttl = (e, c')" by force
  with assms(1) have "kv c' \<subseteq>\<^sub>m (kv c)(k \<mapsto> j) \<or> kv c' \<subseteq>\<^sub>m kv c" unfolding redis_ok_def by blast
  with Inr s assms(2,3) show ?thesis by (auto simp: RedisCache_Set_def may_read_def map_le_def dom_def split: if_splits)
qed

lemma RedisCache_Delete_may:
  assumes "redis_ok R kv" "RedisCache_Delete R c ks = (e, c')"
  shows "kv c' \<subseteq>\<^sub>m kv c" and "e = None \<Longrightarrow> k \<in> set ks \<Longrightarrow> kv c' k = None"
  using assms unfolding redis_ok_def RedisCache_Delete_def by (auto split: if_splits)

interpretation redis: kv_cache "RedisCache_Get R dec" "\<lambda>c k v. RedisCache_Set R enc c k v ttl"
    "RedisCache_Delete R" "redis_ok R kv \<and> codec enc dec stored" "may_read kv dec" stored
  for R :: "'c redis" and kv and enc :: "'v \<Rightarrow> error + json" and dec stored ttl
proof (unfold_locales, goal_cases)
  case (1 c k v c')
  then show ?case by (auto intro: RedisCache_Get_may(1))
next
  case (2 c k r c' k' v)
  then show ?case by (auto intro: may_read_mono RedisCache_Get_may(2))
next
  case (3 c k v e c' k' w)
  then show ?case by (intro RedisCache_Set_may(1) [where R = R and enc = enc]) auto
next
  case (4 c k v c' w)
  then show ?case by (intro RedisCache_Set_may(2) [where R = R and enc = enc]) auto
next
  case (5 c ks e c' k v)
  then show ?case by (auto intro: may_read_mono RedisCache_Delete_may(1))
next
  case (6 c ks c' k v)
  then show ?case using RedisCache_Delete_may(2) by (fastforce simp: may_read_def)
qed

text \<open>On a Redis that is up, a stored value is read back, and a read of nothing is a miss.\<close>

lemma exact_Get:
  assumes "redis_exact R kv" "RedisCache_Get R dec c k = (r, c')"
  shows "kv c' = kv c" and "r = (case kv c k of Some j \<Rightarrow> dec j | None \<Rightarrow> Inl ErrCacheMiss)"
proof -
  obtain r0 where g: "rd_Get R c k = (r0, c')"
    using assms(2) by (auto simp: RedisCache_Get_def split: prod.splits redis_reply.splits)
  note x = redis_exact_Get [OF assms(1) g]
  show "kv c' = kv c" by (rule x(1))
  show "r = (case kv c k of Some j \<Rightarrow> dec j | None \<Rightarrow> Inl ErrCacheMiss)"
    using assms(2) g x(2) by (auto simp: RedisCache_Get_def split: option.splits)
qed

lemma exact_Set:
  assumes "redis_exact R kv" "RedisCache_Set R enc c k v ttl = (e, c')"
  shows "kv c' = (case enc v of Inr j \<Rightarrow> (kv c)(k \<mapsto> j) | Inl _ \<Rightarrow> kv c)"
  using assms redis_exact_Set [OF assms(1)] by (auto simp: RedisCache_Set_def split: sum.splits)

lemma exact_Delete:
  assumes "redis_exact R kv" "RedisCache_Delete R c ks = (e, c')"
  shows "kv c' = kv c |` (- set ks)"
  using assms redis_exact_Del [OF assms(1)] by (auto simp: RedisCache_Delete_def split: if_splits)

section \<open>Deleting by pattern\<close>

text \<open>
  A scan and what it guarantees. \<open>scanning R kv p S c0 ks c\<close>: the iterator for the pattern \<open>p\<close>, started in
  \<open>c0\<close>, has returned the keys \<open>ks\<close> and the state is now \<open>c\<close>; after each key one command deleted some keys,
  and the keys of \<open>S\<close> were stored all the time. \<open>matching p k\<close> is Redis's own matching of patterns.
  The documented guarantees are in \<open>scan_ok\<close>: an iteration returns only keys that match; one that has
  come to its end without an error has returned every matching key that was stored all the time,
  though other keys, and keys twice, may be among those returned; and it comes to its end, since the
  number of keys does not grow. A step may fail, and keys may expire meanwhile.
\<close>

inductive scanning :: "'c redis \<Rightarrow> 'c kv \<Rightarrow> string \<Rightarrow> string set \<Rightarrow> 'c \<Rightarrow> string list \<Rightarrow> 'c \<Rightarrow> bool"
  for R kv p S c0 where
  start: "S \<subseteq> dom (kv c0) \<Longrightarrow> scanning R kv p S c0 [] c0"
| more: "scanning R kv p S c0 ks c \<Longrightarrow> rd_IterNext R c p (length ks) = (Inr key, c1) \<Longrightarrow>
    rd_Del R c1 ds = (e, c2) \<Longrightarrow> S \<subseteq> dom (kv c2) \<Longrightarrow> scanning R kv p S c0 (ks @ [key]) c2"

definition scan_ok :: "'c redis \<Rightarrow> 'c kv \<Rightarrow> (string \<Rightarrow> string \<Rightarrow> bool) \<Rightarrow> bool" where
  "scan_ok R kv matching \<longleftrightarrow>
     (\<forall>c p k r c'. rd_IterNext R c p k = (r, c') \<longrightarrow> kv c' \<subseteq>\<^sub>m kv c) \<and>
     (\<forall>c p k key c'. rd_IterNext R c p k = (Inr key, c') \<longrightarrow> matching p key) \<and>
     (\<forall>p S c0 ks c c'. scanning R kv p S c0 ks c \<longrightarrow> rd_IterNext R c p (length ks) = (Inl None, c') \<longrightarrow>
        {x \<in> S. matching p x} \<subseteq> set ks) \<and>
     (\<forall>p c0. \<exists>N. \<forall>ks c. scanning R kv p {} c0 ks c \<longrightarrow> length ks \<le> N)"

lemma scan_okD:
  assumes "scan_ok R kv matching"
  shows "rd_IterNext R c p k = (r, c') \<Longrightarrow> kv c' \<subseteq>\<^sub>m kv c"
    and "rd_IterNext R c p k = (Inr key, c') \<Longrightarrow> matching p key"
    and "scanning R kv p S c0 ks c \<Longrightarrow> rd_IterNext R c p (length ks) = (Inl None, c') \<Longrightarrow> x \<in> S \<Longrightarrow> matching p x \<Longrightarrow> x \<in> set ks"
    and "\<exists>N. \<forall>ks c. scanning R kv p {} c0 ks c \<longrightarrow> length ks \<le> N"
proof -
  note ok = assms [unfolded scan_ok_def]
  show "rd_IterNext R c p k = (r, c') \<Longrightarrow> kv c' \<subseteq>\<^sub>m kv c" by (rule ok [THEN conjunct1, rule_format])
  show "rd_IterNext R c p k = (Inr key, c') \<Longrightarrow> matching p key" by (rule ok [THEN conjunct2, THEN conjunct1, rule_format])
  show "scanning R kv p S c0 ks c \<Longrightarrow> rd_IterNext R c p (length ks) = (Inl None, c') \<Longrightarrow> x \<in> S \<Longrightarrow> matching p x \<Longrightarrow> x \<in> set ks"
    using ok [THEN conjunct2, THEN conjunct2, THEN conjunct1, rule_format, of p S c0 ks c c'] by auto
  show "\<exists>N. \<forall>ks c. scanning R kv p {} c0 ks c \<longrightarrow> length ks \<le> N"
    using ok [THEN conjunct2, THEN conjunct2, THEN conjunct2] by blast
qed

lemma redis_ok_Del:
  assumes "redis_ok R kv" "rd_Del R c ks = (r, c')"
  shows "kv c' \<subseteq>\<^sub>m kv c" and "r = None \<Longrightarrow> k \<in> set ks \<Longrightarrow> kv c' k = None"
  using assms unfolding redis_ok_def by blast+

text \<open>The loop only removes entries; on a Redis that is up only those of matching keys.\<close>

lemma scanAndDelete_shrinks:
  assumes R: "redis_ok R kv" and sc: "scan_ok R kv matching"
  shows "scanAndDelete fuel R c p k = Some (r, c') \<Longrightarrow> kv c' \<subseteq>\<^sub>m kv c"
proof (induction fuel arbitrary: c k)
  case (Suc fuel)
  obtain n c1 where n: "rd_IterNext R c p k = (n, c1)" by force
  note c1 = scan_okD(1) [OF sc n]
  show ?case
  proof (cases n)
    case (Inl e)
    with Suc.prems n c1 show ?thesis by simp
  next
    case (Inr key)
    obtain e c2 where d: "rd_Del R c1 [key] = (e, c2)" by force
    have "kv c' \<subseteq>\<^sub>m kv c2" using Suc.prems n Inr d Suc.IH [of c2 "Suc k"] by (cases e) auto
    with redis_ok_Del(1) [OF R d] c1 show ?thesis by (blast intro: map_le_trans)
  qed
qed simp

lemma scanAndDelete_keeps:
  assumes R: "redis_exact R kv" and sc: "scan_ok R kv matching"
    and it: "\<And>c p k. kv (snd (rd_IterNext R c p k)) = kv c" and x: "\<not> matching p x"
  shows "scanAndDelete fuel R c p k = Some (r, c') \<Longrightarrow> kv c' x = kv c x"
proof (induction fuel arbitrary: c k)
  case (Suc fuel)
  obtain n c1 where n: "rd_IterNext R c p k = (n, c1)" by force
  with it [of c p k] have c1: "kv c1 = kv c" by simp
  show ?case
  proof (cases n)
    case (Inl e)
    with Suc.prems n c1 show ?thesis by simp
  next
    case (Inr key)
    obtain e c2 where d: "rd_Del R c1 [key] = (e, c2)" by force
    from scan_okD(2) [OF sc n [unfolded Inr]] x have "x \<noteq> key" by blast
    then have "kv c2 x = kv c x" using redis_exact_Del(2) [OF R d] c1 by simp
    with Suc.prems n Inr d redis_exact_Del(1) [OF R d] Suc.IH [of c2 "Suc k"] show ?thesis by simp
  qed
qed simp

text \<open>A loop that returns no error has removed every matching key.\<close>

lemma scanAndDelete_removes:
  assumes R: "redis_ok R kv" and sc: "scan_ok R kv matching"
  shows "scanAndDelete fuel R c p (length ks) = Some (None, c') \<Longrightarrow> scanning R kv p S c0 ks c \<Longrightarrow>
     S \<subseteq> dom (kv c') \<Longrightarrow> \<forall>x \<in> set ks. kv c x = None \<Longrightarrow> x \<in> S \<Longrightarrow> \<not> matching p x"
proof (induction fuel arbitrary: c ks)
  case (Suc fuel)
  note le = scanAndDelete_shrinks [OF R sc]
  obtain n c1 where n: "rd_IterNext R c p (length ks) = (n, c1)" by force
  note c1 = scan_okD(1) [OF sc n]
  show ?case
  proof (cases n)
    case (Inl e)
    with Suc.prems n have e: "e = None" and c': "c' = c1" by auto
    show ?thesis
    proof
      assume "matching p x"
      with scan_okD(3) [OF sc Suc.prems(2) n [unfolded Inl e] Suc.prems(5)] Suc.prems(4) have "kv c x = None" by blast
      with c1 c' Suc.prems(3,5) show False by (auto dest: map_le_None)
    qed
  next
    case (Inr key)
    obtain e c2 where d: "rd_Del R c1 [key] = (e, c2)" by force
    note D = redis_ok_Del [OF R d]
    from Suc.prems(1) n Inr d have e: "e = None" and rest: "scanAndDelete fuel R c2 p (length (ks @ [key])) = Some (None, c')"
      by (auto split: option.splits)
    from le [OF rest] Suc.prems(3) have "S \<subseteq> dom (kv c2)" using map_le_implies_dom_le by blast
    with scanning.more [OF Suc.prems(2) n [unfolded Inr] d] have "scanning R kv p S c0 (ks @ [key]) c2" .
    moreover have "\<forall>x \<in> set (ks @ [key]). kv c2 x = None"
      using Suc.prems(4) map_le_None [OF map_le_trans [OF D(1) c1]] D(2) [OF e] by auto
    ultimately show ?thesis using Suc.IH [OF rest _ Suc.prems(3) _ Suc.prems(5)] by blast
  qed
qed simp

text \<open>And it returns: as many rounds as the scan has steps are enough, and one for its end.\<close>

lemma scanAndDelete_returns:
  assumes "\<forall>ks c. scanning R kv p {} c0 ks c \<longrightarrow> length ks \<le> N"
  shows "scanning R kv p {} c0 ks c \<Longrightarrow> N < fuel + length ks \<Longrightarrow> \<exists>r c'. scanAndDelete fuel R c p (length ks) = Some (r, c')"
proof (induction fuel arbitrary: c ks)
  case 0
  with assms show ?case by fastforce
next
  case (Suc fuel)
  obtain n c1 where n: "rd_IterNext R c p (length ks) = (n, c1)" by force
  show ?case
  proof (cases n)
    case (Inl e)
    with n show ?thesis by simp
  next
    case (Inr key)
    obtain e c2 where d: "rd_Del R c1 [key] = (e, c2)" by force
    with scanning.more [OF Suc.prems(1) n [unfolded Inr] d] have "scanning R kv p {} c0 (ks @ [key]) c2" by simp
    from Suc.IH [OF this] Suc.prems(2) n Inr d show ?thesis by (cases e) auto
  qed
qed

end
