(* ===== verification/Reference.thy ===== *)
theory Reference
  imports Jwt Password Bloom Database Cache
begin

text \<open>
  Executable stand-ins for the libraries that are parameters of the model: an in-memory users table
  behind the ORM's interface, an in-memory Redis, a token format with an explicit signature field, a
  password hash that keeps its input, and an exact membership filter. Each is proved to satisfy the
  contract the model states for the library (\<open>mem_gorm_ok\<close>, \<open>mem_redis_exact\<close>, \<open>mem_jwt_ok\<close>,
  \<open>mem_bcrypt_ok\<close>, \<open>mem_bloom_ok\<close>), so the contracts can hold together; the witnesses of the
  properties run the program on them. Nothing of the program is modelled here.
\<close>

section \<open>A membership filter\<close>

definition mem_bloom :: "string list bloomlib" where
  "mem_bloom = \<lparr>bl_NewWithEstimates = (\<lambda>n p. []), bl_AddString = (\<lambda>b x. x # b),
                bl_TestString = (\<lambda>b x. x \<in> set b)\<rparr>"

lemma mem_bloom_ok: "bloom_ok mem_bloom"
  by (simp add: bloom_ok_def mem_bloom_def)

section \<open>A password hash\<close>

definition mem_bcrypt :: bcryptlib where
  "mem_bcrypt =
     \<lparr>bc_GenerateFromPassword = (\<lambda>salt p cost.
        if length p \<le> 72 then Inr (concat (map (\<lambda>c. show_nat (byte c) @ '' '') p))
        else Inl (ErrLib ''bcrypt: password length exceeds 72 bytes'')),
      bc_CompareHashAndPassword = (\<lambda>h p.
        if h = concat (map (\<lambda>c. show_nat (byte c) @ '' '') p) then None
        else Some (ErrLib ''crypto/bcrypt: hashedPassword is not the hash of the given password''))\<rparr>"

lemma space_not_digit: "\<not> is_digit (CHR '' '')"
  by (simp add: is_digit_def byte_def)

lemma show_nat_span:
  assumes "show_nat m @ CHR '' '' # s = show_nat n @ CHR '' '' # t"
  shows "m = n" and "s = t"
proof -
  have tw: "takeWhile is_digit (show_nat k @ CHR '' '' # u) = show_nat k" for k u
    using show_nat_digits by (simp add: takeWhile_append2 list_all_iff space_not_digit)
  from arg_cong [OF assms, of "takeWhile is_digit"] have "show_nat m = show_nat n" by (simp only: tw)
  then show "m = n" by simp
  with assms show "s = t" by simp
qed

lemma byte_inject [simp]: "byte c = byte d \<longleftrightarrow> c = d"
  by (simp add: byte_def)

lemma hex_inject:
  "concat (map (\<lambda>c. show_nat (byte c) @ '' '') p) = concat (map (\<lambda>c. show_nat (byte c) @ '' '') q) \<longleftrightarrow> p = q"
proof (induction p arbitrary: q)
  case Nil
  then show ?case by (cases q) simp_all
next
  case (Cons a p)
  show ?case
  proof (cases q)
    case Nil
    then show ?thesis by simp
  next
    case q: (Cons b q')
    have "show_nat (byte a) @ CHR '' '' # s = show_nat (byte b) @ CHR '' '' # t \<longleftrightarrow> a = b \<and> s = t" for s t
      using show_nat_span [of "byte a" s "byte b" t] by auto
    then show ?thesis using Cons.IH [of q'] by (simp only: q list.map concat.simps append_assoc append.simps list.inject)
  qed
qed

lemma is_ascii_hex: "is_ascii (concat (map (\<lambda>c. show_nat (byte c) @ '' '') p))"
  by (induction p) (auto simp: byte_def intro: is_ascii_digits show_nat_digits)

lemma mem_bcrypt_ok: "bcrypt_ok mem_bcrypt"
  by (auto simp: bcrypt_ok_def mem_bcrypt_def hex_inject valid_utf8_ascii is_ascii_hex)

section \<open>A Redis\<close>

type_synonym redis_mem = "(string \<times> json) list"

definition mem_redis :: "redis_mem redis" where
  "mem_redis =
     \<lparr>rd_Get = (\<lambda>c k. ((case map_of c k of Some j \<Rightarrow> RVal j | None \<Rightarrow> RNil), c)),
      rd_Set = (\<lambda>c k j ttl. (None, (k, j) # c)),
      rd_Del = (\<lambda>c ks. (None, filter (\<lambda>p. fst p \<notin> set ks) c)),
      rd_IterNext = (\<lambda>c p k. (case c of [] \<Rightarrow> Inl None | q # _ \<Rightarrow> Inr (fst q), c))\<rparr>"

lemma map_of_filter_keys: "map_of (filter (\<lambda>p. fst p \<notin> S) c) = map_of c |` (- S)"
  by (induction c) (auto simp: restrict_map_def fun_eq_iff)

lemma mem_redis_exact: "redis_exact mem_redis map_of"
  by (simp add: redis_exact_def mem_redis_def map_of_filter_keys)

lemma mem_redis_ok: "redis_ok mem_redis map_of"
  by (rule redis_exact_ok [OF mem_redis_exact])

section \<open>A token format\<close>

text \<open>A list of strings as one string: each is preceded by its length and a space.\<close>

fun put_strings :: "string list \<Rightarrow> string" where
  "put_strings [] = []"
| "put_strings (s # ss) = show_nat (length s) @ CHR '' '' # s @ put_strings ss"

fun get_strings :: "nat \<Rightarrow> string \<Rightarrow> string list" where
  "get_strings 0 t = []"
| "get_strings (Suc n) t =
     (let ds = takeWhile is_digit t; body = drop (Suc (length ds)) t; k = read_digits ds
      in take k body # get_strings n (drop k body))"

lemma get_put_strings: "get_strings (length ss) (put_strings ss) = ss"
proof (induction ss)
  case Nil
  then show ?case by simp
next
  case (Cons s ss)
  have "takeWhile is_digit (show_nat (length s) @ CHR '' '' # s @ put_strings ss) = show_nat (length s)"
    using show_nat_digits by (simp add: takeWhile_append2 list_all_iff space_not_digit)
  with Cons show ?case by (simp add: Let_def read_show_nat)
qed

definition read_int :: "string \<Rightarrow> int" where
  "read_int s = (case split_sign s of (neg, ds) \<Rightarrow> if neg then - int (read_digits ds) else int (read_digits ds))"

lemma read_show_int: "read_int (show_int i) = i"
  by (simp add: read_int_def split_sign_show_int read_show_nat)

definition put_date :: "instant option \<Rightarrow> string" where
  "put_date d = (case d of None \<Rightarrow> [] | Some t \<Rightarrow> show_int t)"

definition get_date :: "string \<Rightarrow> instant option" where
  "get_date s = (if s = [] then None else Some (read_int s))"

lemma show_int_not_Nil [simp]: "show_int i \<noteq> []"
  by (simp add: show_int_def)

lemma get_put_date: "get_date (put_date d) = d"
  by (simp add: get_date_def put_date_def read_show_int split: option.splits)

definition put_token :: "signing_method \<Rightarrow> Claims \<Rightarrow> string \<Rightarrow> string list" where
  "put_token m c key =
     [(case m of SigningMethodHMAC a \<Rightarrow> CHR ''H'' # a | OtherMethod a \<Rightarrow> CHR ''O'' # a),
      show_int (sint (cl_UserID c)), cl_Email c, cl_Role c, put_date (cl_ExpiresAt c),
      put_date (cl_IssuedAt c), cl_Issuer c, cl_Subject c, key]"

definition get_token :: "string list \<Rightarrow> (signing_method \<times> Claims \<times> string) option" where
  "get_token ss =
     (case ss of
        [a, i, em, ro, ex, ia, iss, sub, key] \<Rightarrow>
          Some ((if take 1 a = ''H'' then SigningMethodHMAC (tl a) else OtherMethod (tl a)),
                \<lparr>cl_UserID = word_of_int (read_int i), cl_Email = em, cl_Role = ro,
                 cl_ExpiresAt = get_date ex, cl_IssuedAt = get_date ia, cl_Issuer = iss,
                 cl_Subject = sub\<rparr>, key)
      | _ \<Rightarrow> None)"

lemma get_put_token: "get_token (put_token m c key) = Some (m, c, key)"
  by (cases c) (simp add: put_token_def get_token_def read_show_int get_put_date
      split: signing_method.splits)

definition sign_mem :: "signing_method \<Rightarrow> Claims \<Rightarrow> string \<Rightarrow> string" where
  "sign_mem m c key = put_strings (put_token m c key)"

definition open_mem :: "string \<Rightarrow> (signing_method \<times> Claims \<times> string) option" where
  "open_mem tok = get_token (get_strings 9 tok)"

lemma open_sign_mem: "open_mem (sign_mem m c key) = Some (m, c, key)"
proof -
  have "length (put_token m c key) = 9" by (simp add: put_token_def)
  then show ?thesis
    using get_put_strings [of "put_token m c key"] by (simp add: open_mem_def sign_mem_def get_put_token)
qed

definition sig_mem :: "signing_method \<Rightarrow> string \<Rightarrow> string \<Rightarrow> Claims \<Rightarrow> bool" where
  "sig_mem m key tok c \<longleftrightarrow> open_mem tok = Some (m, c, key)"

definition mem_jwt :: jwtlib where
  "mem_jwt =
     \<lparr>jwt_NewNumericDate = (\<lambda>t. t div second * second),
      jwt_SignedString = (\<lambda>m c key. Inr (sign_mem m c key)),
      jwt_ParseWithClaims = (\<lambda>now tok kf.
        case open_mem tok of
          None \<Rightarrow> Inl (ErrLib ''token is malformed'')
        | Some (m, c, key) \<Rightarrow>
            (case kf m of
               Inl e \<Rightarrow> Inl (Errorf ''token is unverifiable: '' e [])
             | Inr k \<Rightarrow>
                 if k \<noteq> key then Inl (ErrLib ''token signature is invalid'')
                 else if \<not> unexpired now c then Inl (Errorf ''token has invalid claims: '' ErrJwtTokenExpired [])
                 else Inr \<lparr>tok_Claims = Some c, tok_Valid = True\<rparr>))\<rparr>"

lemma numeric_date_floor:
  "(t :: int) div second * second \<le> t" "(t :: int) < t div second * second + second"
  using div_mult_mod_eq [of t second] pos_mod_bound [of second t] pos_mod_sign [of second t] by linarith+

lemma mem_jwt_ok: "jwt_ok mem_jwt sig_mem"
  unfolding jwt_ok_def
proof (intro conjI allI impI, goal_cases)
  case (5 now m c key tok kf)
  then show ?case by (auto simp: mem_jwt_def sig_mem_def split: option.splits)
next
  case (6 now tok kf t c)
  then show ?case
    by (auto simp: mem_jwt_def sig_mem_def split: option.splits sum.splits if_splits)
next
  case (7 now tok kf t c)
  then show ?case
    by (auto simp: mem_jwt_def sig_mem_def split: option.splits sum.splits if_splits)
qed (auto simp: mem_jwt_def numeric_date_floor sig_mem_def open_sign_mem)

section \<open>A users table\<close>

type_synonym db_mem = "conn \<Rightarrow> User list"

definition tab :: "User list \<Rightarrow> table" where
  "tab xs = map_of (map (\<lambda>u. (usr_ID u, u)) xs)"

definition mem_rows :: "db_mem rows" where
  "mem_rows d c = tab (d c)"

definition live :: "User list \<Rightarrow> User list" where
  "live xs = filter (\<lambda>u. tab xs (usr_ID u) = Some u) (remdups xs)"

lemma tab_in_set: "tab xs i = Some u \<Longrightarrow> u \<in> set xs \<and> usr_ID u = i"
  unfolding tab_def by (drule map_of_SomeD) auto

lemma set_live: "set (live xs) = ran (tab xs)"
  unfolding live_def ran_def using tab_in_set by fastforce

lemma live_tab: "u \<in> set (live xs) \<Longrightarrow> tab xs (usr_ID u) = Some u"
  by (simp add: live_def)

lemma distinct_live: "distinct (map usr_ID (live xs))"
proof -
  have "distinct (live xs)" by (simp add: live_def)
  moreover have "inj_on usr_ID (set (live xs))"
    by (rule inj_onI) (metis live_tab option.inject)
  ultimately show ?thesis by (simp add: distinct_map)
qed

lemma tab_Nil: "tab [] = Map.empty"
  by (simp add: tab_def)

lemma tab_Cons: "tab (u # xs) = (tab xs)(usr_ID u \<mapsto> u)"
  by (simp add: tab_def)

lemma tab_filter: "tab (filter (\<lambda>v. usr_ID v \<noteq> i) xs) = (tab xs)(i := None)"
  by (induction xs) (auto simp: tab_def fun_eq_iff)

definition clash :: "User \<Rightarrow> User list \<Rightarrow> bool" where
  "clash u xs = list_ex (\<lambda>v. usr_ID v \<noteq> usr_ID u \<and>
                   (usr_Email v = usr_Email u \<or> usr_Username v = usr_Username u)) xs"

definition unique_error :: error where
  "unique_error = ErrLib ''ERROR: duplicate key value violates unique constraint users_email_key (SQLSTATE 23505)''"

definition mem_Create :: "conn \<Rightarrow> db_mem \<Rightarrow> User \<Rightarrow> (error option \<times> User) \<times> db_mem" where
  "mem_Create c d u =
     (let i = word_of_nat (Suc (length (d c))); u' = u\<lparr>usr_ID := i\<rparr>
      in if \<not> utf8_User u' then ((Some (ErrLib ''invalid byte sequence for encoding UTF8''), u), d)
         else if i = 0 \<or> tab (d c) i \<noteq> None \<or> clash u' (live (d c)) then ((Some unique_error, u), d)
         else ((None, u'), d(c := u' # d c)))"

definition mem_Updates ::
    "conn \<Rightarrow> db_mem \<Rightarrow> User \<Rightarrow> (string \<times> string) list \<Rightarrow> (error option \<times> nat \<times> User) \<times> db_mem" where
  "mem_Updates c d u kvs =
     (case tab (d c) (usr_ID u) of
        None \<Rightarrow> ((None, 0, update_row kvs u), d)
      | Some old \<Rightarrow>
          let new = update_row kvs old
          in if \<not> utf8_User new then ((Some (ErrLib ''invalid byte sequence for encoding UTF8''), 0, u), d)
             else if clash new (live (d c)) then ((Some unique_error, 0, u), d)
             else ((None, 1, update_row kvs u), d(c := new # d c)))"

definition mem_gorm :: "db_mem gorm" where
  "mem_gorm =
     \<lparr>gorm_Create = mem_Create,
      gorm_First = (\<lambda>c d i.
        ((case tab (d c) i of Some u \<Rightarrow> Inr u | None \<Rightarrow> Inl ErrRecordNotFound), d)),
      gorm_Where_First = (\<lambda>c d q v.
        ((case find (\<lambda>u. column q u = v) (live (d c)) of Some u \<Rightarrow> Inr u | None \<Rightarrow> Inl ErrRecordNotFound), d)),
      gorm_Select_Scan = (\<lambda>c d q. (Inr (map (\<lambda>u. (usr_Email u, usr_Username u)) (live (d c))), d)),
      gorm_Updates = mem_Updates,
      gorm_Delete = (\<lambda>c d i.
        ((None, if tab (d c) i = None then 0 else 1), d(c := filter (\<lambda>u. usr_ID u \<noteq> i) (d c)))),
      gorm_Find = (\<lambda>c d off lim q.
        (Inr (take (nat lim) (drop (nat off) (sort_key (\<lambda>u. sint (usr_ID u)) (live (d c))))), d)),
      gorm_Transaction = (\<lambda>d f.
        case f 0 (d(TX 0 := d DB)) of
          (Some e, d2) \<Rightarrow> (Some e, d2)
        | (None, d2) \<Rightarrow> (None, d2(DB := d2 (TX 0))))\<rparr>"

subsection \<open>It satisfies the contract\<close>

lemma table_wf_upd:
  assumes wf: "table_wf (tab xs)" and nc: "\<not> clash u (live xs)" and u: "utf8_User u"
  shows "table_wf ((tab xs)(usr_ID u \<mapsto> u))"
proof -
  let ?m = "(tab xs)(usr_ID u \<mapsto> u)"
  have free: "usr_Email v \<noteq> usr_Email u \<and> usr_Username v \<noteq> usr_Username u"
    if v: "tab xs j = Some v" "j \<noteq> usr_ID u" for v j
  proof -
    from v have "v \<in> set (live xs)" "usr_ID v = j" using tab_in_set set_live ranI by metis+
    with nc v(2) show ?thesis by (auto simp: clash_def list_ex_iff)
  qed
  have row: "?m j = Some w \<longleftrightarrow> (if j = usr_ID u then w = u else tab xs j = Some w)" for j w by auto
  show ?thesis
    unfolding table_wf_def row
  proof (intro conjI allI impI, goal_cases)
    case (1 i v)
    then show ?case using table_wf_id [OF wf] by (simp split: if_splits)
  next
    case (2 i v)
    then show ?case using table_wf_utf8 [OF wf] u by (simp split: if_splits)
  next
    case (3 i j v w)
    then show ?case
      using free [of i v] free [of j w] table_wf_email [OF wf, of i v j w] table_wf_username [OF wf, of i v j w]
      by (cases "i = usr_ID u"; cases "j = usr_ID u") auto
  qed
qed

lemma db_wf_upd: "db_wf mem_rows d \<Longrightarrow> table_wf (tab xs) \<Longrightarrow> db_wf mem_rows (d(c := xs))"
  by (simp add: db_wf_def mem_rows_def)

lemma db_wf_tab: "db_wf mem_rows d \<Longrightarrow> table_wf (tab (d c))"
  by (simp add: db_wf_def mem_rows_def)

lemma table_wf_remove: "table_wf m \<Longrightarrow> table_wf (m(i := None))"
  unfolding table_wf_def fun_upd_apply by (metis option.distinct(1))

lemma others_same_upd: "others_same mem_rows c d (d(c := xs))" "others_same rows c d d"
  by (simp_all add: others_same_def mem_rows_def)

lemma sorted_live: "rows_by_id (tab xs) (sort_key (\<lambda>u. sint (usr_ID u)) (live xs))"
proof -
  let ?f = "\<lambda>u. sint (usr_ID u)" and ?l = "live xs"
  have "inj_on ?f (set ?l)" by (rule inj_onI) (metis live_tab option.inject signed_word_eqI)
  then have "distinct (map ?f (sort_key ?f ?l))"
    using distinct_live [of xs] by (simp add: distinct_map)
  then have "sorted_wrt (<) (map ?f (sort_key ?f ?l))"
    by (simp add: strict_sorted_iff)
  then show ?thesis by (simp add: rows_by_id_def set_live sorted_wrt_map)
qed

lemma find_SomeD: "find P xs = Some x \<Longrightarrow> x \<in> set xs \<and> P x"
  by (induction xs) (auto split: if_splits)

lemma mem_reads_ok: "gorm_reads_ok mem_gorm mem_rows"
  unfolding gorm_reads_ok_def
proof (intro conjI allI impI, goal_cases)
  case (4 c d q v r d')
  then show ?case
    by (auto simp: mem_gorm_def mem_rows_def set_live [symmetric] find_None_iff dest: find_SomeD
        split: option.splits)
next
  case (8 c d off lim q r d')
  then show ?case using sorted_live by (fastforce simp: mem_gorm_def mem_rows_def)
qed (auto simp: mem_gorm_def mem_rows_def set_live [symmetric] split: option.splits)

lemma mem_Create_ok: "gorm_Create_ok mem_gorm mem_rows"
  unfolding gorm_Create_ok_def
proof (intro allI impI)
  fix c d u r u' d'
  assume res: "gorm_Create mem_gorm c d u = ((r, u'), d')" and wf: "db_wf mem_rows d" and id: "usr_ID u = 0"
  have u0: "no_times (u\<lparr>usr_ID := i, usr_ID := 0\<rparr>) = no_times u" for i by (simp add: no_times_eq_iff id)
  show "db_wf mem_rows d' \<and> others_same mem_rows c d d' \<and>
     (case r of Some e \<Rightarrow> lib_error e \<and> mem_rows d' c = mem_rows d c
      | None \<Rightarrow> mem_rows d c (usr_ID u') = None \<and> usr_ID u' \<noteq> 0 \<and>
          no_times (u'\<lparr>usr_ID := 0\<rparr>) = no_times u \<and>
          (\<exists>row. mem_rows d' c = (mem_rows d c)(usr_ID u' \<mapsto> row) \<and> no_times row = no_times u'))"
    using res wf table_wf_upd [OF db_wf_tab [OF wf, of c], of "u\<lparr>usr_ID := word_of_nat (Suc (length (d c)))\<rparr>"] u0
    by (auto simp: mem_gorm_def mem_Create_def Let_def unique_error_def mem_rows_def tab_Cons others_same_def
        intro!: db_wf_upd split: if_splits)
qed

lemma mem_Updates_ok: "gorm_Updates_ok mem_gorm mem_rows"
  unfolding gorm_Updates_ok_def
proof (intro allI impI)
  fix c d u kvs r n u' d'
  assume res: "gorm_Updates mem_gorm c d u kvs = ((r, n, u'), d')" and wf: "db_wf mem_rows d"
  have id: "usr_ID (update_row kvs v) = usr_ID v" for v by (simp add: update_row_def)
  have same: "update_row kvs v\<lparr>usr_UpdatedAt := usr_UpdatedAt v\<rparr> = update_row kvs v" for v
    by (cases v) (simp add: update_row_def)
  show "db_wf mem_rows d' \<and> others_same mem_rows c d d' \<and>
     (case r of Some e \<Rightarrow> lib_error e \<and> mem_rows d' c = mem_rows d c
      | None \<Rightarrow> no_times u' = no_times (update_row kvs u) \<and>
          (if n = 0 then mem_rows d c (usr_ID u) = None \<and> mem_rows d' c = mem_rows d c
           else \<exists>old t. mem_rows d c (usr_ID u) = Some old \<and>
                  mem_rows d' c = (mem_rows d c)(usr_ID u \<mapsto> update_row kvs old\<lparr>usr_UpdatedAt := t\<rparr>)))"
  proof (cases "tab (d c) (usr_ID u)")
    case None
    with res wf show ?thesis by (auto simp: mem_gorm_def mem_Updates_def mem_rows_def others_same_def)
  next
    case (Some old)
    then have "usr_ID old = usr_ID u" by (simp add: tab_in_set)
    with Some res wf table_wf_upd [OF db_wf_tab [OF wf, of c], of "update_row kvs old"] same [of old] id show ?thesis
      by (auto simp: mem_gorm_def mem_Updates_def Let_def unique_error_def mem_rows_def tab_Cons others_same_def
          intro!: db_wf_upd exI [of _ "usr_UpdatedAt old"] split: if_splits)
  qed
qed

lemma mem_Delete_ok: "gorm_Delete_ok mem_gorm mem_rows"
  unfolding gorm_Delete_ok_def
proof (intro allI impI)
  fix c d i r n d'
  assume "gorm_Delete mem_gorm c d i = ((r, n), d')" and wf: "db_wf mem_rows d"
  with table_wf_remove [OF db_wf_tab [OF wf]]
  show "db_wf mem_rows d' \<and> others_same mem_rows c d d' \<and>
     (case r of Some e \<Rightarrow> lib_error e \<and> mem_rows d' c = mem_rows d c
      | None \<Rightarrow> (n = 0 \<longleftrightarrow> mem_rows d c i = None) \<and> mem_rows d' c = (mem_rows d c)(i := None))"
    by (auto simp: mem_gorm_def mem_rows_def tab_filter others_same_def intro!: db_wf_upd split: if_splits)
qed

lemma mem_Transaction_ok: "gorm_Transaction_ok mem_gorm mem_rows"
  unfolding gorm_Transaction_ok_def
proof (intro allI impI disjI2)
  fix d f r d'
  assume res: "gorm_Transaction mem_gorm d f = (r, d')" and wf: "db_wf mem_rows d"
  let ?d1 = "d(TX 0 := d DB)"
  obtain r2 d2 where f: "f 0 ?d1 = (r2, d2)" by force
  have "db_wf mem_rows ?d1" "mem_rows ?d1 (TX 0) = mem_rows d DB" "others_same mem_rows (TX 0) d ?d1"
    using wf by (simp_all add: db_wf_def mem_rows_def others_same_def)
  with f res show "\<exists>tx d1 d2 r2. db_wf mem_rows d1 \<and> mem_rows d1 (TX tx) = mem_rows d DB \<and>
           others_same mem_rows (TX tx) d d1 \<and> f tx d1 = (r2, d2) \<and>
           (case r2 of
              Some e \<Rightarrow> r = Some e \<and> mem_rows d' DB = mem_rows d2 DB
            | None \<Rightarrow> r = None \<and> mem_rows d' DB = mem_rows d2 (TX tx) \<or>
                      (\<exists>e. r = Some e \<and> lib_error e \<and> mem_rows d' DB = mem_rows d2 DB))"
    by (intro exI [of _ 0] exI [of _ ?d1] exI [of _ d2] exI [of _ r2])
       (auto simp: mem_gorm_def mem_rows_def split: option.splits)
qed

lemma mem_gorm_ok: "gorm_ok mem_gorm mem_rows"
  by (simp add: gorm_ok_def mem_reads_ok mem_Create_ok mem_Updates_ok mem_Delete_ok mem_Transaction_ok)

lemma mem_gorm_simps [simp]:
  "gorm_Create mem_gorm = mem_Create" "gorm_Updates mem_gorm = mem_Updates"
  "gorm_First mem_gorm c d i = ((case tab (d c) i of Some u \<Rightarrow> Inr u | None \<Rightarrow> Inl ErrRecordNotFound), d)"
  "gorm_Where_First mem_gorm c d q v =
     ((case find (\<lambda>u. column q u = v) (live (d c)) of Some u \<Rightarrow> Inr u | None \<Rightarrow> Inl ErrRecordNotFound), d)"
  "gorm_Select_Scan mem_gorm c d q = (Inr (map (\<lambda>u. (usr_Email u, usr_Username u)) (live (d c))), d)"
  "gorm_Delete mem_gorm c d i =
     ((None, if tab (d c) i = None then 0 else 1), d(c := filter (\<lambda>u. usr_ID u \<noteq> i) (d c)))"
  by (simp_all add: mem_gorm_def)

lemma live_single: "live [u] = [u]"
  by (simp add: live_def tab_def)

definition empty_db :: db_mem where
  "empty_db = (\<lambda>c. [])"

lemma empty_db_wf: "db_wf mem_rows empty_db"
  by (simp add: db_wf_def mem_rows_def empty_db_def tab_def table_wf_def)

lemmas mem_ok = mem_gorm_ok mem_redis_ok mem_redis_exact mem_jwt_ok mem_bcrypt_ok mem_bloom_ok

end
