(* ===== verification/AuthService.thy ===== *)
theory AuthService
  imports UserRepository Jwt Password Bloom Reference
begin

text \<open>
  \<^verbatim>\<open>internal/service/auth.go\<close>: registration, login, token refresh and profiles. The service's state is
  the state of its repository and the Bloom filter it shares with the user service (\<open>None\<close> is a nil
  filter). \<open>libs\<close> holds the libraries the service calls, \<open>env\<close> the clock reading and the random salt
  of one call.

  The lemmas of the locale \<open>user_repository\<close> describe each operation completely, on every branch,
  for any repository that keeps the contract; the properties at the end are their instances for the
  database repository.
\<close>

record 'b libs =
  lib_jwt :: jwtlib
  lib_bcrypt :: bcryptlib
  lib_bloom :: "'b bloomlib"

record env =
  env_now :: instant
  env_salt :: nat

record 's authService =
  as_userRepo :: "'s UserRepository"
  as_jwtSecret :: string
  as_accessExpiry :: duration
  as_refreshExpiry :: duration

text \<open>The constructor and its argument; the filter it is given is part of the state.\<close>

record 's AuthServiceDeps =
  ad_UserRepo :: "'s UserRepository"
  ad_JWTSecret :: string
  ad_AccessExpiry :: duration
  ad_RefreshExpiry :: duration

definition NewAuthService :: "'s AuthServiceDeps \<Rightarrow> 's authService" where
  "NewAuthService deps =
     \<lparr>as_userRepo = ad_UserRepo deps, as_jwtSecret = ad_JWTSecret deps,
      as_accessExpiry = ad_AccessExpiry deps, as_refreshExpiry = ad_RefreshExpiry deps\<rparr>"

lemma NewAuthService_simps [simp]:
  "as_userRepo (NewAuthService deps) = ad_UserRepo deps" "as_jwtSecret (NewAuthService deps) = ad_JWTSecret deps"
  "as_accessExpiry (NewAuthService deps) = ad_AccessExpiry deps" "as_refreshExpiry (NewAuthService deps) = ad_RefreshExpiry deps"
  by (simp_all add: NewAuthService_def)

type_synonym ('s, 'b) auth_state = "'s \<times> 'b Filter option"

section \<open>Operations\<close>

definition authService_generateTokenPair ::
    "'b libs \<Rightarrow> 's authService \<Rightarrow> env \<Rightarrow> User \<Rightarrow> error + AuthResponse" where
  "authService_generateTokenPair L svc E user =
     (case GenerateTokenPair (lib_jwt L) (env_now E) (as_jwtSecret svc) (usr_ID user) (usr_Email user)
             (usr_Role user) (as_accessExpiry svc) (as_refreshExpiry svc) of
        Inl e \<Rightarrow> Inl (Errorf ''generate tokens: '' e [])
      | Inr pair \<Rightarrow>
          Inr \<lparr>auth_AccessToken = tp_AccessToken pair, auth_RefreshToken = tp_RefreshToken pair,
               auth_ExpiresAt = tp_ExpiresAt pair div second\<rparr>)"

definition filter_add_user :: "'b bloomlib \<Rightarrow> 'b Filter option \<Rightarrow> string \<Rightarrow> string \<Rightarrow> 'b Filter option" where
  "filter_add_user B f email username =
     (case f of
        None \<Rightarrow> None
      | Some fl \<Rightarrow> Some (Filter_Add B (Filter_Add B fl (''email:'' @ email)) (''username:'' @ username)))"

definition authService_Register ::
    "'b libs \<Rightarrow> 's authService \<Rightarrow> env \<Rightarrow> go_context \<Rightarrow> ('s, 'b) auth_state \<Rightarrow> RegisterRequest
     \<Rightarrow> (error + AuthResponse) \<times> ('s, 'b) auth_state" where
  "authService_Register L svc E ctx st req =
     (case st of (s, f) \<Rightarrow>
      case repo_GetByEmail (as_userRepo svc) ctx s (reg_Email req) of
        (Inr existing, s1) \<Rightarrow> (Inl ErrEmailTaken, (s1, f))
      | (Inl err, s1) \<Rightarrow>
          if \<not> errors_Is err ErrNotFound
          then (Inl (Errorf ''check existing user: '' err []), (s1, f))
          else
            (case Hash (lib_bcrypt L) (env_salt E) (reg_Password req) of
               Inl e \<Rightarrow> (Inl (Errorf ''hash password: '' e []), (s1, f))
             | Inr hash \<Rightarrow>
                 let user = zero_User\<lparr>usr_Email := reg_Email req, usr_Username := reg_Username req,
                                      usr_Name := reg_Name req, usr_Role := RoleUser\<rparr>
                 in case repo_Create (as_userRepo svc) ctx s1 user hash of
                      ((Some e, user'), s2) \<Rightarrow> (Inl (Errorf ''create user: '' e []), (s2, f))
                    | ((None, user'), s2) \<Rightarrow>
                        (authService_generateTokenPair L svc E user',
                         (s2, filter_add_user (lib_bloom L) f (reg_Email req) (reg_Username req)))))"

definition authService_Login ::
    "'b libs \<Rightarrow> 's authService \<Rightarrow> env \<Rightarrow> go_context \<Rightarrow> ('s, 'b) auth_state \<Rightarrow> LoginRequest
     \<Rightarrow> (error + AuthResponse) \<times> ('s, 'b) auth_state" where
  "authService_Login L svc E ctx st req =
     (case st of (s, f) \<Rightarrow>
      case repo_GetByEmail (as_userRepo svc) ctx s (login_Email req) of
        (Inl e, s1) \<Rightarrow>
          if errors_Is e ErrNotFound then (Inl ErrInvalidCredentials, (s1, f))
          else (Inl (Errorf ''get user by email: '' e []), (s1, f))
      | (Inr user, s1) \<Rightarrow>
          if \<not> Compare (lib_bcrypt L) (usr_Password user) (login_Password req)
          then (Inl ErrInvalidCredentials, (s1, f))
          else (authService_generateTokenPair L svc E user, (s1, f)))"

definition authService_RefreshToken ::
    "'b libs \<Rightarrow> 's authService \<Rightarrow> env \<Rightarrow> go_context \<Rightarrow> ('s, 'b) auth_state \<Rightarrow> string
     \<Rightarrow> (error + AuthResponse) \<times> ('s, 'b) auth_state" where
  "authService_RefreshToken L svc E ctx st refreshToken =
     (case st of (s, f) \<Rightarrow>
      case ValidateToken (lib_jwt L) (env_now E) (as_jwtSecret svc) refreshToken of
        Inl e \<Rightarrow> (Inl ErrInvalidRefreshToken, (s, f))
      | Inr claims \<Rightarrow>
          (case repo_GetByID (as_userRepo svc) ctx s (cl_UserID claims) of
             (Inl e, s1) \<Rightarrow> (Inl ErrInvalidRefreshToken, (s1, f))
           | (Inr user, s1) \<Rightarrow> (authService_generateTokenPair L svc E user, (s1, f))))"

definition authService_GetProfile ::
    "'s authService \<Rightarrow> go_context \<Rightarrow> ('s, 'b) auth_state \<Rightarrow> int64 \<Rightarrow> (error + User) \<times> ('s, 'b) auth_state" where
  "authService_GetProfile svc ctx st userID =
     (case st of (s, f) \<Rightarrow>
      case repo_GetByID (as_userRepo svc) ctx s userID of
        (Inl e, s1) \<Rightarrow>
          if errors_Is e ErrNotFound then (Inl ErrNotFound, (s1, f))
          else (Inl (Errorf ''get user by id: '' e []), (s1, f))
      | (Inr user, s1) \<Rightarrow> (Inr user, (s1, f)))"

definition apply_profile :: "UpdateProfileRequest \<Rightarrow> User \<Rightarrow> User" where
  "apply_profile req user =
     (let user = (if upd_Name req \<noteq> [] then user\<lparr>usr_Name := upd_Name req\<rparr> else user);
          user = (if upd_Email req \<noteq> [] then user\<lparr>usr_Email := upd_Email req\<rparr> else user);
          user = (if upd_Username req \<noteq> [] then user\<lparr>usr_Username := upd_Username req\<rparr> else user)
      in user)"

definition authService_UpdateProfile ::
    "'s authService \<Rightarrow> go_context \<Rightarrow> ('s, 'b) auth_state \<Rightarrow> int64 \<Rightarrow> UpdateProfileRequest
     \<Rightarrow> (error + User) \<times> ('s, 'b) auth_state" where
  "authService_UpdateProfile svc ctx st userID req =
     (case st of (s, f) \<Rightarrow>
      case repo_GetByID (as_userRepo svc) ctx s userID of
        (Inl e, s1) \<Rightarrow>
          if errors_Is e ErrNotFound then (Inl ErrNotFound, (s1, f))
          else (Inl (Errorf ''get user: '' e []), (s1, f))
      | (Inr user, s1) \<Rightarrow>
          (case repo_Update (as_userRepo svc) ctx s1 (apply_profile req user) of
             ((Some e, user'), s2) \<Rightarrow> (Inl (Errorf ''update user: '' e []), (s2, f))
           | ((None, user'), s2) \<Rightarrow> (Inr user', (s2, f))))"

lemmas authService_defs [svc_simps] =
  authService_Register_def authService_Login_def authService_RefreshToken_def
  authService_GetProfile_def authService_UpdateProfile_def

section \<open>Contracts of the operations\<close>

text \<open>
  The filter after some items were added: they are found, and so is everything found before. A nil
  filter stays nil.
\<close>

definition filter_grown :: "'b bloomlib \<Rightarrow> 'b Filter option \<Rightarrow> string list \<Rightarrow> 'b Filter option \<Rightarrow> bool" where
  "filter_grown B f items f' \<longleftrightarrow>
     (case f of
        None \<Rightarrow> f' = None
      | Some b \<Rightarrow> (\<exists>b'. f' = Some b' \<and> list_all (Filter_Contains B b') items \<and>
                       Filter_Contains B b \<le> Filter_Contains B b'))"

lemma filter_add_user_grown:
  "bloom_ok B \<Longrightarrow> filter_grown B f [''email:'' @ em, ''username:'' @ un] (filter_add_user B f em un)"
  using filter.contains_add [of B] filter.contains_keep [of B]
  by (auto simp: filter_grown_def filter_add_user_def le_fun_def split: option.split)

text \<open>A row of the table whose e-mail and password are the given ones.\<close>

definition credentials :: "bcryptlib \<Rightarrow> table \<Rightarrow> string \<Rightarrow> string \<Rightarrow> User \<Rightarrow> bool" where
  "credentials P m em pw row \<longleftrightarrow> row \<in> ran m \<and> usr_Email row = em \<and> Compare P (usr_Password row) pw"

text \<open>The row that registration creates for a request.\<close>

definition registered :: "bcryptlib \<Rightarrow> nat \<Rightarrow> RegisterRequest \<Rightarrow> User \<Rightarrow> bool" where
  "registered P salt req row \<longleftrightarrow>
     usr_ID row \<noteq> 0 \<and> usr_Email row = reg_Email req \<and> usr_Username row = reg_Username req \<and>
     usr_Name row = reg_Name req \<and> usr_Role row = RoleUser \<and>
     Hash P salt (reg_Password req) = Inr (usr_Password row)"

lemma credentials_row:
  "table_wf m \<Longrightarrow> row \<in> ran m \<Longrightarrow> usr_Email row = em \<Longrightarrow>
   credentials P m em pw v \<longleftrightarrow> v = row \<and> Compare P (usr_Password row) pw"
  unfolding credentials_def using table_wf_ran_email by metis

lemma generateTokenPair_no_times:
  "no_times u = no_times v \<Longrightarrow>
   authService_generateTokenPair L svc E u = authService_generateTokenPair L svc E v"
  by (simp add: no_times_eq_iff authService_generateTokenPair_def)

lemma generateTokenPair_total:
  "jwt_ok (lib_jwt L) sig \<Longrightarrow> \<exists>r. authService_generateTokenPair L svc E u = Inr r"
  using GenerateTokenPair_total [of "lib_jwt L" sig "env_now E" "as_jwtSecret svc"]
  by (auto simp: authService_generateTokenPair_def split: sum.splits)
     (metis Inl_Inr_False)

lemma created_row_registered:
  assumes "created_row m (zero_User\<lparr>usr_Email := reg_Email req, usr_Username := reg_Username req,
             usr_Name := reg_Name req, usr_Role := RoleUser\<rparr>) h u' row"
    and "Hash P salt (reg_Password req) = Inr h"
  shows "registered P salt req row" and "usr_ID row = usr_ID u'" and "m (usr_ID row) = None"
  using assms by (auto simp: created_row_def registered_def no_times_eq_iff)

lemma apply_profile_simps [simp]:
  "usr_ID (apply_profile req u) = usr_ID u" "usr_Password (apply_profile req u) = usr_Password u"
  "usr_Role (apply_profile req u) = usr_Role u" "usr_CreatedAt (apply_profile req u) = usr_CreatedAt u"
  "usr_Name (apply_profile req u) = (if upd_Name req = [] then usr_Name u else upd_Name req)"
  "usr_Email (apply_profile req u) = (if upd_Email req = [] then usr_Email u else upd_Email req)"
  "usr_Username (apply_profile req u) = (if upd_Username req = [] then usr_Username u else upd_Username req)"
  by (simp_all add: apply_profile_def Let_def)

lemma updated_row_profile: "updated_row (apply_profile req old) old t = (apply_profile req old)\<lparr>usr_UpdatedAt := t\<rparr>"
  by (cases old) (simp add: updated_row_def apply_profile_def Let_def)

context user_repository
begin

lemma lookup_id:
  assumes "inv s" "lookup_ok (=) (tbl s) (\<lambda>u. usr_ID u = i) r"
  shows "r = Inr u \<Longrightarrow> tbl s i = Some u" and "r = Inl e \<Longrightarrow> errors_Is e ErrNotFound \<Longrightarrow> tbl s i = None"
    and "r = Inl e \<Longrightarrow> \<not> errors_Is e ErrNotFound \<Longrightarrow> lib_error e"
  using assms table_wf_ran_id [OF tbl_wf] table_wf_no_id [OF tbl_wf] by (auto simp: lookup_ok_def)

lemma Login_spec:
  assumes inv: "inv s" and repo: "as_userRepo svc = repo" and J: "jwt_ok (lib_jwt L) sig"
    and res: "authService_Login L svc E ctx (s, f) req = (r, (s', f'))"
  shows "inv s' \<and> tbl s' = tbl s \<and> f' = f \<and>
         (case r of
            Inr resp \<Rightarrow> \<exists>row. credentials (lib_bcrypt L) (tbl s) (login_Email req) (login_Password req) row \<and>
                          authService_generateTokenPair L svc E row = Inr resp
          | Inl e \<Rightarrow>
              (e = ErrInvalidCredentials \<and>
                (\<nexists>row. credentials (lib_bcrypt L) (tbl s) (login_Email req) (login_Password req) row)) \<or>
              lib_error e)"
proof -
  obtain r0 s1 where g: "repo_GetByEmail repo ctx s (login_Email req) = (r0, s1)" by force
  note G = GetByEmail [OF inv g]
  show ?thesis
  proof (cases r0)
    case (Inl e)
    with G g res repo show ?thesis
      by (auto simp: authService_Login_def lookup_ok_def credentials_def split: if_splits)
  next
    case (Inr u)
    with G have row: "u \<in> ran (tbl s)" "usr_Email u = login_Email req" by (auto simp: lookup_ok_def)
    note cred = credentials_row [OF tbl_wf [OF inv] row]
    obtain resp where resp: "authService_generateTokenPair L svc E u = Inr resp"
      using generateTokenPair_total [OF J] by blast
    with Inr g res repo G show ?thesis
      by (auto simp: authService_Login_def cred resp split: if_splits)
  qed
qed

lemma RefreshToken_spec:
  assumes inv: "inv s" and repo: "as_userRepo svc = repo" and J: "jwt_ok (lib_jwt L) sig"
    and res: "authService_RefreshToken L svc E ctx (s, f) tok = (r, (s', f'))"
  shows "inv s' \<and> tbl s' = tbl s \<and> f' = f \<and>
         (case r of
            Inr resp \<Rightarrow> \<exists>c row. ValidateToken (lib_jwt L) (env_now E) (as_jwtSecret svc) tok = Inr c \<and>
                          tbl s (cl_UserID c) = Some row \<and>
                          authService_generateTokenPair L svc E row = Inr resp
          | Inl e \<Rightarrow> e = ErrInvalidRefreshToken)"
proof (cases "ValidateToken (lib_jwt L) (env_now E) (as_jwtSecret svc) tok")
  case (Inl e)
  with res inv show ?thesis by (auto simp: authService_RefreshToken_def)
next
  case (Inr c)
  obtain r0 s1 where g: "repo_GetByID repo ctx s (cl_UserID c) = (r0, s1)" by force
  note G = GetByID [OF inv g]
  show ?thesis
  proof (cases r0)
    case (Inl e)
    with Inr g G res repo show ?thesis by (auto simp: authService_RefreshToken_def)
  next
    case u: (Inr u)
    with G have "tbl s (cl_UserID c) = Some u" using lookup_id [OF inv] by blast
    moreover obtain resp where resp: "authService_generateTokenPair L svc E u = Inr resp"
      using generateTokenPair_total [OF J] by blast
    ultimately show ?thesis using u Inr g G res repo
      by (auto simp: authService_RefreshToken_def resp)
  qed
qed

lemma GetProfile_spec:
  assumes inv: "inv s" and repo: "as_userRepo svc = repo"
    and res: "authService_GetProfile svc ctx (s, f) i = (r, (s', f'))"
  shows "inv s' \<and> tbl s' = tbl s \<and> f' = f \<and>
         (case r of
            Inr u \<Rightarrow> tbl s i = Some u
          | Inl e \<Rightarrow> (e = ErrNotFound \<and> tbl s i = None) \<or> lib_error e)"
proof -
  obtain r0 s1 where g: "repo_GetByID repo ctx s i = (r0, s1)" by force
  note G = GetByID [OF inv g]
  show ?thesis
    using g G res repo lookup_id [OF inv]
    by (cases r0) (auto simp: authService_GetProfile_def split: if_splits)
qed

lemma UpdateProfile_spec:
  assumes inv: "inv s" and repo: "as_userRepo svc = repo"
    and res: "authService_UpdateProfile svc ctx (s, f) i req = (r, (s', f'))"
  shows "inv s' \<and> f' = f \<and>
         (case r of
            Inr u \<Rightarrow> \<exists>old t. tbl s i = Some old \<and> no_times u = no_times (apply_profile req old) \<and>
                       tbl s' = (tbl s)(i \<mapsto> (apply_profile req old)\<lparr>usr_UpdatedAt := t\<rparr>)
          | Inl e \<Rightarrow> tbl s' = tbl s \<and> (errors_Is e ErrNotFound \<and> tbl s i = None \<or> lib_error e))"
proof -
  obtain r0 s1 where g: "repo_GetByID repo ctx s i = (r0, s1)" by force
  note G = GetByID [OF inv g]
  show ?thesis
  proof (cases r0)
    case (Inl e)
    with g G res repo lookup_id [OF inv] show ?thesis
      by (auto simp: authService_UpdateProfile_def split: if_splits)
  next
    case (Inr old)
    with G have old: "tbl s i = Some old" using lookup_id [OF inv] by blast
    then have id: "usr_ID old = i" using table_wf_id [OF tbl_wf [OF inv]] by blast
    let ?u = "apply_profile req old"
    obtain cr u' s2 where u: "repo_Update repo ctx s1 ?u = ((cr, u'), s2)" by (metis surj_pair)
    from G have "inv s1" "tbl s1 = tbl s" by simp_all
    from Update [OF this(1) u] this(2) id Inr g u res repo old show ?thesis
      by (cases cr) (auto simp: authService_UpdateProfile_def updated_row_profile split: if_splits)
  qed
qed

text \<open>The row that a successful \<open>Create\<close> leaves, and its tokens.\<close>

lemma create_registered:
  assumes inv: "inv s" and J: "jwt_ok (lib_jwt L) sig" and h: "Hash P salt (reg_Password req) = Inr h"
    and c: "repo_Create repo ctx s (zero_User\<lparr>usr_Email := reg_Email req, usr_Username := reg_Username req,
              usr_Name := reg_Name req, usr_Role := RoleUser\<rparr>) h = ((None, u), s')"
  shows "inv s' \<and> (\<exists>row resp. registered P salt req row \<and> tbl s (usr_ID row) = None \<and>
           tbl s' = (tbl s)(usr_ID row \<mapsto> row) \<and>
           authService_generateTokenPair L svc E u = Inr resp \<and> authService_generateTokenPair L svc E row = Inr resp)"
proof -
  from Create [OF inv _ c] obtain row where
    row: "created_row (tbl s) (zero_User\<lparr>usr_Email := reg_Email req, usr_Username := reg_Username req,
            usr_Name := reg_Name req, usr_Role := RoleUser\<rparr>) h u row" "tbl s' = (tbl s)(usr_ID u \<mapsto> row)" "inv s'"
    by (auto simp: zero_User_def)
  obtain resp where resp: "authService_generateTokenPair L svc E row = Inr resp"
    using generateTokenPair_total [OF J] by blast
  have "authService_generateTokenPair L svc E u = authService_generateTokenPair L svc E row"
    using row(1) by (auto simp: created_row_def intro!: generateTokenPair_no_times)
  with created_row_registered [OF row(1) h] row(2,3) resp show ?thesis by auto
qed

lemma Register_spec:
  assumes inv: "inv s" and repo: "as_userRepo svc = repo"
    and J: "jwt_ok (lib_jwt L) sig" and P: "bcrypt_ok (lib_bcrypt L)"
    and res: "authService_Register L svc E ctx (s, f) req = (r, (s', f'))"
  shows "inv s' \<and>
         (case r of
            Inr resp \<Rightarrow>
              \<not> email_taken (tbl s) (reg_Email req) \<and>
              f' = filter_add_user (lib_bloom L) f (reg_Email req) (reg_Username req) \<and>
              (\<exists>row. registered (lib_bcrypt L) (env_salt E) req row \<and> tbl s (usr_ID row) = None \<and>
                 tbl s' = (tbl s)(usr_ID row \<mapsto> row) \<and>
                 authService_generateTokenPair L svc E row = Inr resp)
          | Inl e \<Rightarrow>
              tbl s' = tbl s \<and> f' = f \<and>
              (e = ErrEmailTaken \<and> email_taken (tbl s) (reg_Email req) \<or>
               e = Errorf ''create user: '' ErrConflict [] \<or> lib_error e))"
proof -
  obtain r0 s1 where g: "repo_GetByEmail repo ctx s (reg_Email req) = (r0, s1)" by force
  from GetByEmail [OF inv g] have s1: "inv s1" "tbl s1 = tbl s"
    and l: "lookup_ok (=) (tbl s) (\<lambda>u. usr_Email u = reg_Email req) r0" by simp_all
  consider (taken) u where "r0 = Inr u" | (failed) e where "r0 = Inl e" "\<not> errors_Is e ErrNotFound"
    | (free) e where "r0 = Inl e" "errors_Is e ErrNotFound" by (cases r0) auto
  then show ?thesis
  proof cases
    case taken
    with g res repo s1 l show ?thesis
      by (auto simp: authService_Register_def lookup_ok_def email_taken_def)
  next
    case failed
    with g res repo s1 l show ?thesis by (auto simp: authService_Register_def lookup_ok_def)
  next
    case free
    with l have nt: "\<not> email_taken (tbl s) (reg_Email req)" by (simp add: lookup_ok_def email_taken_def)
    show ?thesis
    proof (cases "Hash (lib_bcrypt L) (env_salt E) (reg_Password req)")
      case (Inl e)
      with free g res repo s1 Hash_error [OF P] show ?thesis
        by (fastforce simp: authService_Register_def)
    next
      case (Inr h)
      let ?u = "zero_User\<lparr>usr_Email := reg_Email req, usr_Username := reg_Username req,
                           usr_Name := reg_Name req, usr_Role := RoleUser\<rparr>"
      obtain cr u' s2 where c: "repo_Create repo ctx s1 ?u h = ((cr, u'), s2)" by (metis surj_pair)
      from free g res repo Inr c have rs:
        "r = (case cr of None \<Rightarrow> authService_generateTokenPair L svc E u'
              | Some e \<Rightarrow> Inl (Errorf ''create user: '' e []))" "s' = s2"
        "f' = (case cr of None \<Rightarrow> filter_add_user (lib_bloom L) f (reg_Email req) (reg_Username req)
               | Some e \<Rightarrow> f)"
        by (auto simp: authService_Register_def split: option.splits)
      show ?thesis
      proof (cases cr)
        case (Some e)
        with Create [OF s1(1) _ c, unfolded s1(2)] rs show ?thesis by (auto simp: zero_User_def)
      next
        case None
        from create_registered [OF s1(1) J Inr c [unfolded None], of svc E] None rs nt show ?thesis by (auto simp: s1(2))
      qed
    qed
  qed
qed

end

text \<open>What the tokens of a response validate to, at any later instant.\<close>

lemma response_tokens:
  assumes J: "jwt_ok (lib_jwt L) sig" and utf8: "utf8_User u"
    and resp: "authService_generateTokenPair L svc E u = Inr resp"
  shows "ValidateToken (lib_jwt L) t (as_jwtSecret svc) (auth_AccessToken resp) =
           (let c = access_claims (lib_jwt L) (env_now E) (usr_ID u) (usr_Email u) (usr_Role u) (as_accessExpiry svc)
            in if unexpired t c then Inr c else Inl ErrTokenExpired)"
    and "ValidateToken (lib_jwt L) t (as_jwtSecret svc) (auth_RefreshToken resp) =
           (let c = refresh_claims (lib_jwt L) (env_now E) (usr_ID u) (as_refreshExpiry svc)
            in if unexpired t c then Inr c else Inl ErrTokenExpired)"
    and "auth_ExpiresAt resp = (env_now E + sint (as_accessExpiry svc)) div second"
proof -
  from resp obtain p where
    p: "GenerateTokenPair (lib_jwt L) (env_now E) (as_jwtSecret svc) (usr_ID u) (usr_Email u) (usr_Role u)
          (as_accessExpiry svc) (as_refreshExpiry svc) = Inr p" and
    r: "auth_AccessToken resp = tp_AccessToken p" "auth_RefreshToken resp = tp_RefreshToken p"
       "auth_ExpiresAt resp = tp_ExpiresAt p div second"
    by (auto simp: authService_generateTokenPair_def split: sum.splits)
  note S = GenerateTokenPair_signed [OF J p]
  have "valid_utf8 (usr_Email u)" "valid_utf8 (usr_Role u)" using utf8 by (simp_all add: utf8_User_def)
  note A = ValidateToken_signed [OF J S(1) [OF this, unfolded SigningMethodHS256_def]]
    and R = ValidateToken_signed [OF J S(2) [unfolded SigningMethodHS256_def]]
  show "ValidateToken (lib_jwt L) t (as_jwtSecret svc) (auth_AccessToken resp) =
           (let c = access_claims (lib_jwt L) (env_now E) (usr_ID u) (usr_Email u) (usr_Role u) (as_accessExpiry svc)
            in if unexpired t c then Inr c else Inl ErrTokenExpired)"
    and "ValidateToken (lib_jwt L) t (as_jwtSecret svc) (auth_RefreshToken resp) =
           (let c = refresh_claims (lib_jwt L) (env_now E) (usr_ID u) (as_refreshExpiry svc)
            in if unexpired t c then Inr c else Inl ErrTokenExpired)"
    and "auth_ExpiresAt resp = (env_now E + sint (as_accessExpiry svc)) div second"
    by (simp_all add: A R r S(3) Let_def)
qed

lemma claims_unexpired:
  assumes J: "jwt_ok (lib_jwt L) sig"
  shows "t + second \<le> n + sint ae \<Longrightarrow> unexpired t (access_claims (lib_jwt L) n i em ro ae)"
    and "n + sint ae \<le> t \<Longrightarrow> \<not> unexpired t (access_claims (lib_jwt L) n i em ro ae)"
    and "t + second \<le> n + sint re \<Longrightarrow> unexpired t (refresh_claims (lib_jwt L) n i re)"
    and "n + sint re \<le> t \<Longrightarrow> \<not> unexpired t (refresh_claims (lib_jwt L) n i re)"
  using jwt_okD(1,2) [OF J, of "n + sint ae"] jwt_okD(1,2) [OF J, of "n + sint re"]
  by (auto simp: unexpired_def access_claims_def refresh_claims_def)

section \<open>A concrete service\<close>

text \<open>
  One user in an in-memory table, and the service wired to the reference libraries, for the
  witnesses of the properties.
\<close>

definition mem_libs :: "string list libs" where
  "mem_libs = \<lparr>lib_jwt = mem_jwt, lib_bcrypt = mem_bcrypt, lib_bloom = mem_bloom\<rparr>"

definition mem_svc :: "db_mem authService" where
  "mem_svc = \<lparr>as_userRepo = NewUserRepository mem_gorm, as_jwtSecret = ''s3cret'',
              as_accessExpiry = 900000000000, as_refreshExpiry = 604800000000000\<rparr>"

definition mem_env :: env where
  "mem_env = \<lparr>env_now = 1700000000 * second, env_salt = 7\<rparr>"

definition alice_reg :: RegisterRequest where
  "alice_reg = \<lparr>reg_Email = ''a@x.io'', reg_Password = ''pw'', reg_Name = ''Al'', reg_Username = ''alice''\<rparr>"

definition alice :: User where
  "alice = \<lparr>usr_ID = 1, usr_Email = ''a@x.io'', usr_Username = ''alice'', usr_Password = ''112 119 '',
            usr_Name = ''Al'', usr_Role = ''user'', usr_CreatedAt = zero_time, usr_UpdatedAt = zero_time\<rparr>"

definition alice_db :: db_mem where
  "alice_db = empty_db(DB := [alice])"

lemma mem_simps [simp]:
  "lib_jwt mem_libs = mem_jwt" "lib_bcrypt mem_libs = mem_bcrypt" "lib_bloom mem_libs = mem_bloom"
  "as_userRepo mem_svc = NewUserRepository mem_gorm"
  by (simp_all add: mem_libs_def mem_svc_def)

lemma empty_db_inv: "db_inv mem_gorm mem_rows empty_db"
  by (simp add: db_inv_def mem_gorm_ok empty_db_wf)

lemma utf8_alice: "utf8_User alice"
  by (simp add: utf8_User_def alice_def valid_utf8_ascii byte_def)

lemma alice_db_inv: "db_inv mem_gorm mem_rows alice_db"
proof -
  have "table_wf (tab [alice])"
    using table_wf_upd [of "[]" alice] db_wf_tab [OF empty_db_wf, of DB] utf8_alice
    by (simp add: tab_Cons empty_db_def clash_def live_def)
  then show ?thesis
    using db_wf_upd [OF empty_db_wf] by (simp add: db_inv_def mem_gorm_ok alice_db_def)
qed

lemma alice_hash: "Hash mem_bcrypt salt ''pw'' = Inr ''112 119 ''"
  by (simp add: Hash_def mem_bcrypt_def byte_def show_nat.simps digit_char_def char_of_def bit_Suc_0_iff)

lemma mem_generate: "\<exists>resp. authService_generateTokenPair mem_libs svc E u = Inr resp"
  using generateTokenPair_total [of mem_libs sig_mem] mem_jwt_ok by simp

lemma alice_Create:
  "UserRepositoryImpl_Create mem_gorm background empty_db
     (zero_User\<lparr>usr_Email := ''a@x.io'', usr_Username := ''alice'', usr_Name := ''Al'', usr_Role := RoleUser\<rparr>) ''112 119 '' =
     ((None, alice), alice_db)"
  using utf8_alice
  by (simp add: UserRepositoryImpl_Create_def mem_Create_def empty_db_def Let_def zero_User_def
      alice_def alice_db_def tab_def live_def clash_def RoleUser_def)

lemma alice_Register_any:
  assumes "as_userRepo svc = NewUserRepository mem_gorm"
  shows "\<exists>resp. authService_Register mem_libs svc E background (empty_db, f) alice_reg =
     (Inr resp, (alice_db, filter_add_user mem_bloom f ''a@x.io'' ''alice''))"
proof -
  obtain resp where resp: "authService_generateTokenPair mem_libs svc E alice = Inr resp"
    using mem_generate by blast
  have g: "UserRepositoryImpl_GetByEmail mem_gorm background empty_db ''a@x.io'' = (Inl ErrNotFound, empty_db)"
    by (simp add: UserRepositoryImpl_GetByEmail_def empty_db_def live_def)
  show ?thesis
    by (rule exI [of _ resp]) (simp add: authService_Register_def alice_reg_def g alice_hash alice_Create resp assms)
qed

lemma alice_Register:
  "\<exists>resp. authService_Register mem_libs mem_svc E background (empty_db, f) alice_reg =
     (Inr resp, (alice_db, filter_add_user mem_bloom f ''a@x.io'' ''alice''))"
  by (rule alice_Register_any) simp

lemma alice_GetByEmail: "UserRepositoryImpl_GetByEmail mem_gorm background alice_db ''a@x.io'' = (Inr alice, alice_db)"
  by (simp add: UserRepositoryImpl_GetByEmail_def mem_gorm_def alice_db_def empty_db_def live_def tab_def
      column_def) (simp add: alice_def)

lemma alice_Login:
  "\<exists>resp. authService_Login mem_libs mem_svc E background (alice_db, f)
     \<lparr>login_Email = ''a@x.io'', login_Password = ''pw''\<rparr> = (Inr resp, (alice_db, f))"
proof -
  obtain resp where resp: "authService_generateTokenPair mem_libs mem_svc E alice = Inr resp"
    using mem_generate by blast
  have "Compare mem_bcrypt (usr_Password alice) ''pw''"
    using Compare_Hash [OF mem_bcrypt_ok alice_hash] by (simp add: alice_def)
  with resp show ?thesis by (simp add: authService_Login_def alice_GetByEmail)
qed

lemma alice_tbl: "db_tbl mem_rows background alice_db = tab [alice]" "db_tbl mem_rows background empty_db = Map.empty"
  by (simp_all add: db_tbl_def mem_rows_def alice_db_def empty_db_def tab_Nil)

section \<open>Properties\<close>

text \<open>
  C1. Registration and login fit together. After a successful registration, a login with the same
  e-mail and password returns tokens for the row that was created, unless the database fails. If both
  passwords are inputs bcrypt tells apart (\<open>key_ok\<close>: at most 72 bytes and no NUL byte), a login with another
  password returns no tokens; beyond 72 bytes bcrypt compares only the first 72, and the login request
  has no limit.
\<close>

theorem Register_then_Login:
  assumes "db_inv g rows d" and "jwt_ok (lib_jwt L) sig" and "bcrypt_ok (lib_bcrypt L)"
    and "as_userRepo svc = NewUserRepository g"
    and "authService_Register L svc E ctx (d, f) req = (Inr resp, (d1, f1))"
    and "authService_Login L svc E' ctx (d1, f2) \<lparr>login_Email = reg_Email req, login_Password = pw\<rparr>
           = (r, (d2, f3))"
  shows "(pw = reg_Password req \<longrightarrow>
            (\<exists>row resp'. registered (lib_bcrypt L) (env_salt E) req row \<and>
               db_tbl rows ctx d1 (usr_ID row) = Some row \<and>
               r = Inr resp' \<and> authService_generateTokenPair L svc E' row = Inr resp') \<or>
            (\<exists>e. r = Inl e \<and> lib_error e)) \<and>
         (pw \<noteq> reg_Password req \<longrightarrow> key_ok pw \<longrightarrow> key_ok (reg_Password req) \<longrightarrow> \<not> is_ok r)"
proof -
  from impl.Register_spec [OF assms(1) assms(4) assms(2,3,5)] obtain row where
    inv: "db_inv g rows d1" and reg: "registered (lib_bcrypt L) (env_salt E) req row" and
    row: "db_tbl rows ctx d1 (usr_ID row) = Some row" by auto
  have here: "row \<in> ran (db_tbl rows ctx d1)" using row by (rule ranI)
  have em: "usr_Email row = reg_Email req" and h: "Hash (lib_bcrypt L) (env_salt E) (reg_Password req) = Inr (usr_Password row)"
    using reg by (simp_all add: registered_def)
  note cred = credentials_row [OF db_inv_wf [OF inv] here em]
  note spec = impl.Login_spec [OF inv assms(4) assms(2) assms(6)]
  have "is_ok r \<Longrightarrow> Compare (lib_bcrypt L) (usr_Password row) pw"
    using spec by (cases r) (auto simp: cred)
  then have "pw \<noteq> reg_Password req \<longrightarrow> key_ok pw \<longrightarrow> key_ok (reg_Password req) \<longrightarrow> \<not> is_ok r"
    using Compare_other [OF assms(3) h] by blast
  moreover have "pw = reg_Password req \<Longrightarrow> Compare (lib_bcrypt L) (usr_Password row) pw"
    using Compare_Hash [OF assms(3) h] by simp
  ultimately show ?thesis using spec reg row by (cases r) (auto simp: cred)
qed

theorem Register_then_Login_witness:
  "\<exists>resp resp' row.
     authService_Register mem_libs mem_svc mem_env background (empty_db, None) alice_reg
       = (Inr resp, (alice_db, None)) \<and>
     authService_Login mem_libs mem_svc mem_env background (alice_db, None)
       \<lparr>login_Email = ''a@x.io'', login_Password = ''pw''\<rparr> = (Inr resp', (alice_db, None)) \<and>
     registered mem_bcrypt 7 alice_reg row \<and>
     \<not> is_ok (fst (authService_Login mem_libs mem_svc mem_env background (alice_db, None)
       \<lparr>login_Email = ''a@x.io'', login_Password = ''qw''\<rparr>))"
proof -
  obtain resp where reg: "authService_Register mem_libs mem_svc mem_env background (empty_db, None) alice_reg
      = (Inr resp, (alice_db, None))"
    using alice_Register [of mem_env None] by (auto simp: filter_add_user_def)
  obtain resp' where log: "authService_Login mem_libs mem_svc mem_env background (alice_db, None)
       \<lparr>login_Email = reg_Email alice_reg, login_Password = ''pw''\<rparr> = (Inr resp', (alice_db, None))"
    using alice_Login [of mem_env None] by (auto simp: alice_reg_def)
  from Register_then_Login [OF empty_db_inv _ _ _ reg log, of sig_mem]
  have row: "\<exists>row. registered mem_bcrypt 7 alice_reg row"
    by (auto simp: mem_jwt_ok mem_bcrypt_ok mem_env_def alice_reg_def)
  obtain r2 d2 f2 where wrong: "authService_Login mem_libs mem_svc mem_env background (alice_db, None)
       \<lparr>login_Email = reg_Email alice_reg, login_Password = ''qw''\<rparr> = (r2, (d2, f2))" by (metis surj_pair)
  from Register_then_Login [OF empty_db_inv _ _ _ reg wrong, of sig_mem]
  have "\<not> is_ok r2" by (simp add: mem_jwt_ok mem_bcrypt_ok alice_reg_def key_ok_def byte_def)
  with row reg log wrong show ?thesis by (auto simp: alice_reg_def)
qed

text \<open>
  C6. Login on the database repository, on every branch: tokens are returned exactly for a row with
  that e-mail whose hash accepts the password, and they are the tokens of that row; the error
  \<^verbatim>\<open>invalid email or password\<close> means there is no such row; anything else is an error of the database.
  Login changes neither the table nor the filter.
\<close>

theorem Login_correct:
  assumes "db_inv g rows d" and "jwt_ok (lib_jwt L) sig"
    and "as_userRepo svc = NewUserRepository g"
    and "authService_Login L svc E ctx (d, f) req = (r, (d', f'))"
  shows "db_inv g rows d' \<and> db_tbl rows ctx d' = db_tbl rows ctx d \<and> f' = f \<and>
         (case r of
            Inr resp \<Rightarrow>
              \<exists>row. credentials (lib_bcrypt L) (db_tbl rows ctx d) (login_Email req) (login_Password req) row \<and>
                    authService_generateTokenPair L svc E row = Inr resp
          | Inl e \<Rightarrow>
              (e = ErrInvalidCredentials \<and>
                (\<nexists>row. credentials (lib_bcrypt L) (db_tbl rows ctx d) (login_Email req) (login_Password req) row)) \<or>
              lib_error e)"
  using impl.Login_spec [OF assms(1,3,2,4)] .

theorem Login_correct_witness:
  "\<exists>resp row. authService_Login mem_libs mem_svc mem_env background (alice_db, None)
     \<lparr>login_Email = ''a@x.io'', login_Password = ''pw''\<rparr> = (Inr resp, (alice_db, None)) \<and>
   credentials mem_bcrypt (tab [alice]) ''a@x.io'' ''pw'' row"
proof -
  obtain resp where log: "authService_Login mem_libs mem_svc mem_env background (alice_db, None)
     \<lparr>login_Email = ''a@x.io'', login_Password = ''pw''\<rparr> = (Inr resp, (alice_db, None))"
    using alice_Login by blast
  from Login_correct [OF alice_db_inv _ _ log, of sig_mem] log show ?thesis
    by (auto simp: mem_jwt_ok alice_tbl)
qed

text \<open>
  C7. Registration on the database repository, on every branch. Success means the e-mail was free and
  exactly one row was added, under a fresh id, with the requested names, the role \<^verbatim>\<open>user\<close> and the hash
  of the password; both identifiers are in the filter; the tokens are those of that row. Every error
  leaves table and filter as they were, and \<^verbatim>\<open>email already taken\<close> is reported only if it is.
\<close>

theorem Register_correct:
  assumes "db_inv g rows d" and "jwt_ok (lib_jwt L) sig" and "bcrypt_ok (lib_bcrypt L)" and "bloom_ok (lib_bloom L)"
    and "as_userRepo svc = NewUserRepository g"
    and "authService_Register L svc E ctx (d, f) req = (r, (d', f'))"
  shows "db_inv g rows d' \<and>
         (case r of
            Inr resp \<Rightarrow>
              \<not> email_taken (db_tbl rows ctx d) (reg_Email req) \<and>
              filter_grown (lib_bloom L) f [''email:'' @ reg_Email req, ''username:'' @ reg_Username req] f' \<and>
              (\<exists>row. registered (lib_bcrypt L) (env_salt E) req row \<and>
                 db_tbl rows ctx d (usr_ID row) = None \<and>
                 db_tbl rows ctx d' = (db_tbl rows ctx d)(usr_ID row \<mapsto> row) \<and>
                 authService_generateTokenPair L svc E row = Inr resp)
          | Inl e \<Rightarrow>
              db_tbl rows ctx d' = db_tbl rows ctx d \<and> f' = f \<and>
              (e = ErrEmailTaken \<and> email_taken (db_tbl rows ctx d) (reg_Email req) \<or>
               e = Errorf ''create user: '' ErrConflict [] \<or> lib_error e))"
  using impl.Register_spec [OF assms(1,5,2,3,6)] filter_add_user_grown [OF assms(4)]
  by (cases r) auto

theorem Register_correct_witness:
  "\<exists>resp row f'. authService_Register mem_libs mem_svc mem_env background (empty_db, Some (bloom_New mem_bloom 100 0)) alice_reg
     = (Inr resp, (alice_db, Some f')) \<and> Filter_Contains mem_bloom f' ''username:alice'' \<and>
   registered mem_bcrypt 7 alice_reg row \<and> tab [alice] = [usr_ID row \<mapsto> row]"
proof -
  obtain resp f' where reg: "authService_Register mem_libs mem_svc mem_env background
      (empty_db, Some (bloom_New mem_bloom 100 0)) alice_reg = (Inr resp, (alice_db, Some f'))"
    using alice_Register [of mem_env "Some (bloom_New mem_bloom 100 0)"] by (auto simp: filter_add_user_def)
  from Register_correct [OF empty_db_inv _ _ _ _ reg, of sig_mem] reg show ?thesis
    by (auto simp: mem_jwt_ok mem_bcrypt_ok mem_bloom_ok mem_env_def alice_tbl filter_grown_def alice_reg_def)
qed

text \<open>
  C17. The tokens of a response. At any later instant the access token validates to the id, e-mail and
  role of the user it was issued for until (at most one second before) the access expiry, and is
  rejected as expired from the expiry on; the refresh token likewise carries the id until the refresh
  expiry. The response announces the access expiry, in seconds.
\<close>

theorem issued_tokens:
  assumes J: "jwt_ok (lib_jwt L) sig" and utf8: "utf8_User u"
    and resp: "authService_generateTokenPair L svc E u = Inr resp"
  shows "(t + second \<le> env_now E + sint (as_accessExpiry svc) \<longrightarrow>
            (\<exists>c. ValidateToken (lib_jwt L) t (as_jwtSecret svc) (auth_AccessToken resp) = Inr c \<and>
                 cl_UserID c = usr_ID u \<and> cl_Email c = usr_Email u \<and> cl_Role c = usr_Role u)) \<and>
         (env_now E + sint (as_accessExpiry svc) \<le> t \<longrightarrow>
            ValidateToken (lib_jwt L) t (as_jwtSecret svc) (auth_AccessToken resp) = Inl ErrTokenExpired) \<and>
         (t + second \<le> env_now E + sint (as_refreshExpiry svc) \<longrightarrow>
            (\<exists>c. ValidateToken (lib_jwt L) t (as_jwtSecret svc) (auth_RefreshToken resp) = Inr c \<and>
                 cl_UserID c = usr_ID u)) \<and>
         (env_now E + sint (as_refreshExpiry svc) \<le> t \<longrightarrow>
            ValidateToken (lib_jwt L) t (as_jwtSecret svc) (auth_RefreshToken resp) = Inl ErrTokenExpired) \<and>
         auth_ExpiresAt resp = (env_now E + sint (as_accessExpiry svc)) div second"
  using claims_unexpired [OF J] response_tokens [OF J utf8 resp]
  by (auto simp: access_claims_def refresh_claims_def Let_def)

theorem issued_tokens_witness:
  "\<exists>resp c. authService_generateTokenPair mem_libs mem_svc mem_env alice = Inr resp \<and>
     ValidateToken mem_jwt (env_now mem_env) ''s3cret'' (auth_AccessToken resp) = Inr c \<and>
     cl_UserID c = 1 \<and> cl_Email c = ''a@x.io'' \<and> cl_Role c = ''user''"
proof -
  obtain resp where resp: "authService_generateTokenPair mem_libs mem_svc mem_env alice = Inr resp"
    using mem_generate by blast
  from issued_tokens [OF _ utf8_alice resp, of sig_mem "env_now mem_env"] resp show ?thesis
    by (auto simp: mem_jwt_ok mem_svc_def alice_def)
qed

text \<open>
  C19. Refreshing succeeds exactly with an unexpired token signed under the service's secret for a row
  that still exists, and issues tokens for that row as it is now, so a deleted user cannot refresh
  and a changed e-mail or role takes effect. Every failure is the one error the handler expects.
\<close>

theorem RefreshToken_correct:
  assumes "db_inv g rows d" and "jwt_ok (lib_jwt L) sig"
    and "as_userRepo svc = NewUserRepository g"
    and "authService_RefreshToken L svc E ctx (d, f) tok = (r, (d', f'))"
  shows "db_inv g rows d' \<and> db_tbl rows ctx d' = db_tbl rows ctx d \<and> f' = f \<and>
         (case r of
            Inr resp \<Rightarrow>
              \<exists>alg c row. sig (SigningMethodHMAC alg) (as_jwtSecret svc) tok c \<and> unexpired (env_now E) c \<and>
                 db_tbl rows ctx d (cl_UserID c) = Some row \<and>
                 authService_generateTokenPair L svc E row = Inr resp
          | Inl e \<Rightarrow> e = ErrInvalidRefreshToken)"
  using impl.RefreshToken_spec [OF assms(1,3,2,4)] ValidateToken_sound [OF assms(2)]
  by (cases r) (auto, meson)

lemma alice_GetByID: "UserRepositoryImpl_GetByID mem_gorm background alice_db 1 = (Inr alice, alice_db)"
  by (simp add: UserRepositoryImpl_GetByID_def mem_gorm_def alice_db_def empty_db_def tab_def) (simp add: alice_def)

lemma alice_RefreshToken:
  assumes "authService_generateTokenPair mem_libs mem_svc mem_env alice = Inr resp"
  shows "authService_RefreshToken mem_libs mem_svc mem_env background (alice_db, f) (auth_RefreshToken resp)
           = (Inr resp, (alice_db, f))"
proof -
  obtain p where p: "GenerateTokenPair mem_jwt (env_now mem_env) ''s3cret'' 1 ''a@x.io'' ''user''
       900000000000 604800000000000 = Inr p" "auth_RefreshToken resp = tp_RefreshToken p"
    using assms by (auto simp: authService_generateTokenPair_def mem_svc_def alice_def split: sum.splits)
  have "ValidateToken mem_jwt (env_now mem_env) ''s3cret'' (tp_RefreshToken p)
    = Inr (refresh_claims mem_jwt (env_now mem_env) 1 604800000000000)"
    using ValidateToken_signed [OF mem_jwt_ok GenerateTokenPair_signed(2) [OF mem_jwt_ok p(1), unfolded SigningMethodHS256_def]]
    by (simp add: unexpired_def refresh_claims_def mem_jwt_def mem_env_def)
  with p(2) assms show ?thesis
    by (simp add: authService_RefreshToken_def alice_GetByID mem_svc_def refresh_claims_def)
qed

theorem RefreshToken_correct_witness:
  "\<exists>resp alg c. authService_RefreshToken mem_libs mem_svc mem_env background (alice_db, None)
       (auth_RefreshToken resp) = (Inr resp, (alice_db, None)) \<and>
     sig_mem (SigningMethodHMAC alg) ''s3cret'' (auth_RefreshToken resp) c \<and> unexpired (env_now mem_env) c"
proof -
  obtain resp where "authService_generateTokenPair mem_libs mem_svc mem_env alice = Inr resp"
    using mem_generate by blast
  note ref = alice_RefreshToken [OF this, of None]
  from RefreshToken_correct [OF alice_db_inv _ _ ref, of sig_mem] ref show ?thesis
    by (auto simp: mem_jwt_ok mem_svc_def)
qed

text \<open>
  C20. Updating a profile touches one row, the caller's, and in it only the name, the e-mail, the user
  name (each only if the request has one) and the time stamp: id, password hash, role and creation
  time stay. An error leaves the table as it was; \<^verbatim>\<open>not found\<close> means there is no such row.
\<close>

theorem UpdateProfile_correct:
  assumes "db_inv g rows d" and "as_userRepo svc = NewUserRepository g"
    and "authService_UpdateProfile svc ctx (d, f) i req = (r, (d', f'))"
  shows "db_inv g rows d' \<and> f' = f \<and>
         (case r of
            Inr u \<Rightarrow>
              \<exists>old new. db_tbl rows ctx d i = Some old \<and> db_tbl rows ctx d' = (db_tbl rows ctx d)(i \<mapsto> new) \<and>
                no_times u = no_times new \<and>
                usr_ID new = usr_ID old \<and> usr_Password new = usr_Password old \<and>
                usr_Role new = usr_Role old \<and> usr_CreatedAt new = usr_CreatedAt old \<and>
                usr_Name new = (if upd_Name req = [] then usr_Name old else upd_Name req) \<and>
                usr_Email new = (if upd_Email req = [] then usr_Email old else upd_Email req) \<and>
                usr_Username new = (if upd_Username req = [] then usr_Username old else upd_Username req)
          | Inl e \<Rightarrow> db_tbl rows ctx d' = db_tbl rows ctx d \<and>
              (errors_Is e ErrNotFound \<and> db_tbl rows ctx d i = None \<or> lib_error e))"
proof -
  note U = impl.UpdateProfile_spec [OF assms]
  show ?thesis
  proof (cases r)
    case (Inl e)
    with U show ?thesis by simp
  next
    case (Inr u)
    with U obtain old t where "db_tbl rows ctx d i = Some old" "no_times u = no_times (apply_profile req old)"
      "db_tbl rows ctx d' = (db_tbl rows ctx d)(i \<mapsto> (apply_profile req old)\<lparr>usr_UpdatedAt := t\<rparr>)" by auto
    moreover have "no_times (v\<lparr>usr_UpdatedAt := t\<rparr>) = no_times v" for v by (simp add: no_times_eq_iff)
    ultimately show ?thesis using U Inr
      by (auto intro!: exI [of _ "(apply_profile req old)\<lparr>usr_UpdatedAt := t\<rparr>"])
  qed
qed

lemma bo_Update:
  "UserRepositoryImpl_Update mem_gorm background alice_db
     (apply_profile \<lparr>upd_Name = ''Bo'', upd_Email = [], upd_Username = []\<rparr> alice) =
   ((None, alice\<lparr>usr_Name := ''Bo''\<rparr>), alice_db(DB := [alice\<lparr>usr_Name := ''Bo''\<rparr>, alice]))"
proof -
  have n: "update_row [(''name'', ''Bo''), (''email'', usr_Email alice), (''username'', usr_Username alice)] alice
             = alice\<lparr>usr_Name := ''Bo''\<rparr>"
    by (simp add: update_row_def)
  have u: "utf8_User (alice\<lparr>usr_Name := ''Bo''\<rparr>)"
    using utf8_alice by (simp add: utf8_User_def valid_utf8_ascii byte_def)
  have p: "apply_profile \<lparr>upd_Name = ''Bo'', upd_Email = [], upd_Username = []\<rparr> alice = alice\<lparr>usr_Name := ''Bo''\<rparr>"
    by (simp add: apply_profile_def)
  have n': "update_row [(''name'', ''Bo''), (''email'', usr_Email alice), (''username'', usr_Username alice)]
              (alice\<lparr>usr_Name := ''Bo''\<rparr>) = alice\<lparr>usr_Name := ''Bo''\<rparr>"
    by (simp add: update_row_def)
  show ?thesis
    by (simp add: UserRepositoryImpl_Update_def p mem_Updates_def alice_db_def tab_Cons tab_Nil live_single
        clash_def Let_def n n' u)
qed

theorem UpdateProfile_correct_witness:
  "\<exists>u d'. authService_UpdateProfile mem_svc background (alice_db, None) 1
       \<lparr>upd_Name = ''Bo'', upd_Email = [], upd_Username = []\<rparr> = (Inr u, (d', None :: string list Filter option)) \<and>
     usr_Name u = ''Bo'' \<and> usr_Role u = ''user''"
proof -
  let ?req = "\<lparr>upd_Name = ''Bo'', upd_Email = [], upd_Username = []\<rparr>"
  obtain u d' where up: "authService_UpdateProfile mem_svc background (alice_db, None :: string list Filter option) 1 ?req
      = (Inr u, (d', None))"
    by (simp add: authService_UpdateProfile_def alice_GetByID bo_Update)
  from UpdateProfile_correct [OF alice_db_inv _ up] up show ?thesis
    by (auto simp: alice_tbl tab_Cons alice_def no_times_eq_iff)
qed

end
