(* ===== verification/CachingRepository.thy ===== *)
theory CachingRepository
  imports UserRepository Cache
begin

text \<open>
  \<^verbatim>\<open>internal/repository/user_cache.go\<close>: a repository that wraps another with a cache of users under
  three keys (id, e-mail, user name). Its state is the state of the wrapped repository and of the
  cache. \<open>coherent m may\<close> says that every user the cache may return for one of these keys is the row
  of the table \<open>m\<close> for it, up to password and time stamps.

  Inside the locale \<open>user_repository\<close> the reads are proved to keep coherence, so that the wrapper is
  again a \<open>user_reader\<close> (a sublocale; on the database repository it is \<open>impl.caching\<close>).
\<close>

section \<open>Keys\<close>

definition userIDCacheKey :: "int64 \<Rightarrow> string" where
  "userIDCacheKey i = ''user:id:'' @ show_int (sint i)"

definition userEmailCacheKey :: "string \<Rightarrow> string" where
  "userEmailCacheKey email = ''user:email:'' @ email"

definition userUsernameCacheKey :: "string \<Rightarrow> string" where
  "userUsernameCacheKey username = ''user:username:'' @ username"

lemma sint_inject [simp]: "sint (a :: int64) = sint b \<longleftrightarrow> a = b"
  using signed_word_eqI by blast

lemma cache_key_inject [simp]:
  "userIDCacheKey i = userIDCacheKey j \<longleftrightarrow> i = j"
  "userEmailCacheKey e = userEmailCacheKey e' \<longleftrightarrow> e = e'"
  "userUsernameCacheKey n = userUsernameCacheKey n' \<longleftrightarrow> n = n'"
  by (simp_all add: userIDCacheKey_def userEmailCacheKey_def userUsernameCacheKey_def)

lemma cache_key_distinct [simp]:
  "userIDCacheKey i \<noteq> userEmailCacheKey e" "userEmailCacheKey e \<noteq> userIDCacheKey i"
  "userIDCacheKey i \<noteq> userUsernameCacheKey n" "userUsernameCacheKey n \<noteq> userIDCacheKey i"
  "userEmailCacheKey e \<noteq> userUsernameCacheKey n" "userUsernameCacheKey n \<noteq> userEmailCacheKey e"
  by (simp_all add: userIDCacheKey_def userEmailCacheKey_def userUsernameCacheKey_def)

section \<open>Operations\<close>

definition cacheSet :: "'c redis \<Rightarrow> 'c \<Rightarrow> string \<Rightarrow> User \<Rightarrow> duration \<Rightarrow> 'c" where
  "cacheSet R c key val ttl = snd (RedisCache_Set R marshal_User c key val ttl)"

definition cacheDel :: "'c redis \<Rightarrow> 'c \<Rightarrow> string list \<Rightarrow> 'c" where
  "cacheDel R c keys = snd (RedisCache_Delete R c keys)"

definition cacheUser :: "'c redis \<Rightarrow> duration \<Rightarrow> 'c \<Rightarrow> User \<Rightarrow> 'c" where
  "cacheUser R ttl c user =
     (let safe = user\<lparr>usr_Password := []\<rparr>;
          c1 = cacheSet R c (userIDCacheKey (usr_ID safe)) safe ttl;
          c2 = cacheSet R c1 (userEmailCacheKey (usr_Email safe)) safe ttl
      in if usr_Username safe \<noteq> []
         then cacheSet R c2 (userUsernameCacheKey (usr_Username safe)) safe ttl else c2)"

definition CachingUserRepository_Create ::
    "'s UserRepository \<Rightarrow> 'c redis \<Rightarrow> duration \<Rightarrow> go_context \<Rightarrow> 's \<times> 'c \<Rightarrow> User \<Rightarrow> string
     \<Rightarrow> (error option \<times> User) \<times> ('s \<times> 'c)" where
  "CachingUserRepository_Create U R ttl ctx w user passwordHash =
     (case w of (s, c) \<Rightarrow>
        case repo_Create U ctx s user passwordHash of
          ((Some e, user'), s') \<Rightarrow> ((Some e, user'), (s', c))
        | ((None, user'), s') \<Rightarrow> ((None, user'), (s', cacheUser R ttl c user')))"

text \<open>
  The three lookups share one shape in the source: read the cache under \<open>key\<close>; on a miss or an error
  of any kind, ask the wrapped repository and cache what it returns.
\<close>

definition cache_aside ::
    "'c redis \<Rightarrow> duration \<Rightarrow> string \<Rightarrow> ('s \<Rightarrow> (error + User) \<times> 's) \<Rightarrow> 's \<times> 'c
     \<Rightarrow> (error + User) \<times> ('s \<times> 'c)" where
  "cache_aside R ttl key underlying w =
     (case w of (s, c) \<Rightarrow>
        case RedisCache_Get R unmarshal_User c key of
          (Inr cached, c') \<Rightarrow> (Inr cached, (s, c'))
        | (Inl _, c') \<Rightarrow>
            (case underlying s of
               (Inl e, s') \<Rightarrow> (Inl e, (s', c'))
             | (Inr user, s') \<Rightarrow> (Inr user, (s', cacheUser R ttl c' user))))"

definition CachingUserRepository_GetByID ::
    "'s UserRepository \<Rightarrow> 'c redis \<Rightarrow> duration \<Rightarrow> go_context \<Rightarrow> 's \<times> 'c \<Rightarrow> int64
     \<Rightarrow> (error + User) \<times> ('s \<times> 'c)" where
  "CachingUserRepository_GetByID U R ttl ctx w i =
     cache_aside R ttl (userIDCacheKey i) (\<lambda>s. repo_GetByID U ctx s i) w"

definition CachingUserRepository_GetByEmail ::
    "'s UserRepository \<Rightarrow> 'c redis \<Rightarrow> duration \<Rightarrow> go_context \<Rightarrow> 's \<times> 'c \<Rightarrow> string
     \<Rightarrow> (error + User) \<times> ('s \<times> 'c)" where
  "CachingUserRepository_GetByEmail U R ttl ctx w email =
     cache_aside R ttl (userEmailCacheKey email) (\<lambda>s. repo_GetByEmail U ctx s email) w"

definition CachingUserRepository_GetByUsername ::
    "'s UserRepository \<Rightarrow> 'c redis \<Rightarrow> duration \<Rightarrow> go_context \<Rightarrow> 's \<times> 'c \<Rightarrow> string
     \<Rightarrow> (error + User) \<times> ('s \<times> 'c)" where
  "CachingUserRepository_GetByUsername U R ttl ctx w username =
     cache_aside R ttl (userUsernameCacheKey username) (\<lambda>s. repo_GetByUsername U ctx s username) w"

definition CachingUserRepository_Update ::
    "'s UserRepository \<Rightarrow> 'c redis \<Rightarrow> duration \<Rightarrow> go_context \<Rightarrow> 's \<times> 'c \<Rightarrow> User
     \<Rightarrow> (error option \<times> User) \<times> ('s \<times> 'c)" where
  "CachingUserRepository_Update U R ttl ctx w user =
     (case w of (s, c) \<Rightarrow>
        case repo_Update U ctx s user of
          ((Some e, user'), s') \<Rightarrow> ((Some e, user'), (s', c))
        | ((None, user'), s') \<Rightarrow> ((None, user'), (s', cacheUser R ttl c user')))"

definition CachingUserRepository_Delete ::
    "'s UserRepository \<Rightarrow> 'c redis \<Rightarrow> duration \<Rightarrow> go_context \<Rightarrow> 's \<times> 'c \<Rightarrow> int64
     \<Rightarrow> error option \<times> ('s \<times> 'c)" where
  "CachingUserRepository_Delete U R ttl ctx w i =
     (case w of (s, c) \<Rightarrow>
        case repo_GetByID U ctx s i of
          (r, s1) \<Rightarrow>
            let c1 = (case r of Inr user \<Rightarrow> cacheDel R c [userEmailCacheKey (usr_Email user)] | Inl _ \<Rightarrow> c)
            in case repo_Delete U ctx s1 i of
                 (Some e, s2) \<Rightarrow> (Some e, (s2, c1))
               | (None, s2) \<Rightarrow> (None, (s2, cacheDel R c1 [userIDCacheKey i])))"

definition CachingUserRepository_List ::
    "'s UserRepository \<Rightarrow> go_context \<Rightarrow> 's \<times> 'c \<Rightarrow> int \<Rightarrow> int \<Rightarrow> (error + User list) \<times> ('s \<times> 'c)" where
  "CachingUserRepository_List U ctx w offset limit =
     (case w of (s, c) \<Rightarrow> case repo_List U ctx s offset limit of (r, s') \<Rightarrow> (r, (s', c)))"

definition CachingUserRepository_AllEmailsAndUsernames ::
    "'s UserRepository \<Rightarrow> go_context \<Rightarrow> 's \<times> 'c \<Rightarrow> (error + string list \<times> string list) \<times> ('s \<times> 'c)" where
  "CachingUserRepository_AllEmailsAndUsernames U ctx w =
     (case w of (s, c) \<Rightarrow> case repo_AllEmailsAndUsernames U ctx s of (r, s') \<Rightarrow> (r, (s', c)))"

definition NewCachingUserRepository ::
    "'s UserRepository \<Rightarrow> 'c redis \<Rightarrow> duration \<Rightarrow> ('s \<times> 'c) UserRepository" where
  "NewCachingUserRepository U R ttl =
     \<lparr>repo_Create = CachingUserRepository_Create U R ttl,
      repo_GetByID = CachingUserRepository_GetByID U R ttl,
      repo_GetByEmail = CachingUserRepository_GetByEmail U R ttl,
      repo_GetByUsername = CachingUserRepository_GetByUsername U R ttl,
      repo_Update = CachingUserRepository_Update U R ttl,
      repo_Delete = CachingUserRepository_Delete U R ttl,
      repo_List = CachingUserRepository_List U,
      repo_AllEmailsAndUsernames = CachingUserRepository_AllEmailsAndUsernames U\<rparr>"

lemma NewCachingUserRepository_simps [simp]:
  "repo_Create (NewCachingUserRepository U R ttl) = CachingUserRepository_Create U R ttl"
  "repo_GetByID (NewCachingUserRepository U R ttl) = CachingUserRepository_GetByID U R ttl"
  "repo_GetByEmail (NewCachingUserRepository U R ttl) = CachingUserRepository_GetByEmail U R ttl"
  "repo_GetByUsername (NewCachingUserRepository U R ttl) = CachingUserRepository_GetByUsername U R ttl"
  "repo_Update (NewCachingUserRepository U R ttl) = CachingUserRepository_Update U R ttl"
  "repo_Delete (NewCachingUserRepository U R ttl) = CachingUserRepository_Delete U R ttl"
  "repo_List (NewCachingUserRepository U R ttl) = CachingUserRepository_List U"
  "repo_AllEmailsAndUsernames (NewCachingUserRepository U R ttl) =
     CachingUserRepository_AllEmailsAndUsernames U"
  by (simp_all add: NewCachingUserRepository_def)

section \<open>What is stored\<close>

definition stored_User :: "User \<Rightarrow> User" where
  "stored_User u =
     u\<lparr>usr_Password := [], usr_Email := utf8_fix (usr_Email u),
       usr_Username := utf8_fix (usr_Username u), usr_Name := utf8_fix (usr_Name u),
       usr_Role := utf8_fix (usr_Role u)\<rparr>"

lemma codec_User: "codec marshal_User unmarshal_User stored_User"
  by (simp add: codec_def unmarshal_marshal_User stored_User_def)

lemma stored_User_utf8: "utf8_User u \<Longrightarrow> stored_User u = safe_User u"
  by (cases u) (simp add: stored_User_def safe_User_def utf8_User_def valid_utf8_def)

abbreviation may_user :: "'c kv \<Rightarrow> 'c \<Rightarrow> string \<Rightarrow> User \<Rightarrow> bool" where
  "may_user kv c \<equiv> may_read kv unmarshal_User c"

lemma cacheSet_may:
  assumes "redis_ok R kv" "may_user kv (cacheSet R c k u ttl) k' w"
  shows "may_user kv c k' w \<or> k' = k \<and> w = stored_User u"
  using redis.put_adds [OF conjI [OF assms(1) codec_User] _ assms(2), of c k u ttl]
  by (metis cacheSet_def prod.collapse)

lemma cacheDel_may:
  assumes "redis_ok R kv" "may_user kv (cacheDel R c ks) k w"
  shows "may_user kv c k w"
  using redis.del_keeps [OF conjI [OF assms(1) codec_User], of c ks] assms(2)
  by (metis cacheDel_def prod.collapse)

text \<open>Everything the cache may return after \<open>cacheUser\<close> was there before, or is that user.\<close>

lemma cacheUser_may:
  assumes "redis_ok R kv" "may_user kv (cacheUser R ttl c u) k w"
  shows "may_user kv c k w \<or>
         w = stored_User u \<and>
         k \<in> {userIDCacheKey (usr_ID u), userEmailCacheKey (usr_Email u), userUsernameCacheKey (usr_Username u)}"
proof -
  have eq: "stored_User (u\<lparr>usr_Password := []\<rparr>) = stored_User u" by (simp add: stored_User_def)
  show ?thesis
    using assms(2) unfolding cacheUser_def Let_def
    by (auto dest!: cacheSet_may [OF assms(1)] simp: eq split: if_splits)
qed

section \<open>Coherence\<close>

definition same_public :: "User \<Rightarrow> User \<Rightarrow> bool" where
  "same_public u v \<longleftrightarrow> no_times (safe_User u) = no_times (safe_User v)"

definition entry_ok :: "table \<Rightarrow> string \<Rightarrow> User \<Rightarrow> bool" where
  "entry_ok m k v \<longleftrightarrow>
     (\<forall>i. k = userIDCacheKey i \<longrightarrow> (\<exists>row \<in> ran m. usr_ID row = i \<and> same_public v row)) \<and>
     (\<forall>e. k = userEmailCacheKey e \<longrightarrow> (\<exists>row \<in> ran m. usr_Email row = e \<and> same_public v row)) \<and>
     (\<forall>n. k = userUsernameCacheKey n \<longrightarrow> (\<exists>row \<in> ran m. usr_Username row = n \<and> same_public v row))"

definition coherent :: "table \<Rightarrow> (string \<Rightarrow> User \<Rightarrow> bool) \<Rightarrow> bool" where
  "coherent m may \<longleftrightarrow> (\<forall>k v. may k v \<longrightarrow> entry_ok m k v)"

lemma same_public_simps:
  "same_public u v \<longleftrightarrow>
     usr_ID u = usr_ID v \<and> usr_Email u = usr_Email v \<and> usr_Username u = usr_Username v \<and>
     usr_Name u = usr_Name v \<and> usr_Role u = usr_Role v"
  by (auto simp: same_public_def no_times_eq_iff)

lemma same_public_refl [simp]: "same_public u u"
  by (simp add: same_public_def)

lemma same_public_safe [simp]:
  "same_public (safe_User u) v = same_public u v" "same_public u (safe_User v) = same_public u v"
  by (simp_all add: same_public_def)

lemma same_public_utf8: "same_public u v \<Longrightarrow> utf8_User u = utf8_User v"
  by (simp add: same_public_simps utf8_User_def)

lemma no_times_same_public: "no_times u = no_times v \<Longrightarrow> same_public u v"
  by (simp add: same_public_simps no_times_eq_iff)

lemma coherent_mono: "coherent m may \<Longrightarrow> (\<And>k v. may' k v \<Longrightarrow> may k v) \<Longrightarrow> coherent m may'"
  by (auto simp: coherent_def)

text \<open>A new row makes no entry stale.\<close>

lemma coherent_add: "coherent m may \<Longrightarrow> m i = None \<Longrightarrow> coherent (m(i \<mapsto> row)) may"
  unfolding coherent_def entry_ok_def by (simp add: ran_map_upd)

text \<open>Caching a user that is a row of the table keeps coherence.\<close>

lemma coherent_cacheUser:
  assumes "redis_ok R kv" "coherent m (may_user kv c)"
    and "row \<in> ran m" "same_public u row" "utf8_User row"
  shows "coherent m (may_user kv (cacheUser R ttl c u))"
proof -
  have st: "stored_User u = safe_User u"
    using assms(4,5) by (simp add: stored_User_utf8 same_public_utf8)
  have "entry_ok m k v" if "may_user kv (cacheUser R ttl c u) k v" for k v
    using cacheUser_may [OF assms(1) that] assms(2-4)
    by (auto simp: coherent_def entry_ok_def st same_public_simps)
  then show ?thesis by (simp add: coherent_def)
qed

definition cache_inv ::
    "('s \<Rightarrow> bool) \<Rightarrow> ('s \<Rightarrow> table) \<Rightarrow> 'c redis \<Rightarrow> 'c kv \<Rightarrow> 's \<times> 'c \<Rightarrow> bool" where
  "cache_inv I tbl R kv w \<longleftrightarrow>
     I (fst w) \<and> redis_ok R kv \<and> coherent (tbl (fst w)) (may_user kv (snd w))"

text \<open>One lookup, for any of the three keys.\<close>

lemma cache_aside_ok:
  assumes inv: "I s" and wf: "table_wf (tbl s)" and R: "redis_ok R kv"
    and coh: "coherent (tbl s) (may_user kv c)"
    and fits: "\<And>v. entry_ok (tbl s) key v \<Longrightarrow> \<exists>row \<in> ran (tbl s). P row \<and> same_public v row"
    and under: "\<And>r s'. underlying s = (r, s') \<Longrightarrow> I s' \<and> tbl s' = tbl s \<and> lookup_ok (=) (tbl s) P r"
    and res: "cache_aside R ttl key underlying (s, c) = (r, w')"
  shows "cache_inv I tbl R kv w' \<and> tbl (fst w') = tbl s \<and> lookup_ok same_public (tbl s) P r"
proof -
  obtain g c1 where g: "RedisCache_Get R unmarshal_User c key = (g, c1)" by force
  have R': "redis_ok R kv \<and> codec marshal_User unmarshal_User stored_User"
    using R codec_User by simp
  have coh1: "coherent (tbl s) (may_user kv c1)"
    using coherent_mono [OF coh] redis.get_keeps [OF R' g] by blast
  show ?thesis
  proof (cases g)
    case (Inr cached)
    have "may_user kv c key cached" using g Inr redis.get_may [OF R'] by blast
    with coh have "entry_ok (tbl s) key cached" by (simp add: coherent_def)
    with fits coh1 g Inr inv R res show ?thesis
      by (auto simp: cache_aside_def cache_inv_def lookup_ok_def)
  next
    case (Inl e)
    obtain r0 s1 where u: "underlying s = (r0, s1)" by force
    note U = under [OF u]
    show ?thesis
    proof (cases r0)
      case (Inl e')
      with g \<open>g = Inl e\<close> u res have "r = Inl e'" "w' = (s1, c1)" by (simp_all add: cache_aside_def)
      with U coh1 R Inl show ?thesis by (simp add: cache_inv_def lookup_ok_def)
    next
      case (Inr user)
      with g \<open>g = Inl e\<close> u res have "r = Inr user" "w' = (s1, cacheUser R ttl c1 user)"
        by (simp_all add: cache_aside_def)
      moreover from U Inr have row: "user \<in> ran (tbl s)" "P user" by (auto simp: lookup_ok_def)
      moreover have "utf8_User user" using row(1) wf by (auto simp: ran_def dest: table_wf_utf8)
      ultimately show ?thesis
        using U R coherent_cacheUser [OF R coh1 row(1) same_public_refl]
        by (auto simp: cache_inv_def lookup_ok_def)
    qed
  qed
qed

context user_repository
begin

lemma caching_GetByID:
  assumes "cache_inv inv tbl R kv w" "CachingUserRepository_GetByID repo R ttl ctx w i = (r, w')"
  shows "cache_inv inv tbl R kv w' \<and> tbl (fst w') = tbl (fst w) \<and>
         lookup_ok same_public (tbl (fst w)) (\<lambda>u. usr_ID u = i) r"
  using assms unfolding CachingUserRepository_GetByID_def cache_inv_def
  by (cases w) (rule cache_aside_ok [where I = inv and tbl = tbl, unfolded cache_inv_def],
      auto simp: entry_ok_def tbl_wf dest: GetByID)

lemma caching_GetByEmail:
  assumes "cache_inv inv tbl R kv w" "CachingUserRepository_GetByEmail repo R ttl ctx w e = (r, w')"
  shows "cache_inv inv tbl R kv w' \<and> tbl (fst w') = tbl (fst w) \<and>
         lookup_ok same_public (tbl (fst w)) (\<lambda>u. usr_Email u = e) r"
  using assms unfolding CachingUserRepository_GetByEmail_def cache_inv_def
  by (cases w) (rule cache_aside_ok [where I = inv and tbl = tbl, unfolded cache_inv_def],
      auto simp: entry_ok_def tbl_wf dest: GetByEmail)

lemma caching_GetByUsername:
  assumes "cache_inv inv tbl R kv w" "CachingUserRepository_GetByUsername repo R ttl ctx w n = (r, w')"
  shows "cache_inv inv tbl R kv w' \<and> tbl (fst w') = tbl (fst w) \<and>
         lookup_ok same_public (tbl (fst w)) (\<lambda>u. usr_Username u = n) r"
  using assms unfolding CachingUserRepository_GetByUsername_def cache_inv_def
  by (cases w) (rule cache_aside_ok [where I = inv and tbl = tbl, unfolded cache_inv_def],
      auto simp: entry_ok_def tbl_wf dest: GetByUsername)

lemma caching_List:
  assumes "cache_inv inv tbl R kv w" "CachingUserRepository_List repo ctx w off lim = (r, w')"
  shows "cache_inv inv tbl R kv w' \<and> tbl (fst w') = tbl (fst w) \<and>
         (\<forall>us. r = Inr us \<longrightarrow> 0 \<le> off \<longrightarrow> 0 < lim \<longrightarrow>
            (\<exists>xs. rows_by_id (tbl (fst w)) xs \<and> us = take (nat lim) (drop (nat off) xs)))"
  using assms List unfolding CachingUserRepository_List_def cache_inv_def
  by (cases w) (auto split: prod.splits)

text \<open>Creating a user through the wrapper keeps coherence.\<close>

lemma caching_Create:
  assumes "cache_inv inv tbl R kv w" "usr_ID u = 0"
    and "CachingUserRepository_Create repo R ttl ctx w u h = ((cr, u'), w')"
  shows "cache_inv inv tbl R kv w' \<and>
         (case cr of
            None \<Rightarrow> \<exists>row. created_row (tbl (fst w)) u h u' row \<and>
                     tbl (fst w') = (tbl (fst w))(usr_ID u' \<mapsto> row)
          | Some e \<Rightarrow> tbl (fst w') = tbl (fst w) \<and> (e = ErrConflict \<or> lib_error e))"
proof -
  obtain s c where w: "w = (s, c)" by force
  from assms(1) w have s: "inv s" and R: "redis_ok R kv" and coh: "coherent (tbl s) (may_user kv c)"
    by (simp_all add: cache_inv_def)
  obtain cr0 u0 s0 where c: "repo_Create repo ctx s u h = ((cr0, u0), s0)" by (metis surj_pair)
  note C = Create [OF s assms(2) c]
  from c w assms(3) have eq: "cr0 = cr" "u0 = u'"
    "w' = (s0, case cr of None \<Rightarrow> cacheUser R ttl c u' | Some _ \<Rightarrow> c)"
    by (auto simp: CachingUserRepository_Create_def split: option.splits)
  show ?thesis
  proof (cases cr)
    case (Some e)
    with C eq coh R w show ?thesis by (simp add: cache_inv_def)
  next
    case None
    with C eq obtain row where row: "created_row (tbl s) u h u' row" "tbl s0 = (tbl s)(usr_ID u' \<mapsto> row)"
      "inv s0" by auto
    have fresh: "tbl s (usr_ID u') = None" using row(1) by (simp add: created_row_def)
    have "coherent (tbl s0) (may_user kv c)"
      unfolding row(2) by (rule coherent_add [OF coh fresh])
    moreover have "row \<in> ran (tbl s0)" using row(2) by (auto simp: ran_def)
    moreover have "same_public u' row"
      using row(1) by (simp add: created_row_def no_times_same_public)
    moreover have "utf8_User row" using row(2,3) tbl_wf table_wf_utf8 by (metis fun_upd_same)
    ultimately show ?thesis
      using None eq row R w coherent_cacheUser [OF R] by (auto simp: cache_inv_def)
  qed
qed

end

sublocale user_repository \<subseteq>
  caching: user_reader "NewCachingUserRepository repo R ttl" ctx "cache_inv inv tbl R kv"
    "\<lambda>w. tbl (fst w)" same_public
  for R :: "'c redis" and ttl kv
  by (unfold_locales;
      (rule caching_GetByID | rule caching_GetByEmail | rule caching_GetByUsername
        | rule caching_List | (rule tbl_wf, simp add: cache_inv_def)); simp)

text \<open>
  The interpretation \<open>impl\<close> of the database repository now also provides \<open>impl.caching\<close>: the
  contract of \<open>user_reader\<close> for \<open>NewCachingUserRepository (NewUserRepository g) R ttl\<close>.
\<close>

end
