(* ===== verification/UserService.thy ===== *)
theory UserService
  imports CachingRepository Bloom
begin

text \<open>
  \<^verbatim>\<open>internal/service/user.go\<close>: listing, deleting and the availability check. The service works on a
  repository and on the Bloom filter it shares with the authentication service; the server passes it
  the caching repository. \<open>covers B fl m\<close> says that the filter knows every e-mail and every user name
  of the table \<open>m\<close>: with it the check's shortcut (an identifier the filter does not know is
  available) is right.
\<close>

record 's userServiceImpl =
  us_userRepo :: "'s UserRepository"

definition NewUserService :: "'s UserRepository \<Rightarrow> 's userServiceImpl" where
  "NewUserService userRepo = \<lparr>us_userRepo = userRepo\<rparr>"

lemma NewUserService_repo [simp]: "us_userRepo (NewUserService repo) = repo"
  by (simp add: NewUserService_def)

section \<open>Operations\<close>

definition userServiceImpl_List ::
    "'s userServiceImpl \<Rightarrow> go_context \<Rightarrow> 's \<Rightarrow> int \<Rightarrow> int \<Rightarrow> (error + User list) \<times> 's" where
  "userServiceImpl_List svc ctx s offset limit =
     (case repo_List (us_userRepo svc) ctx s offset limit of
        (Inl e, s') \<Rightarrow> (Inl (Errorf ''list users: '' e []), s')
      | (Inr users, s') \<Rightarrow> (Inr users, s'))"

definition userServiceImpl_Delete ::
    "'s userServiceImpl \<Rightarrow> go_context \<Rightarrow> 's \<Rightarrow> int64 \<Rightarrow> error option \<times> 's" where
  "userServiceImpl_Delete svc ctx s i =
     (case repo_Delete (us_userRepo svc) ctx s i of
        (Some e, s') \<Rightarrow>
          if errors_Is e ErrNotFound then (Some ErrNotFound, s')
          else (Some (Errorf (''delete user '' @ show_int (sint i) @ '': '') e []), s')
      | (None, s') \<Rightarrow> (None, s'))"

definition userServiceImpl_CheckAvailability ::
    "'b bloomlib \<Rightarrow> 's userServiceImpl \<Rightarrow> go_context \<Rightarrow> 's \<times> 'b Filter \<Rightarrow> string \<Rightarrow> string
     \<Rightarrow> (error + bool \<times> bool) \<times> ('s \<times> 'b Filter)" where
  "userServiceImpl_CheckAvailability B svc ctx st email username =
     (case st of (s, fl) \<Rightarrow>
      case (if email \<noteq> [] then
              if Filter_Contains B fl (''email:'' @ email) then
                (case repo_GetByEmail (us_userRepo svc) ctx s email of
                   (Inr _, s1) \<Rightarrow> (Inr False, s1)
                 | (Inl e, s1) \<Rightarrow>
                     if \<not> errors_Is e ErrNotFound
                     then (Inl (Errorf ''check email availability: '' e []), s1)
                     else (Inr True, s1))
              else (Inr True, s)
            else (Inr True, s)) of
        (Inl e, s1) \<Rightarrow> (Inl e, (s1, fl))
      | (Inr emailAvail, s1) \<Rightarrow>
          (case (if username \<noteq> [] then
                   if Filter_Contains B fl (''username:'' @ username) then
                     (case repo_GetByUsername (us_userRepo svc) ctx s1 username of
                        (Inr _, s2) \<Rightarrow> (Inr False, s2)
                      | (Inl e, s2) \<Rightarrow>
                          if \<not> errors_Is e ErrNotFound
                          then (Inl (Errorf ''check username availability: '' e []), s2)
                          else (Inr True, s2))
                   else (Inr True, s1)
                 else (Inr True, s1)) of
             (Inl e, s2) \<Rightarrow> (Inl e, (s2, fl))
           | (Inr usernameAvail, s2) \<Rightarrow> (Inr (emailAvail, usernameAvail), (s2, fl))))"

section \<open>The filter covers the table\<close>

definition covers :: "'b bloomlib \<Rightarrow> 'b Filter \<Rightarrow> table \<Rightarrow> bool" where
  "covers B fl m \<longleftrightarrow>
     (\<forall>u \<in> ran m. Filter_Contains B fl (''email:'' @ usr_Email u) \<and>
                   Filter_Contains B fl (''username:'' @ usr_Username u))"

lemma covers_email: "covers B fl m \<Longrightarrow> email_taken m e \<Longrightarrow> Filter_Contains B fl (''email:'' @ e)"
  by (auto simp: covers_def email_taken_def)

lemma covers_username:
  "covers B fl m \<Longrightarrow> username_taken m n \<Longrightarrow> Filter_Contains B fl (''username:'' @ n)"
  by (auto simp: covers_def username_taken_def)

lemma covers_remove: "covers B fl m \<Longrightarrow> covers B fl (m(i := None))"
  by (auto simp: covers_def ran_def split: if_splits)

text \<open>Adding the identifiers of a new row to the filter keeps the table covered.\<close>

lemma covers_add:
  assumes "bloom_ok B" "covers B fl m" "m i = None"
  shows "covers B (Filter_Add B (Filter_Add B fl (''email:'' @ usr_Email row)) (''username:'' @ usr_Username row))
           (m(i \<mapsto> row))"
  using assms(2) unfolding covers_def
  by (simp add: ran_map_upd assms(3) filter.contains_add [OF assms(1)] filter.contains_keep [OF assms(1)])

text \<open>Seeding an empty filter with two lists of identifiers covers every table they come from.\<close>

lemma covers_foldl:
  assumes "bloom_ok B" and "\<And>u. u \<in> ran m \<Longrightarrow> usr_Email u \<in> set es \<and> usr_Username u \<in> set us"
  shows "covers B (foldl (\<lambda>f u. Filter_Add B f (''username:'' @ u))
                     (foldl (\<lambda>f e. Filter_Add B f (''email:'' @ e)) fl es) us) m"
proof -
  have fold: "foldl (\<lambda>f x. Filter_Add B f (p @ x)) f0 xs = foldl (Filter_Add B) f0 (map ((@) p) xs)"
    for p f0 and xs :: "string list"
    by (induction xs arbitrary: f0) simp_all
  show ?thesis
    unfolding covers_def fold
    using assms(2) filter.contains_foldl [OF assms(1)] filter.keep_foldl [OF assms(1)] by simp
qed

section \<open>Contracts of the operations\<close>

context user_reader
begin

lemma email_lookup:
  "lookup_ok view m (\<lambda>u. usr_Email u = e) (Inr u) \<Longrightarrow> email_taken m e"
  "lookup_ok view m (\<lambda>u. usr_Email u = e) (Inl er) \<Longrightarrow> errors_Is er ErrNotFound \<Longrightarrow> \<not> email_taken m e"
  by (auto simp: lookup_ok_def email_taken_def)

lemma username_lookup:
  "lookup_ok view m (\<lambda>u. usr_Username u = n) (Inr u) \<Longrightarrow> username_taken m n"
  "lookup_ok view m (\<lambda>u. usr_Username u = n) (Inl er) \<Longrightarrow> errors_Is er ErrNotFound \<Longrightarrow> \<not> username_taken m n"
  by (auto simp: lookup_ok_def username_taken_def)

lemma email_stage:
  assumes inv: "inv s" and cov: "covers B fl (tbl s)"
    and res: "(if email \<noteq> [] then
              if Filter_Contains B fl (''email:'' @ email) then
                (case repo_GetByEmail repo ctx s email of
                   (Inr _, s1) \<Rightarrow> (Inr False, s1)
                 | (Inl e, s1) \<Rightarrow>
                     if \<not> errors_Is e ErrNotFound
                     then (Inl (Errorf p e []), s1)
                     else (Inr True, s1))
              else (Inr True, s)
            else (Inr True, s)) = (r1, s1)"
  shows "inv s1 \<and> tbl s1 = tbl s \<and>
         (case r1 of Inr a \<Rightarrow> a = (email = [] \<or> \<not> email_taken (tbl s) email) | Inl e \<Rightarrow> lib_error e)"
proof (cases "email \<noteq> [] \<and> Filter_Contains B fl (''email:'' @ email)")
  case False
  then show ?thesis using res inv covers_email [OF cov, of email] by (auto split: if_splits)
next
  case True
  obtain r0 s0 where g: "repo_GetByEmail repo ctx s email = (r0, s0)" by force
  note G = GetByEmail [OF inv g]
  show ?thesis
  proof (cases r0)
    case (Inl e)
    with G have "errors_Is e ErrNotFound \<or> lib_error e" by (auto simp: lookup_ok_def)
    with Inl True g G res email_lookup(2) show ?thesis by (auto split: if_splits)
  next
    case (Inr u)
    with True g G res email_lookup(1) show ?thesis by auto
  qed
qed

lemma username_stage:
  assumes inv: "inv s" and cov: "covers B fl (tbl s)"
    and res: "(if username \<noteq> [] then
              if Filter_Contains B fl (''username:'' @ username) then
                (case repo_GetByUsername repo ctx s username of
                   (Inr _, s1) \<Rightarrow> (Inr False, s1)
                 | (Inl e, s1) \<Rightarrow>
                     if \<not> errors_Is e ErrNotFound
                     then (Inl (Errorf p e []), s1)
                     else (Inr True, s1))
              else (Inr True, s)
            else (Inr True, s)) = (r1, s1)"
  shows "inv s1 \<and> tbl s1 = tbl s \<and>
         (case r1 of Inr a \<Rightarrow> a = (username = [] \<or> \<not> username_taken (tbl s) username) | Inl e \<Rightarrow> lib_error e)"
proof (cases "username \<noteq> [] \<and> Filter_Contains B fl (''username:'' @ username)")
  case False
  then show ?thesis using res inv covers_username [OF cov, of username] by (auto split: if_splits)
next
  case True
  obtain r0 s0 where g: "repo_GetByUsername repo ctx s username = (r0, s0)" by force
  note G = GetByUsername [OF inv g]
  show ?thesis
  proof (cases r0)
    case (Inl e)
    with G have "errors_Is e ErrNotFound \<or> lib_error e" by (auto simp: lookup_ok_def)
    with Inl True g G res username_lookup(2) show ?thesis by (auto split: if_splits)
  next
    case (Inr u)
    with True g G res username_lookup(1) show ?thesis by auto
  qed
qed

lemma CheckAvailability_spec:
  assumes inv: "inv s" and repo: "us_userRepo svc = repo" and cov: "covers B fl (tbl s)"
    and res: "userServiceImpl_CheckAvailability B svc ctx (s, fl) email username = (r, (s', fl'))"
  shows "inv s' \<and> tbl s' = tbl s \<and> fl' = fl \<and>
         (case r of
            Inr (ea, ua) \<Rightarrow> ea = (email = [] \<or> \<not> email_taken (tbl s) email) \<and>
                            ua = (username = [] \<or> \<not> username_taken (tbl s) username)
          | Inl e \<Rightarrow> lib_error e)"
proof -
  obtain r1 s1 where e: "(if email \<noteq> [] then
              if Filter_Contains B fl (''email:'' @ email) then
                (case repo_GetByEmail repo ctx s email of
                   (Inr _, s1) \<Rightarrow> (Inr False, s1)
                 | (Inl e, s1) \<Rightarrow>
                     if \<not> errors_Is e ErrNotFound
                     then (Inl (Errorf ''check email availability: '' e []), s1)
                     else (Inr True, s1))
              else (Inr True, s)
            else (Inr True, s)) = (r1, s1)" (is "?E = _") by (cases ?E)
  note E = email_stage [OF inv cov e]
  obtain r2 s2 where u: "(if username \<noteq> [] then
              if Filter_Contains B fl (''username:'' @ username) then
                (case repo_GetByUsername repo ctx s1 username of
                   (Inr _, s1) \<Rightarrow> (Inr False, s1)
                 | (Inl e, s1) \<Rightarrow>
                     if \<not> errors_Is e ErrNotFound
                     then (Inl (Errorf ''check username availability: '' e []), s1)
                     else (Inr True, s1))
              else (Inr True, s1)
            else (Inr True, s1)) = (r2, s2)" (is "?U = _") by (cases ?U)
  from E cov have "inv s1" "covers B fl (tbl s1)" by simp_all
  note U = username_stage [OF this u]
  from res have "(r, (s', fl')) =
    (case r1 of Inl e \<Rightarrow> (Inl e, (s1, fl))
     | Inr a \<Rightarrow> (case r2 of Inl e \<Rightarrow> (Inl e, (s2, fl)) | Inr b \<Rightarrow> (Inr (a, b), (s2, fl))))"
    unfolding userServiceImpl_CheckAvailability_def repo prod.case e
    by (cases r1) (simp_all only: prod.case sum.case u)
  with E U show ?thesis by (cases r1; cases r2) auto
qed

lemma List_spec:
  assumes inv: "inv s" and repo: "us_userRepo svc = repo" and "0 \<le> off" "0 < lim"
    and res: "userServiceImpl_List svc ctx s off lim = (Inr us, s')"
  shows "inv s' \<and> tbl s' = tbl s \<and>
         (\<exists>xs. rows_by_id (tbl s) xs \<and> us = take (nat lim) (drop (nat off) xs))"
  using res repo assms(3,4) List [OF inv]
  by (auto simp: userServiceImpl_List_def split: prod.splits sum.splits)

end

end
