(* ===== verification/Exchange.thy ===== *)
theory Exchange
  imports Model Cache Reference
begin

text \<open>
  Currency conversion: the HTTP client of the rates API (\<^verbatim>\<open>internal/adapter/exchange/client.go\<close>), its
  caching wrapper (\<^verbatim>\<open>cached_client.go\<close>) and the service (\<^verbatim>\<open>internal/service/exchange.go\<close>). The upstream
  server is a parameter (\<open>upstream\<close>): a response is its status, the text of its body, and the JSON
  value the body holds (or the error of the decoder). A map of rates is an association list with
  distinct keys; Go's nil map and empty map read alike and are one value here. \<open>uni\<close> is the upper-case
  mapping of strings outside ASCII.

  \<open>Q B rs\<close> stands for "the API has quoted the rates \<open>rs\<close> for the base currency \<open>B\<close>". The locale
  \<open>rate_source\<close> is the port \<^verbatim>\<open>ExchangeRateClient\<close>: it is interpreted on both clients, and what the
  service computes from quoted rates is proved once, in it.
\<close>

type_synonym rates = "(string \<times> float64) list"

record http_resp =
  hr_StatusCode :: int
  hr_Text :: string
  hr_JSON :: "error + json"

record 'x upstream =
  up_NewRequest :: "string \<Rightarrow> error option"
  up_Do :: "'x \<Rightarrow> string \<Rightarrow> (error + http_resp) \<times> 'x"

record ConvertRequest =
  conv_From :: string
  conv_To :: string
  conv_Amt :: float64

record ConvertResponse =
  cr_From :: string
  cr_To :: string
  cr_Amount :: float64
  cr_Rate :: float64
  cr_Converted :: float64

definition marshal_ConvertResponse :: "ConvertResponse \<Rightarrow> error + json" where
  "marshal_ConvertResponse r =
     marshal_obj
       [(''from'', Inr (jstr (cr_From r))), (''to'', Inr (jstr (cr_To r))),
        (''amount'', marshal_float (cr_Amount r)), (''rate'', marshal_float (cr_Rate r)),
        (''converted'', marshal_float (cr_Converted r))]"

text \<open>The binding rules of the two currency codes and of the amount.\<close>

definition ConvertRequest_binding :: "ConvertRequest \<Rightarrow> bool" where
  "ConvertRequest_binding r =
     (binding_ok (\<lambda>_. True)
        [(conv_From r, [Required, MinTag 3, MaxTag 3]), (conv_To r, [Required, MinTag 3, MaxTag 3])] \<and>
      f64_positive (conv_Amt r))"

section \<open>The HTTP client\<close>

definition apiBase :: string where
  "apiBase = ''https://open.er-api.com/v6/latest''"

record rates_result =
  rr_Result :: string
  rr_Base :: string
  rr_Rates :: rates

definition unmarshal_rates_result :: "json \<Rightarrow> error + rates_result" where
  "unmarshal_rates_result j =
     (case j of
        JNull \<Rightarrow> Inr \<lparr>rr_Result = [], rr_Base = [], rr_Rates = []\<rparr>
      | JObj ms \<Rightarrow>
          bind_r (dec_string (jfield ''result'' ms)) (\<lambda>res.
          bind_r (dec_string (jfield ''base_code'' ms)) (\<lambda>base.
          bind_r (dec_float_map (jfield ''rates'' ms)) (\<lambda>rs.
            Inr \<lparr>rr_Result = res, rr_Base = base, rr_Rates = rs\<rparr>)))
      | _ \<Rightarrow> Inl type_error)"

definition HTTPClient_GetRates ::
    "(string \<Rightarrow> string) \<Rightarrow> 'x upstream \<Rightarrow> 'x \<Rightarrow> string \<Rightarrow> (error + rates) \<times> 'x" where
  "HTTPClient_GetRates uni X x base =
     (let url = apiBase @ ''/'' @ ToUpper uni base
      in case up_NewRequest X url of
           Some e \<Rightarrow> (Inl (Errorf ''create request: '' e []), x)
         | None \<Rightarrow>
             (case up_Do X x url of
                (Inl e, x') \<Rightarrow> (Inl (Errorf ''fetch rates: '' e []), x')
              | (Inr resp, x') \<Rightarrow>
                  if hr_StatusCode resp \<noteq> 200
                  then (Inl (ErrNew (''exchange API returned '' @ show_int (hr_StatusCode resp) @ '': '' @ hr_Text resp)), x')
                  else
                    (case bind_r (hr_JSON resp) unmarshal_rates_result of
                       Inl e \<Rightarrow> (Inl (Errorf ''decode response: '' e []), x')
                     | Inr result \<Rightarrow>
                         if rr_Result result \<noteq> ''success''
                         then (Inl (ErrNew (''exchange API error: '' @ rr_Result result)), x')
                         else (Inr (rr_Rates result), x'))))"

section \<open>The caching client\<close>

definition ratesCacheKey :: "(string \<Rightarrow> string) \<Rightarrow> string \<Rightarrow> string" where
  "ratesCacheKey uni base = ''exchange:rates:'' @ ToUpper uni base"

definition CachedHTTPClient_GetRates ::
    "(string \<Rightarrow> string) \<Rightarrow> 'x upstream \<Rightarrow> 'c redis \<Rightarrow> duration \<Rightarrow> 'x \<times> 'c \<Rightarrow> string \<Rightarrow> (error + rates) \<times> ('x \<times> 'c)" where
  "CachedHTTPClient_GetRates uni X R ttl w base =
     (case w of (x, c) \<Rightarrow>
      let key = ratesCacheKey uni base
      in case RedisCache_Get R dec_float_map c key of
           (Inr rates, c1) \<Rightarrow> (Inr rates, (x, c1))
         | (Inl _, c1) \<Rightarrow>
             (case HTTPClient_GetRates uni X x base of
                (Inl e, x1) \<Rightarrow> (Inl e, (x1, c1))
              | (Inr rates, x1) \<Rightarrow>
                  (Inr rates, (x1, snd (RedisCache_Set R marshal_float_map c1 key rates ttl)))))"

section \<open>The service\<close>

type_synonym 's rate_client = "'s \<Rightarrow> string \<Rightarrow> (error + rates) \<times> 's"

definition exchangeServiceImpl_GetRates ::
    "(string \<Rightarrow> string) \<Rightarrow> 's rate_client \<Rightarrow> 's \<Rightarrow> string \<Rightarrow> (error + rates) \<times> 's" where
  "exchangeServiceImpl_GetRates uni client s base = client s (ToUpper uni base)"

definition exchangeServiceImpl_Convert ::
    "(string \<Rightarrow> string) \<Rightarrow> 's rate_client \<Rightarrow> 's \<Rightarrow> ConvertRequest \<Rightarrow> (error + ConvertResponse) \<times> 's" where
  "exchangeServiceImpl_Convert uni client s req =
     (let from = ToUpper uni (conv_From req); to = ToUpper uni (conv_To req)
      in case client s from of
           (Inl e, s') \<Rightarrow> (Inl (Errorf (''get rates for '' @ from @ '': '') e []), s')
         | (Inr rates, s') \<Rightarrow>
             (case map_of rates to of
                None \<Rightarrow> (Inl (Errorf [] ErrUnsupportedCurrency ('': '' @ to)), s')
              | Some rate \<Rightarrow>
                  (Inr \<lparr>cr_From = from, cr_To = to, cr_Amount = conv_Amt req, cr_Rate = rate,
                        cr_Converted = conv_Amt req * rate\<rparr>, s')))"

section \<open>Quoted rates\<close>

definition good_rates :: "rates \<Rightarrow> bool" where
  "good_rates rs \<longleftrightarrow> distinct (map fst rs) \<and> (\<forall>(k, v) \<in> set rs. valid_utf8 k)"

text \<open>
  The API's answers: a successful one to the request for \<open>B\<close> carries quoted rates. Errors of the
  HTTP library are not the application's.
\<close>

definition upstream_ok :: "'x upstream \<Rightarrow> (string \<Rightarrow> rates \<Rightarrow> bool) \<Rightarrow> bool" where
  "upstream_ok X Q \<longleftrightarrow>
     (\<forall>u e. up_NewRequest X u = Some e \<longrightarrow> lib_error e) \<and>
     (\<forall>x u e x'. up_Do X x u = (Inl e, x') \<longrightarrow> lib_error e) \<and>
     (\<forall>x u resp x' e. up_Do X x u = (Inr resp, x') \<longrightarrow> hr_JSON resp = Inl e \<longrightarrow> lib_error e) \<and>
     (\<forall>x B resp x' j res. up_Do X x (apiBase @ ''/'' @ B) = (Inr resp, x') \<longrightarrow> hr_JSON resp = Inr j \<longrightarrow>
        unmarshal_rates_result j = Inr res \<longrightarrow> rr_Result res = ''success'' \<longrightarrow>
        Q B (rr_Rates res) \<and> good_rates (rr_Rates res))"

locale rate_source =
  fixes client :: "'s rate_client"
    and up :: "string \<Rightarrow> string"
    and inv :: "'s \<Rightarrow> bool"
    and Q :: "string \<Rightarrow> rates \<Rightarrow> bool"
  assumes GetRates: "inv s \<Longrightarrow> client s B = (r, s') \<Longrightarrow>
        inv s' \<and> (case r of Inr rs \<Rightarrow> Q (up B) rs | Inl e \<Rightarrow> \<not> errors_Is e ErrUnsupportedCurrency)"
begin

text \<open>
  Conversion multiplies with the quoted rate; an unsupported currency is reported exactly when the
  quoted rates do not have it.
\<close>

lemma Convert_spec:
  assumes "inv s" "exchangeServiceImpl_Convert uni client s req = (r, s')"
  shows "inv s' \<and>
    (case r of
       Inr resp \<Rightarrow>
         \<exists>rs rate. Q (up (ToUpper uni (conv_From req))) rs \<and> map_of rs (ToUpper uni (conv_To req)) = Some rate \<and>
           resp = \<lparr>cr_From = ToUpper uni (conv_From req), cr_To = ToUpper uni (conv_To req),
                   cr_Amount = conv_Amt req, cr_Rate = rate, cr_Converted = conv_Amt req * rate\<rparr>
     | Inl e \<Rightarrow>
         errors_Is e ErrUnsupportedCurrency \<longrightarrow>
           (\<exists>rs. Q (up (ToUpper uni (conv_From req))) rs \<and> map_of rs (ToUpper uni (conv_To req)) = None))"
proof -
  obtain r0 s0 where g: "client s (ToUpper uni (conv_From req)) = (r0, s0)" by force
  note G = GetRates [OF assms(1) g]
  show ?thesis
  proof (cases r0)
    case (Inl e)
    with g G assms(2) show ?thesis by (auto simp: exchangeServiceImpl_Convert_def)
  next
    case (Inr rs)
    with g G assms(2) show ?thesis
      by (cases "map_of rs (ToUpper uni (conv_To req))") (auto simp: exchangeServiceImpl_Convert_def)
  qed
qed

end

section \<open>Both clients are sources of quoted rates\<close>

lemma lib_not_unsupported: "lib_error e \<Longrightarrow> \<not> errors_Is e ErrUnsupportedCurrency"
  by (simp add: lib_error_not_app)

lemma dec_errors:
  "dec_string j = Inl e \<Longrightarrow> lib_error e" "dec_float64 j = Inl e \<Longrightarrow> lib_error e"
  by (auto simp: dec_string_def dec_float64_def type_error_def split: json.splits float64.splits)

lemma dec_float_map_error: "dec_float_map j = Inl e \<Longrightarrow> lib_error e"
proof -
  have "dec_float_members ms = Inl e \<Longrightarrow> lib_error e" for ms
    by (induction ms rule: dec_float_members.induct) (auto split: sum.splits dest: dec_errors)
  then show "dec_float_map j = Inl e \<Longrightarrow> lib_error e"
    by (auto simp: dec_float_map_def type_error_def split: json.splits)
qed

lemma unmarshal_rates_error: "unmarshal_rates_result j = Inl e \<Longrightarrow> lib_error e"
proof (cases j)
  case (JObj ms)
  assume "unmarshal_rates_result j = Inl e"
  with JObj show ?thesis
    by (cases "dec_string (jfield ''result'' ms)"; cases "dec_string (jfield ''base_code'' ms)";
        cases "dec_float_map (jfield ''rates'' ms)")
       (auto simp: unmarshal_rates_result_def dest: dec_errors dec_float_map_error)
qed (auto simp: unmarshal_rates_result_def type_error_def)

lemma HTTPClient_GetRates_ok:
  assumes X: "upstream_ok X Q" and res: "HTTPClient_GetRates uni X x B = (r, x')"
  shows "case r of Inr rs \<Rightarrow> Q (ToUpper uni B) rs \<and> good_rates rs | Inl e \<Rightarrow> \<not> errors_Is e ErrUnsupportedCurrency"
proof -
  let ?u = "apiBase @ ''/'' @ ToUpper uni B"
  obtain d x1 where d: "up_Do X x ?u = (d, x1)" by force
  show ?thesis
  proof (cases "up_NewRequest X ?u")
    case (Some e)
    with res X show ?thesis by (auto simp: HTTPClient_GetRates_def upstream_ok_def Let_def lib_not_unsupported)
  next
    case None
    show ?thesis
    proof (cases d)
      case (Inl e)
      then have "lib_error e" using d X unfolding upstream_ok_def by blast
      with Inl None d res show ?thesis by (auto simp: HTTPClient_GetRates_def Let_def lib_not_unsupported)
    next
      case (Inr resp)
      note r = res [unfolded HTTPClient_GetRates_def Let_def None option.case d Inr prod.case sum.case]
      show ?thesis
      proof (cases "bind_r (hr_JSON resp) unmarshal_rates_result")
        case e: (Inl e)
        have "lib_error e"
        proof (cases "hr_JSON resp")
          case (Inl e')
          with e d \<open>d = Inr resp\<close> X show ?thesis unfolding upstream_ok_def by (metis bind_r_simps(2) sum.inject(1))
        next
          case (Inr j)
          with e show ?thesis by (simp add: unmarshal_rates_error)
        qed
        with r e show ?thesis by (auto simp: lib_not_unsupported split: if_splits)
      next
        case res': (Inr result)
        then obtain j where "hr_JSON resp = Inr j" "unmarshal_rates_result j = Inr result"
          by (auto simp: bind_r_Inr_iff)
        with X d Inr have "rr_Result result = ''success'' \<Longrightarrow> Q (ToUpper uni B) (rr_Rates result) \<and> good_rates (rr_Rates result)"
          unfolding upstream_ok_def by blast
        with r res' show ?thesis by (auto split: if_splits)
      qed
    qed
  qed
qed

interpretation http: rate_source "HTTPClient_GetRates uni X" "ToUpper uni" "\<lambda>x. upstream_ok X Q" Q for uni X Q
  by unfold_locales (frule (1) HTTPClient_GetRates_ok, simp split: sum.splits)

text \<open>The cache: an entry under the key of \<open>B\<close> may only hold rates quoted for \<open>B\<close>.\<close>

lemma dec_marshal_float_map: "marshal_float_map rs = Inr j \<Longrightarrow> \<exists>v. dec_float_map j = Inr v"
proof -
  have "marshal_members (map (\<lambda>(k, v). (utf8_fix k, marshal_float v)) rs) = Inr vs \<Longrightarrow> \<exists>v. dec_float_members vs = Inr v"
    for vs
    by (induction rs arbitrary: vs) (auto split: sum.splits dest!: dec_float_marshal)
  then show "marshal_float_map rs = Inr j \<Longrightarrow> \<exists>v. dec_float_map j = Inr v"
    by (auto simp: marshal_float_map_def marshal_obj_def dec_float_map_def split: sum.splits)
qed

definition stored_rates :: "rates \<Rightarrow> rates" where
  "stored_rates rs = projr (dec_float_map (projr (marshal_float_map rs)))"

lemma codec_rates: "codec marshal_float_map dec_float_map stored_rates"
  unfolding codec_def stored_rates_def using dec_marshal_float_map by fastforce

definition rates_inv ::
    "'x upstream \<Rightarrow> (string \<Rightarrow> rates \<Rightarrow> bool) \<Rightarrow> 'c redis \<Rightarrow> 'c kv \<Rightarrow> 'x \<times> 'c \<Rightarrow> bool" where
  "rates_inv X Q R kv w \<longleftrightarrow>
     upstream_ok X Q \<and> redis_ok R kv \<and>
     (\<forall>B rs. may_read kv dec_float_map (snd w) (''exchange:rates:'' @ B) rs \<longrightarrow> Q B rs)"

lemma rates_inv_Set:
  assumes "redis_ok R kv" and "Q B rs" "good_rates rs"
    and "\<forall>B rs. may_read kv dec_float_map c (''exchange:rates:'' @ B) rs \<longrightarrow> Q B rs"
    and "may_read kv dec_float_map (snd (RedisCache_Set R marshal_float_map c (''exchange:rates:'' @ B) rs ttl))
           (''exchange:rates:'' @ B') rs'"
  shows "Q B' rs'"
proof (cases "marshal_float_map rs")
  case (Inl e)
  with assms(4,5) show ?thesis by (simp add: RedisCache_Set_def)
next
  case (Inr j)
  then have "stored_rates rs = rs"
    using float_map_roundtrip [OF _ _ Inr] assms(3) by (simp add: stored_rates_def good_rates_def)
  moreover obtain e c' where "RedisCache_Set R marshal_float_map c (''exchange:rates:'' @ B) rs ttl = (e, c')" by force
  ultimately show ?thesis
    using redis.put_adds [OF conjI [OF assms(1) codec_rates], of c "''exchange:rates:'' @ B" rs ttl e c' "''exchange:rates:'' @ B'" rs']
      assms(2,4,5) by auto
qed

lemma CachedHTTPClient_GetRates_ok:
  assumes inv: "rates_inv X Q R kv w" and res: "CachedHTTPClient_GetRates uni X R ttl w B = (r, w')"
  shows "rates_inv X Q R kv w' \<and>
         (case r of Inr rs \<Rightarrow> Q (ToUpper uni B) rs | Inl e \<Rightarrow> \<not> errors_Is e ErrUnsupportedCurrency)"
proof -
  obtain x c where w: "w = (x, c)" by force
  let ?k = "''exchange:rates:'' @ ToUpper uni B"
  from inv w have X: "upstream_ok X Q" and R: "redis_ok R kv"
    and Q: "\<forall>B rs. may_read kv dec_float_map c (''exchange:rates:'' @ B) rs \<longrightarrow> Q B rs"
    by (simp_all add: rates_inv_def)
  note RC = conjI [OF R codec_rates]
  obtain g c1 where g: "RedisCache_Get R dec_float_map c ?k = (g, c1)" by force
  have Q1: "\<forall>B rs. may_read kv dec_float_map c1 (''exchange:rates:'' @ B) rs \<longrightarrow> Q B rs"
    using Q redis.get_keeps [OF RC g] by blast
  show ?thesis
  proof (cases g)
    case (Inr rs)
    with g have "may_read kv dec_float_map c ?k rs" using redis.get_may [OF RC] by blast
    with Inr g Q Q1 res w X R show ?thesis
      by (auto simp: CachedHTTPClient_GetRates_def ratesCacheKey_def rates_inv_def)
  next
    case (Inl e)
    obtain h x1 where h: "HTTPClient_GetRates uni X x B = (h, x1)" by force
    note H = HTTPClient_GetRates_ok [OF X h]
    show ?thesis
    proof (cases h)
      case (Inl e')
      with \<open>g = Inl e\<close> g h H Q1 res w X R show ?thesis
        by (auto simp: CachedHTTPClient_GetRates_def ratesCacheKey_def rates_inv_def)
    next
      case (Inr rs)
      with H have "Q (ToUpper uni B) rs" "good_rates rs" by simp_all
      with rates_inv_Set [OF R this Q1] Inr \<open>g = Inl e\<close> g h res w X R show ?thesis
        by (auto simp: CachedHTTPClient_GetRates_def ratesCacheKey_def rates_inv_def)
    qed
  qed
qed

interpretation cached: rate_source "CachedHTTPClient_GetRates uni X R ttl" "ToUpper uni" "rates_inv X Q R kv" Q
  for uni X R ttl Q kv
  by unfold_locales (rule CachedHTTPClient_GetRates_ok)

section \<open>Properties\<close>

text \<open>
  Conversion over the caching client. A success carries the upper-case codes, the amount asked
  for, a rate that the API quoted for the source currency (now or, through the cache, earlier) and
  the rounded product of the two; \<^verbatim>\<open>unsupported currency\<close> is reported only if quoted rates lack the
  target. The invariant that the cache holds quoted rates only is kept on every branch.
\<close>

lemma Convert_correct:
  assumes "rates_inv X Q R kv w"
    and "exchangeServiceImpl_Convert uni (CachedHTTPClient_GetRates uni X R ttl) w req = (r, w')"
  shows "rates_inv X Q R kv w' \<and>
    (case r of
       Inr resp \<Rightarrow>
         \<exists>rs rate. Q (ToUpper uni (ToUpper uni (conv_From req))) rs \<and>
           map_of rs (ToUpper uni (conv_To req)) = Some rate \<and>
           resp = \<lparr>cr_From = ToUpper uni (conv_From req), cr_To = ToUpper uni (conv_To req),
                   cr_Amount = conv_Amt req, cr_Rate = rate, cr_Converted = conv_Amt req * rate\<rparr>
     | Inl e \<Rightarrow>
         errors_Is e ErrUnsupportedCurrency \<longrightarrow>
           (\<exists>rs. Q (ToUpper uni (ToUpper uni (conv_From req))) rs \<and> map_of rs (ToUpper uni (conv_To req)) = None))"
  using cached.Convert_spec [OF assms] .

text \<open>An API that quotes two euro for a dollar, and nothing else.\<close>

definition two :: float64 where
  "two = Fin False (2 ^ 52) (- 51)"

definition mem_api :: "unit upstream" where
  "mem_api =
     \<lparr>up_NewRequest = (\<lambda>u. None),
      up_Do = (\<lambda>x u. (Inr \<lparr>hr_StatusCode = 200, hr_Text = [],
         hr_JSON = Inr (JObj [(''result'', JStr ''success''), (''base_code'', JStr ''USD''),
                              (''rates'', JObj [(''EUR'', JFloat two)])])\<rparr>, x))\<rparr>"

lemma mem_api_result:
  "unmarshal_rates_result (JObj [(''result'', JStr ''success''), (''base_code'', JStr ''USD''),
     (''rates'', JObj [(''EUR'', JFloat two)])]) =
   Inr \<lparr>rr_Result = ''success'', rr_Base = ''USD'', rr_Rates = [(''EUR'', two)]\<rparr>"
  by (simp add: unmarshal_rates_result_def json_key_simps dec_string_def dec_float_map_def dec_float64_def)

lemma mem_api_ok: "upstream_ok mem_api (\<lambda>B rs. rs = [(''EUR'', two)])"
  by (auto simp: upstream_ok_def mem_api_def mem_api_result good_rates_def valid_utf8_ascii byte_def)

lemma mem_rates_inv: "rates_inv mem_api (\<lambda>B rs. rs = [(''EUR'', two)]) mem_redis map_of ((), [])"
  by (simp add: rates_inv_def mem_api_ok mem_redis_ok may_read_def)

end
