(* ===== verification/Kafka.thy ===== *)
theory Kafka
  imports Model Reference
begin

text \<open>
  \<^verbatim>\<open>pkg/kafka\<close>, the event service (\<^verbatim>\<open>internal/service/event.go\<close>) and the conversion consumer
  (\<^verbatim>\<open>internal/consumer/consumer.go\<close>). The Kafka client is a parameter (\<open>kafkalib\<close>) on the state \<open>'k\<close> of
  the broker connection: writing one message to a topic, reading the next message, the error of the
  context (\<open>None\<close> while it is not cancelled), dialling a broker and creating topics. \<open>None\<close> as the
  result of \<open>EnsureTopic\<close> is the run-time panic of indexing an empty slice.

  The consumer's loop is one function per iteration (\<open>Consume_iter\<close>) and the loop with fuel
  (\<open>Consume\<close>); \<open>None\<close> is a loop that has not returned within the fuel.
\<close>

record kafka_msg =
  msg_Key :: string
  msg_Value :: json
  msg_Time :: instant

record 'k kafkalib =
  kw_WriteMessages :: "'k \<Rightarrow> string \<Rightarrow> kafka_msg \<Rightarrow> error option \<times> 'k"
  kr_ReadMessage :: "'k \<Rightarrow> (error + kafka_msg) \<times> 'k"
  kr_CtxErr :: "'k \<Rightarrow> error option"
  kf_Dial :: "'k \<Rightarrow> string \<Rightarrow> error option \<times> 'k"
  kf_CreateTopics :: "'k \<Rightarrow> string \<Rightarrow> int \<Rightarrow> int \<Rightarrow> error option \<times> 'k"

section \<open>Producer and topics\<close>

record Producer =
  prod_brokers :: "string list"
  prod_topic :: string

definition NewProducer :: "string list \<Rightarrow> string \<Rightarrow> Producer" where
  "NewProducer brokers topic = \<lparr>prod_brokers = brokers, prod_topic = topic\<rparr>"

definition Producer_Publish ::
    "'k kafkalib \<Rightarrow> instant \<Rightarrow> Producer \<Rightarrow> 'k \<Rightarrow> string \<Rightarrow> error + json \<Rightarrow> error option \<times> 'k" where
  "Producer_Publish K now p k key value =
     (case value of
        Inl e \<Rightarrow> (Some (Errorf ''marshal message: '' e []), k)
      | Inr data \<Rightarrow>
          (case kw_WriteMessages K k (prod_topic p) \<lparr>msg_Key = key, msg_Value = data, msg_Time = now\<rparr> of
             (Some e, k') \<Rightarrow> (Some (Errorf ''write message: '' e []), k')
           | (None, k') \<Rightarrow> (None, k')))"

definition EnsureTopic ::
    "'k kafkalib \<Rightarrow> 'k \<Rightarrow> string list \<Rightarrow> string \<Rightarrow> int \<Rightarrow> (error option \<times> 'k) option" where
  "EnsureTopic K k brokers topic partitions =
     (case brokers of
        [] \<Rightarrow> None
      | b # _ \<Rightarrow>
          (case kf_Dial K k b of
             (Some e, k1) \<Rightarrow> Some (Some (Errorf ''dial kafka: '' e []), k1)
           | (None, k1) \<Rightarrow>
               (case kf_CreateTopics K k1 topic partitions 3 of
                  (Some e, k2) \<Rightarrow> Some (Some (Errorf ''create topic: '' e []), k2)
                | (None, k2) \<Rightarrow> Some (None, k2))))"

section \<open>Consumer\<close>

text \<open>A consumer is where it reads from; its reader's state is part of \<open>'k\<close>.\<close>

record Consumer =
  cons_brokers :: "string list"
  cons_topic :: string
  cons_group :: string

definition NewConsumer :: "string list \<Rightarrow> string \<Rightarrow> string \<Rightarrow> Consumer" where
  "NewConsumer brokers topic groupID = \<lparr>cons_brokers = brokers, cons_topic = topic, cons_group = groupID\<rparr>"

type_synonym 'h msg_handler = "'h \<Rightarrow> string \<Rightarrow> json \<Rightarrow> error option \<times> 'h"

text \<open>One iteration: \<open>Inl\<close> the loop returns, \<open>Inr\<close> it goes on. An error of the handler is only logged.\<close>

definition Consume_iter ::
    "'k kafkalib \<Rightarrow> 'h msg_handler \<Rightarrow> 'k \<times> 'h \<Rightarrow> (error \<times> 'k \<times> 'h) + ('k \<times> 'h)" where
  "Consume_iter K handler st =
     (case st of (k, h) \<Rightarrow>
      case kr_ReadMessage K k of
        (Inl err, k') \<Rightarrow>
          (case kr_CtxErr K k' of
             Some e \<Rightarrow> Inl (e, k', h)
           | None \<Rightarrow> Inr (k', h))
      | (Inr msg, k') \<Rightarrow> Inr (k', snd (handler h (msg_Key msg) (msg_Value msg))))"

fun Consume :: "nat \<Rightarrow> 'k kafkalib \<Rightarrow> 'h msg_handler \<Rightarrow> 'k \<times> 'h \<Rightarrow> (error \<times> 'k \<times> 'h) option" where
  "Consume 0 K handler st = None"
| "Consume (Suc n) K handler st =
     (case Consume_iter K handler st of
        Inl r \<Rightarrow> Some r
      | Inr st' \<Rightarrow> Consume n K handler st')"

text \<open>The state after \<open>n\<close> iterations that all go on, and the messages read in them.\<close>

fun consumed :: "nat \<Rightarrow> 'k kafkalib \<Rightarrow> 'k \<Rightarrow> kafka_msg list" where
  "consumed 0 K k = []"
| "consumed (Suc n) K k =
     (case kr_ReadMessage K k of
        (Inl err, k') \<Rightarrow> (if kr_CtxErr K k' = None then consumed n K k' else [])
      | (Inr msg, k') \<Rightarrow> msg # consumed n K k')"

section \<open>Events\<close>

record Event =
  ev_ID :: string
  ev_Type :: string
  ev_Payload :: "(string \<times> json) list"
  ev_Timestamp :: instant

record ConversionEvent =
  ce_From :: string
  ce_To :: string
  ce_Amount :: float64
  ce_Rate :: float64
  ce_Converted :: float64
  ce_UserID :: int64

text \<open>
  Encoding an event whose payload is given as its members in the order \<^verbatim>\<open>encoding/json\<close> writes a map,
  by key. Decoding keeps the last member of each name.
\<close>

definition marshal_Event :: "string \<Rightarrow> string \<Rightarrow> (string \<times> (error + json)) list \<Rightarrow> instant \<Rightarrow> error + json" where
  "marshal_Event i ty payload ts =
     marshal_obj [(''id'', Inr (jstr i)), (''type'', Inr (jstr ty)), (''payload'', marshal_obj payload),
                  (''timestamp'', marshal_time ts)]"

definition dec_object :: "json \<Rightarrow> error + (string \<times> json) list" where
  "dec_object j = (case j of JNull \<Rightarrow> Inr [] | JObj ms \<Rightarrow> Inr ms | _ \<Rightarrow> Inl type_error)"

definition unmarshal_Event :: "json \<Rightarrow> error + Event" where
  "unmarshal_Event j =
     (case j of
        JNull \<Rightarrow> Inr \<lparr>ev_ID = [], ev_Type = [], ev_Payload = [], ev_Timestamp = zero_time\<rparr>
      | JObj ms \<Rightarrow>
          bind_r (dec_string (jfield ''id'' ms)) (\<lambda>i.
          bind_r (dec_string (jfield ''type'' ms)) (\<lambda>ty.
          bind_r (dec_object (jfield ''payload'' ms)) (\<lambda>pl.
          bind_r (dec_time (jfield ''timestamp'' ms)) (\<lambda>ts.
            Inr \<lparr>ev_ID = i, ev_Type = ty, ev_Payload = pl, ev_Timestamp = ts\<rparr>))))
      | _ \<Rightarrow> Inl type_error)"

definition eventServiceImpl_PublishConversion ::
    "'k kafkalib \<Rightarrow> instant \<Rightarrow> string \<Rightarrow> Producer \<Rightarrow> 'k \<Rightarrow> ConversionEvent \<Rightarrow> error option \<times> 'k" where
  "eventServiceImpl_PublishConversion K now uuid p k event =
     (let payload =
            [(''amount'', marshal_float (ce_Amount event)),
             (''converted'', marshal_float (ce_Converted event)),
             (''from'', Inr (jstr (ce_From event))),
             (''rate'', marshal_float (ce_Rate event)),
             (''to'', Inr (jstr (ce_To event))),
             (''user_id'', Inr (JInt (sint (ce_UserID event))))]
      in Producer_Publish K now p k uuid (marshal_Event uuid ''conversion.completed'' payload now))"

text \<open>The handler's effect is a log line, kept here as the list of the processed events.\<close>

definition handleConversionEvent :: "(string \<times> string) list msg_handler" where
  "handleConversionEvent log key value =
     (case unmarshal_Event value of
        Inl e \<Rightarrow> (Some e, log)
      | Inr event \<Rightarrow> (None, log @ [(ev_ID event, ev_Type event)]))"

section \<open>The loop\<close>

lemma Consume_iter_Inr:
  "Consume_iter K handler (k, h) = Inr (k', h') \<Longrightarrow>
   consumed (Suc n) K k =
     (case kr_ReadMessage K k of (Inl e, _) \<Rightarrow> consumed n K k' | (Inr m, _) \<Rightarrow> m # consumed n K k')"
  by (auto simp: Consume_iter_def split: prod.splits sum.splits option.splits)

lemma Consume_background:
  assumes "\<And>k. kr_CtxErr K k = None"
  shows "Consume n K handler st = None"
proof (induction n arbitrary: st)
  case 0
  then show ?case by simp
next
  case (Suc n)
  then show ?case using assms
    by (auto simp: Consume_iter_def split: prod.splits sum.splits)
qed

text \<open>A returning loop returns the context's error, and its handler saw every message once, in order.\<close>

lemma Consume_delivers:
  "Consume n K handler (k, h) = Some (e, k', h') \<Longrightarrow>
   kr_CtxErr K k' = Some e \<and>
   h' = foldl (\<lambda>s m. snd (handler s (msg_Key m) (msg_Value m))) h (consumed n K k)"
proof (induction n arbitrary: k h)
  case 0
  then show ?case by simp
next
  case (Suc n)
  obtain r k1 where rd: "kr_ReadMessage K k = (r, k1)" by force
  show ?case
  proof (cases r)
    case (Inl err)
    then show ?thesis
      using Suc.prems Suc.IH [of k1 h] rd
      by (cases "kr_CtxErr K k1") (auto simp: Consume_iter_def)
  next
    case (Inr m)
    then show ?thesis
      using Suc.prems Suc.IH [of k1 "snd (handler h (msg_Key m) (msg_Value m))"] rd
      by (simp add: Consume_iter_def)
  qed
qed

text \<open>If the \<open>n\<close>-th read fails and the context is cancelled then, \<open>Suc n\<close> iterations are enough.\<close>

fun read_n :: "nat \<Rightarrow> 'k kafkalib \<Rightarrow> 'k \<Rightarrow> 'k" where
  "read_n 0 K k = k"
| "read_n (Suc n) K k = read_n n K (snd (kr_ReadMessage K k))"

lemma Consume_returns:
  "kr_ReadMessage K (read_n n K k) = (Inl err, k') \<Longrightarrow> kr_CtxErr K k' = Some e \<Longrightarrow>
   \<exists>r. Consume (Suc n) K handler (k, h) = Some r"
proof (induction n arbitrary: k h)
  case 0
  then show ?case by (simp add: Consume_iter_def)
next
  case (Suc n)
  obtain r k1 where rd: "kr_ReadMessage K k = (r, k1)" by force
  with Suc.prems have "kr_ReadMessage K (read_n n K k1) = (Inl err, k')" by simp
  note IH = Suc.IH [OF this Suc.prems(2)]
  show ?case
  proof (cases r)
    case (Inl x)
    then show ?thesis using IH [of h] rd
      by (cases "kr_CtxErr K k1") (auto simp: Consume_iter_def)
  next
    case (Inr m)
    then show ?thesis using IH [of "snd (handler h (msg_Key m) (msg_Value m))"] rd
      by (auto simp: Consume_iter_def)
  qed
qed

section \<open>Properties\<close>

text \<open>
  C24. The consumer's loop. When the context is cancelled by the time the read number \<open>n\<close> fails, the
  loop returns within \<open>n + 1\<close> iterations; it returns the context's error, and the handler has been
  called exactly once for each message read, in order, whatever errors it returned.
\<close>

theorem Consume_correct:
  assumes "kr_ReadMessage K (read_n n K k) = (Inl err, k')" and "kr_CtxErr K k' = Some e"
  shows "\<exists>e' k'' h'. Consume (Suc n) K handler (k, h) = Some (e', k'', h') \<and>
           kr_CtxErr K k'' = Some e' \<and>
           h' = foldl (\<lambda>s m. snd (handler s (msg_Key m) (msg_Value m))) h (consumed (Suc n) K k)"
proof -
  obtain e' k'' h' where "Consume (Suc n) K handler (k, h) = Some (e', k'', h')"
    using Consume_returns [OF assms, of handler h] by (metis surj_pair)
  with Consume_delivers [OF this] show ?thesis by blast
qed

text \<open>A broker whose messages are a list; reading past its end is an error, and cancels the context.\<close>

definition mem_kafka :: "kafka_msg list kafkalib" where
  "mem_kafka =
     \<lparr>kw_WriteMessages = (\<lambda>k topic m. (None, k @ [m])),
      kr_ReadMessage = (\<lambda>k. case k of [] \<Rightarrow> (Inl (ErrLib ''EOF''), []) | m # k' \<Rightarrow> (Inr m, k')),
      kr_CtxErr = (\<lambda>k. if k = [] then Some (ErrLib ''context canceled'') else None),
      kf_Dial = (\<lambda>k b. (None, k)),
      kf_CreateTopics = (\<lambda>k t p r. (None, k))\<rparr>"

theorem Consume_correct_witness:
  "\<exists>e k h. Consume (Suc 1) mem_kafka handleConversionEvent
       ([\<lparr>msg_Key = ''k'', msg_Value = JNull, msg_Time = 0\<rparr>], []) = Some (e, k, h) \<and> h = [([], [])]"
proof -
  let ?k = "[\<lparr>msg_Key = ''k'', msg_Value = JNull, msg_Time = 0\<rparr>]"
  have "kr_ReadMessage mem_kafka (read_n 1 mem_kafka ?k) = (Inl (ErrLib ''EOF''), [])"
    by (simp add: mem_kafka_def)
  moreover have "kr_CtxErr mem_kafka [] = Some (ErrLib ''context canceled'')" by (simp add: mem_kafka_def)
  ultimately show ?thesis
    using Consume_correct [of mem_kafka 1 ?k "ErrLib ''EOF''" "[]" _ handleConversionEvent "[]"]
    by (fastforce simp: mem_kafka_def handleConversionEvent_def unmarshal_Event_def)
qed

text \<open>
  C23. Publishing and consuming fit together. A conversion whose numbers are finite is written as one
  message under the event's id, unless the broker refuses it; the consumer's handler decodes that
  message without an error and sees the id and the type that were published.
\<close>

theorem publish_then_handle:
  assumes "finite_f64 (ce_Amount event)" "finite_f64 (ce_Rate event)" "finite_f64 (ce_Converted event)"
    and "year_ok now" "valid_utf8 uuid"
    and "eventServiceImpl_PublishConversion K now uuid p k event = (r, k')"
  shows "\<exists>body err. kw_WriteMessages K k (prod_topic p) \<lparr>msg_Key = uuid, msg_Value = body, msg_Time = now\<rparr> =
             (err, k') \<and>
           r = map_option (\<lambda>e. Errorf ''write message: '' e []) err \<and>
           handleConversionEvent log uuid body = (None, log @ [(uuid, ''conversion.completed'')])"
proof -
  define members where "members =
     [(''amount'', JFloat (ce_Amount event)), (''converted'', JFloat (ce_Converted event)),
      (''from'', jstr (ce_From event)), (''rate'', JFloat (ce_Rate event)),
      (''to'', jstr (ce_To event)), (''user_id'', JInt (sint (ce_UserID event)))]"
  define body where "body = JObj [(''id'', jstr uuid), (''type'', jstr ''conversion.completed''),
      (''payload'', JObj members), (''timestamp'', JTime now)]"
  have pub: "eventServiceImpl_PublishConversion K now uuid p k event = Producer_Publish K now p k uuid (Inr body)"
    using assms(1-4)
    by (simp add: eventServiceImpl_PublishConversion_def marshal_Event_def marshal_obj_def marshal_float_finite
        marshal_time_def body_def members_def)
  have ty: "utf8_fix ''conversion.completed'' = ''conversion.completed''"
    using valid_utf8_ascii [of "''conversion.completed''"] by (simp add: valid_utf8_def byte_def)
  have "unmarshal_Event body =
      Inr \<lparr>ev_ID = uuid, ev_Type = ''conversion.completed'', ev_Payload = members, ev_Timestamp = now\<rparr>"
    using assms(5) by (simp add: body_def unmarshal_Event_def json_key_simps ty dec_object_def valid_utf8_def)
  then have h: "handleConversionEvent log uuid body = (None, log @ [(uuid, ''conversion.completed'')])"
    by (simp add: handleConversionEvent_def)
  moreover have "\<exists>err. kw_WriteMessages K k (prod_topic p) \<lparr>msg_Key = uuid, msg_Value = body, msg_Time = now\<rparr> =
             (err, k') \<and> r = map_option (\<lambda>e. Errorf ''write message: '' e []) err"
    using assms(6) unfolding pub Producer_Publish_def
    by (auto split: prod.splits option.splits)
  ultimately show ?thesis by blast
qed

theorem publish_then_handle_witness:
  "\<exists>k' body. eventServiceImpl_PublishConversion mem_kafka 0 ''id1'' (NewProducer [] ''conversions'') []
       \<lparr>ce_From = ''USD'', ce_To = ''EUR'', ce_Amount = 1, ce_Rate = 1, ce_Converted = 1, ce_UserID = 0\<rparr> = (None, k') \<and>
     k' = [\<lparr>msg_Key = ''id1'', msg_Value = body, msg_Time = 0\<rparr>] \<and>
     handleConversionEvent [] ''id1'' body = (None, [(''id1'', ''conversion.completed'')])"
proof -
  let ?e = "\<lparr>ce_From = ''USD'', ce_To = ''EUR'', ce_Amount = 1, ce_Rate = 1, ce_Converted = 1, ce_UserID = 0\<rparr>"
  obtain r k' where p: "eventServiceImpl_PublishConversion mem_kafka 0 ''id1'' (NewProducer [] ''conversions'') [] ?e = (r, k')"
    by (metis surj_pair)
  have f: "finite_f64 1" by (simp add: finite_f64_def one_float64_def)
  have "r = None"
    using p f by (simp add: eventServiceImpl_PublishConversion_def marshal_Event_def marshal_obj_def
        marshal_float_finite marshal_time_def year_ok_def Producer_Publish_def mem_kafka_def)
  with publish_then_handle [of ?e 0 "''id1''", OF _ _ _ _ _ p, of "[]"] p f show ?thesis
    by (auto simp: year_ok_def valid_utf8_ascii byte_def mem_kafka_def)
qed

end
