(* ===== verification/Handlers.thy ===== *)
theory Handlers
  imports Middleware AuthService UserService Exchange Kafka
begin

text \<open>
  \<^verbatim>\<open>internal/handler\<close>: the HTTP handlers. Binding and validating a request is the framework's work; the
  binding functions are parameters (\<open>binders\<close>), and \<open>binders_ok\<close> says that what they return satisfies
  the \<^verbatim>\<open>binding\<close> tags. A handler maps the state of the service it calls and the request's context to
  both; the status and the body of the response are in the context.
\<close>

record binders =
  bind_Register :: "string \<Rightarrow> error + RegisterRequest"
  bind_Login :: "string \<Rightarrow> error + LoginRequest"
  bind_Refresh :: "string \<Rightarrow> error + RefreshRequest"
  bind_Update :: "string \<Rightarrow> error + UpdateProfileRequest"
  bind_Check :: "string \<Rightarrow> error + CheckAvailabilityRequest"
  bind_Convert :: "string \<Rightarrow> error + ConvertRequest"
  bind_Event :: "string \<Rightarrow> error + string \<times> (string \<times> json) list"

definition binders_ok :: "(string \<Rightarrow> bool) \<Rightarrow> binders \<Rightarrow> bool" where
  "binders_ok mail bd \<longleftrightarrow>
     (\<forall>b r. bind_Register bd b = Inr r \<longrightarrow> binding_ok mail (RegisterRequest_binding r)) \<and>
     (\<forall>b r. bind_Login bd b = Inr r \<longrightarrow> binding_ok mail (LoginRequest_binding r)) \<and>
     (\<forall>b r. bind_Refresh bd b = Inr r \<longrightarrow> binding_ok mail (RefreshRequest_binding r)) \<and>
     (\<forall>b r. bind_Update bd b = Inr r \<longrightarrow> binding_ok mail (UpdateProfileRequest_binding r)) \<and>
     (\<forall>b r. bind_Check bd b = Inr r \<longrightarrow> binding_ok mail (CheckAvailabilityRequest_binding r)) \<and>
     (\<forall>b r. bind_Convert bd b = Inr r \<longrightarrow> ConvertRequest_binding r)"

definition answer :: "nat \<Rightarrow> string \<Rightarrow> gin_ctx \<Rightarrow> gin_ctx" where
  "answer status msg c = gin_JSON status (gin_H [(''error'', msg)]) c"

definition bad_request :: "string \<Rightarrow> error \<Rightarrow> gin_ctx \<Rightarrow> gin_ctx" where
  "bad_request msg e c = gin_JSON 400 (gin_H [(''error'', msg), (''details'', Error e)]) c"

section \<open>Authentication\<close>

definition AuthHandler_Register ::
    "binders \<Rightarrow> 'b libs \<Rightarrow> 's authService \<Rightarrow> env \<Rightarrow> ('s, 'b) auth_state req_state \<Rightarrow> ('s, 'b) auth_state req_state" where
  "AuthHandler_Register bd L svc E st =
     (case st of (w, c) \<Rightarrow>
      case bind_Register bd (gc_Body c) of
        Inl e \<Rightarrow> (w, bad_request ''invalid request'' e c)
      | Inr req \<Rightarrow>
          (case authService_Register L svc E (gc_Context c) w req of
             (Inl e, w') \<Rightarrow>
               if errors_Is e ErrEmailTaken then (w', answer 409 (Error e) c)
               else (w', answer 500 ''failed to register'' c)
           | (Inr resp, w') \<Rightarrow> (w', gin_JSON 201 (Inr (marshal_AuthResponse resp)) c)))"

definition AuthHandler_Login ::
    "binders \<Rightarrow> 'b libs \<Rightarrow> 's authService \<Rightarrow> env \<Rightarrow> ('s, 'b) auth_state req_state \<Rightarrow> ('s, 'b) auth_state req_state" where
  "AuthHandler_Login bd L svc E st =
     (case st of (w, c) \<Rightarrow>
      case bind_Login bd (gc_Body c) of
        Inl e \<Rightarrow> (w, bad_request ''invalid request'' e c)
      | Inr req \<Rightarrow>
          (case authService_Login L svc E (gc_Context c) w req of
             (Inl e, w') \<Rightarrow>
               if errors_Is e ErrInvalidCredentials then (w', answer 401 (Error e) c)
               else (w', answer 500 ''failed to login'' c)
           | (Inr resp, w') \<Rightarrow> (w', gin_JSON 200 (Inr (marshal_AuthResponse resp)) c)))"

definition AuthHandler_RefreshToken ::
    "binders \<Rightarrow> 'b libs \<Rightarrow> 's authService \<Rightarrow> env \<Rightarrow> ('s, 'b) auth_state req_state \<Rightarrow> ('s, 'b) auth_state req_state" where
  "AuthHandler_RefreshToken bd L svc E st =
     (case st of (w, c) \<Rightarrow>
      case bind_Refresh bd (gc_Body c) of
        Inl e \<Rightarrow> (w, bad_request ''invalid request'' e c)
      | Inr req \<Rightarrow>
          (case authService_RefreshToken L svc E (gc_Context c) w (refresh_Token req) of
             (Inl e, w') \<Rightarrow>
               if errors_Is e ErrInvalidRefreshToken then (w', answer 401 (Error e) c)
               else (w', answer 500 ''failed to refresh token'' c)
           | (Inr resp, w') \<Rightarrow> (w', gin_JSON 200 (Inr (marshal_AuthResponse resp)) c)))"

definition AuthHandler_Logout :: "'w req_state \<Rightarrow> 'w req_state" where
  "AuthHandler_Logout st = (fst st, gin_JSON 200 (gin_H [(''message'', ''logged out'')]) (snd st))"

definition AuthHandler_UpdateProfile ::
    "binders \<Rightarrow> 's authService \<Rightarrow> ('s, 'b) auth_state req_state \<Rightarrow> ('s, 'b) auth_state req_state" where
  "AuthHandler_UpdateProfile bd svc st =
     (case st of (w, c) \<Rightarrow>
      let userID = GetUserID c
      in if userID = 0 then (w, answer 401 ''unauthorized'' c)
         else
           (case bind_Update bd (gc_Body c) of
              Inl e \<Rightarrow> (w, bad_request ''invalid request'' e c)
            | Inr req \<Rightarrow>
                (case authService_UpdateProfile svc (gc_Context c) w userID req of
                   (Inl e, w') \<Rightarrow>
                     if errors_Is e ErrNotFound then (w', answer 404 ''user not found'' c)
                     else (w', answer 500 ''failed to update profile'' c)
                 | (Inr user, w') \<Rightarrow> (w', gin_JSON 200 (marshal_User user) c))))"

definition AuthHandler_GetProfile ::
    "'s authService \<Rightarrow> ('s, 'b) auth_state req_state \<Rightarrow> ('s, 'b) auth_state req_state" where
  "AuthHandler_GetProfile svc st =
     (case st of (w, c) \<Rightarrow>
      let userID = GetUserID c
      in if userID = 0 then (w, answer 401 ''unauthorized'' c)
         else
           (case authService_GetProfile svc (gc_Context c) w userID of
              (Inl e, w') \<Rightarrow>
                if errors_Is e ErrNotFound then (w', answer 404 ''user not found'' c)
                else (w', answer 500 ''failed to get profile'' c)
            | (Inr user, w') \<Rightarrow> (w', gin_JSON 200 (marshal_User user) c)))"

section \<open>Users\<close>

definition UserHandler_CheckAvailability ::
    "binders \<Rightarrow> 'b bloomlib \<Rightarrow> 's userServiceImpl \<Rightarrow> ('s \<times> 'b Filter) req_state \<Rightarrow> ('s \<times> 'b Filter) req_state" where
  "UserHandler_CheckAvailability bd B svc st =
     (case st of (w, c) \<Rightarrow>
      case bind_Check bd (gc_Query c) of
        Inl e \<Rightarrow> (w, bad_request ''invalid query params'' e c)
      | Inr req \<Rightarrow>
          (case userServiceImpl_CheckAvailability B svc (gc_Context c) w (chk_Email req) (chk_Username req) of
             (Inl e, w') \<Rightarrow> (w', answer 500 ''availability check failed'' c)
           | (Inr (emailAvail, usernameAvail), w') \<Rightarrow>
               (w', gin_JSON 200 (Inr (marshal_CheckAvailabilityResponse
                      \<lparr>chk_EmailAvailable = emailAvail, chk_UsernameAvailable = usernameAvail\<rparr>)) c)))"

fun marshal_users :: "User list \<Rightarrow> error + json list" where
  "marshal_users [] = Inr []"
| "marshal_users (u # us) = bind_r (marshal_User u) (\<lambda>j. bind_r (marshal_users us) (\<lambda>js. Inr (j # js)))"

definition UserHandler_List :: "'s userServiceImpl \<Rightarrow> 's req_state \<Rightarrow> 's req_state" where
  "UserHandler_List svc st =
     (case st of (w, c) \<Rightarrow>
      case userServiceImpl_List svc (gc_Context c) w 0 100 of
        (Inl e, w') \<Rightarrow> (w', answer 500 ''failed to list users'' c)
      | (Inr users, w') \<Rightarrow> (w', gin_JSON 200 (bind_r (marshal_users users) (\<lambda>js. Inr (JArr js))) c))"

text \<open>
  \<^verbatim>\<open>fmt.Sscanf(s, "%d", &id)\<close>: leading white space other than a newline, an optional sign, and the
  longest run of digits, within 64 bits. What follows the digits is not looked at.
\<close>

definition Sscanf_d :: "string \<Rightarrow> int64 option" where
  "Sscanf_d s =
     (let t = trim_left (filter (\<lambda>q. q \<noteq> [CHR 0x0A]) space_seqs) s;
          sg = takeWhile (\<lambda>c. c = CHR ''+'' \<or> c = CHR ''-'') (take 1 t);
          ds = takeWhile is_digit (drop (length sg) t)
      in map_option word_of_int (Atoi (sg @ ds)))"

definition UserHandler_Delete :: "'s userServiceImpl \<Rightarrow> 's req_state \<Rightarrow> 's req_state" where
  "UserHandler_Delete svc st =
     (case st of (w, c) \<Rightarrow>
      case Sscanf_d (gc_Param_id c) of
        None \<Rightarrow> (w, answer 400 ''invalid user id'' c)
      | Some i \<Rightarrow>
          (case userServiceImpl_Delete svc (gc_Context c) w i of
             (Some e, w') \<Rightarrow>
               if errors_Is e ErrNotFound then (w', answer 404 ''user not found'' c)
               else (w', answer 500 ''failed to delete user'' c)
           | (None, w') \<Rightarrow> (w', gin_JSON 200 (gin_H [(''message'', ''user deleted'')]) c)))"

section \<open>Exchange and events\<close>

definition ExchangeHandler_Convert ::
    "binders \<Rightarrow> (string \<Rightarrow> string) \<Rightarrow> 's rate_client \<Rightarrow> 's req_state \<Rightarrow> 's req_state" where
  "ExchangeHandler_Convert bd uni client st =
     (case st of (w, c) \<Rightarrow>
      case bind_Convert bd (gc_Body c) of
        Inl e \<Rightarrow> (w, bad_request ''invalid request'' e c)
      | Inr req \<Rightarrow>
          (case exchangeServiceImpl_Convert uni client w req of
             (Inl e, w') \<Rightarrow>
               if errors_Is e ErrUnsupportedCurrency then (w', answer 400 (Error e) c)
               else (w', answer 500 ''failed to fetch exchange rates'' c)
           | (Inr resp, w') \<Rightarrow> (w', gin_JSON 200 (marshal_ConvertResponse resp) c)))"

text \<open>The type assertions on the members of the payload, a Go \<^verbatim>\<open>map[string]interface{}\<close>.\<close>

definition payload_string :: "(string \<times> json) list \<Rightarrow> string \<Rightarrow> string option" where
  "payload_string ms k = (case map_of (rev ms) k of Some (JStr s) \<Rightarrow> Some s | _ \<Rightarrow> None)"

definition payload_float :: "(string \<times> json) list \<Rightarrow> string \<Rightarrow> float64 option" where
  "payload_float ms k =
     (case map_of (rev ms) k of Some (JFloat f) \<Rightarrow> Some f | Some (JInt i) \<Rightarrow> Some (f64_of_int i) | _ \<Rightarrow> None)"

definition EventHandler_PublishEvent ::
    "binders \<Rightarrow> 'k kafkalib \<Rightarrow> instant \<Rightarrow> string \<Rightarrow> Producer \<Rightarrow> 'k req_state \<Rightarrow> 'k req_state" where
  "EventHandler_PublishEvent bd K now uuid p st =
     (case st of (k, c) \<Rightarrow>
      case bind_Event bd (gc_Body c) of
        Inl e \<Rightarrow> (k, bad_request ''invalid request'' e c)
      | Inr (ty, payload) \<Rightarrow>
          (case payload_string payload ''from'' of
             None \<Rightarrow> (k, answer 400 ''payload 'from' must be a string'' c)
           | Some from \<Rightarrow>
               (case payload_string payload ''to'' of
                  None \<Rightarrow> (k, answer 400 ''payload 'to' must be a string'' c)
                | Some to \<Rightarrow>
                    (case payload_float payload ''amount'' of
                       None \<Rightarrow> (k, answer 400 ''payload 'amount' must be a number'' c)
                     | Some amount \<Rightarrow>
                         (case eventServiceImpl_PublishConversion K now uuid p k
                                 \<lparr>ce_From = from, ce_To = to, ce_Amount = amount, ce_Rate = 0, ce_Converted = 0, ce_UserID = 0\<rparr> of
                            (Some e, k') \<Rightarrow> (k', answer 500 ''failed to publish event'' c)
                          | (None, k') \<Rightarrow> (k', gin_JSON 200 (gin_H [(''status'', ''event published'')]) c))))))"

lemmas handler_defs [http_simps] =
  answer_def bad_request_def AuthHandler_Register_def AuthHandler_Login_def AuthHandler_RefreshToken_def
  AuthHandler_Logout_def AuthHandler_UpdateProfile_def AuthHandler_GetProfile_def
  UserHandler_CheckAvailability_def UserHandler_List_def UserHandler_Delete_def
  ExchangeHandler_Convert_def EventHandler_PublishEvent_def

lemma answer_status [simp]:
  "resp_status (answer n m c) = Some n" "resp_status (bad_request m e c) = Some 400"
  "resp_status (gin_JSON n b c) = Some n"
  by (simp_all add: answer_def bad_request_def gin_JSON_def resp_status_def)

section \<open>Properties\<close>

text \<open>
  C28. The login endpoint. It answers 200 with the tokens of a row whose credentials the request has,
  401 only if there is no such row, 400 only if the body does not bind, 500 only on an error of the
  database; nothing else, and the table stays as it is.
\<close>

theorem AuthHandler_Login_status:
  assumes "db_inv g rows d" and "jwt_ok (lib_jwt L) sig" and "as_userRepo svc = NewUserRepository g"
    and "AuthHandler_Login bd L svc E ((d, f), c) = ((d', f'), c')"
  shows "db_tbl rows (gc_Context c) d' = db_tbl rows (gc_Context c) d \<and> f' = f \<and>
     ((\<exists>e. bind_Login bd (gc_Body c) = Inl e \<and> resp_status c' = Some 400) \<or>
      (\<exists>req row resp. bind_Login bd (gc_Body c) = Inr req \<and>
         credentials (lib_bcrypt L) (db_tbl rows (gc_Context c) d) (login_Email req) (login_Password req) row \<and>
         authService_generateTokenPair L svc E row = Inr resp \<and>
         gc_Resp c' = Some (200, Inr (marshal_AuthResponse resp))) \<or>
      (\<exists>req. bind_Login bd (gc_Body c) = Inr req \<and>
         (\<nexists>row. credentials (lib_bcrypt L) (db_tbl rows (gc_Context c) d) (login_Email req) (login_Password req) row) \<and>
         resp_status c' = Some 401) \<or>
      (\<exists>req e. bind_Login bd (gc_Body c) = Inr req \<and> lib_error e \<and>
         fst (authService_Login L svc E (gc_Context c) (d, f) req) = Inl e \<and> resp_status c' = Some 500))"
proof (cases "bind_Login bd (gc_Body c)")
  case (Inl e)
  with assms(4) show ?thesis by (auto simp: AuthHandler_Login_def)
next
  case (Inr req)
  obtain r d1 f1 where l: "authService_Login L svc E (gc_Context c) (d, f) req = (r, (d1, f1))" by (metis surj_pair)
  note S = impl.Login_spec [OF assms(1,3,2) l]
  show ?thesis
  proof (cases r)
    case (Inl e)
    have "\<not> errors_Is e ErrInvalidCredentials \<Longrightarrow> lib_error e" and "lib_error e \<Longrightarrow> \<not> errors_Is e ErrInvalidCredentials"
      using S Inl by (auto simp: lib_error_not_app)
    with S Inl \<open>bind_Login bd (gc_Body c) = Inr req\<close> l assms(4) show ?thesis
      by (auto simp: AuthHandler_Login_def split: if_splits)
  next
    case (Inr resp)
    with S \<open>bind_Login bd (gc_Body c) = Inr req\<close> l assms(4) show ?thesis
      by (auto simp: AuthHandler_Login_def gin_JSON_def)
  qed
qed

text \<open>A request, and binding functions that accept one body each.\<close>

definition mem_ctx :: "string \<Rightarrow> gin_ctx" where
  "mem_ctx body =
     \<lparr>gc_Method = [], gc_FullPath = [], gc_Param_id = ''1'', gc_ClientIP = ''10.0.0.1'', gc_Header = (\<lambda>k. []),
      gc_Body = body, gc_Query = [], gc_Context = background, gc_Keys = Map.empty, gc_Out = [], gc_Resp = None,
      gc_Aborted = False\<rparr>"

definition mem_binders :: binders where
  "mem_binders =
     \<lparr>bind_Register = (\<lambda>b. if b = ''alice'' then Inr alice_reg else Inl (ErrLib ''EOF'')),
      bind_Login = (\<lambda>b. if b = ''alice'' then Inr \<lparr>login_Email = ''a@x.io'', login_Password = ''pw''\<rparr> else Inl (ErrLib ''EOF'')),
      bind_Refresh = (\<lambda>b. Inr \<lparr>refresh_Token = b\<rparr>),
      bind_Update = (\<lambda>b. Inl (ErrLib ''EOF'')),
      bind_Check = (\<lambda>b. Inr \<lparr>chk_Email = b, chk_Username = []\<rparr>),
      bind_Convert = (\<lambda>b. Inl (ErrLib ''EOF'')),
      bind_Event = (\<lambda>b. Inl (ErrLib ''EOF''))\<rparr>"

lemma mem_ctx_simps [simp]:
  "gc_Body (mem_ctx b) = b" "gc_Context (mem_ctx b) = background" "gc_Keys (mem_ctx b) = Map.empty"
  "bind_Login mem_binders ''alice'' = Inr \<lparr>login_Email = ''a@x.io'', login_Password = ''pw''\<rparr>"
  "bind_Register mem_binders ''alice'' = Inr alice_reg"
  by (simp_all add: mem_ctx_def mem_binders_def)

theorem AuthHandler_Login_status_witness:
  "\<exists>c' row resp. AuthHandler_Login mem_binders mem_libs mem_svc mem_env ((alice_db, None), mem_ctx ''alice'') =
       ((alice_db, None), c') \<and>
     credentials mem_bcrypt (tab [alice]) ''a@x.io'' ''pw'' row \<and>
     gc_Resp c' = Some (200, Inr (marshal_AuthResponse resp))"
proof -
  obtain resp where log: "authService_Login mem_libs mem_svc mem_env background (alice_db, None)
     \<lparr>login_Email = ''a@x.io'', login_Password = ''pw''\<rparr> = (Inr resp, (alice_db, None))"
    using alice_Login by blast
  then have h: "AuthHandler_Login mem_binders mem_libs mem_svc mem_env ((alice_db, None), mem_ctx ''alice'') =
      ((alice_db, None), gin_JSON 200 (Inr (marshal_AuthResponse resp)) (mem_ctx ''alice''))"
    by (simp add: AuthHandler_Login_def)
  from AuthHandler_Login_status [OF alice_db_inv _ _ h, of sig_mem] h log show ?thesis
    by (auto simp: mem_jwt_ok alice_tbl)
qed



text \<open>
  The profile endpoint shows a caller the row of the id in the context, and nobody else's: a 200
  answer is the JSON of that row, which does not depend on its password hash.
\<close>

lemma AuthHandler_GetProfile_own:
  assumes "db_inv g rows d" and "as_userRepo svc = NewUserRepository g"
    and "AuthHandler_GetProfile svc ((d, f), c) = ((d', f'), c')"
    and "resp_status c' = Some 200"
  shows "\<exists>row. db_tbl rows (gc_Context c) d (GetUserID c) = Some row \<and>
           (\<forall>p. gc_Resp c' = Some (200, marshal_User (row\<lparr>usr_Password := p\<rparr>)))"
proof -
  obtain r d1 f1 where l: "authService_GetProfile svc (gc_Context c) (d, f) (GetUserID c) = (r, (d1, f1))"
    by (metis surj_pair)
  from impl.GetProfile_spec [OF assms(1,2) l] l assms(3,4) show ?thesis
    by (cases r) (auto simp: AuthHandler_GetProfile_def Let_def gin_JSON_def split: if_splits)
qed

lemma spaces_not_digits:
  "list_all (\<lambda>q. q \<noteq> [] \<and> \<not> is_digit (hd q) \<and> hd q \<noteq> CHR ''-'') space_seqs"
  by code_simp

lemma trim_left_digits:
  assumes "x = CHR ''-'' \<or> is_digit x"
  shows "trim_left (filter P space_seqs) (x # t) = x # t"
proof -
  have "take (length q) (x # t) \<noteq> q" if "q \<in> set space_seqs" for q
    using spaces_not_digits that assms by (cases q) (auto simp: list_all_iff)
  then have "filter (\<lambda>q. take (length q) (x # t) = q) (filter P space_seqs) = []"
    by (auto simp: filter_empty_conv)
  then have "strip_prefix (filter P space_seqs) (x # t) = None" by (simp add: strip_prefix_def)
  then show ?thesis by (simp add: trim_left_def)
qed

text \<open>
  The identifier in the path of a delete request: the decimal form of every id is read back as
  that id, so each row can be addressed.
\<close>

lemma Sscanf_d_show: "Sscanf_d (show_int (sint i)) = Some i"
proof -
  let ?s = "show_int (sint i)" and ?q = "filter (\<lambda>q. q \<noteq> [CHR 0x0A]) space_seqs"
  obtain x t where xt: "?s = x # t" by (cases ?s) auto
  have xd: "x = CHR ''-'' \<or> is_digit x"
    using xt hd_show_nat_digit [of "nat (sint i)"] by (auto simp: show_int_def split: if_splits)
  have all: "takeWhile is_digit (show_nat n) = show_nat n" for n
    using show_nat_digits [of n] by (simp add: takeWhile_eq_all_conv list_all_iff)
  have "takeWhile (\<lambda>c. c = CHR ''+'' \<or> c = CHR ''-'') (take 1 ?s) @
      takeWhile is_digit (drop (length (takeWhile (\<lambda>c. c = CHR ''+'' \<or> c = CHR ''-'') (take 1 ?s))) ?s) = ?s"
  proof (cases "sint i < 0")
    case True
    then show ?thesis by (simp add: show_int_def all)
  next
    case False
    then have s: "?s = show_nat (nat (sint i))" by (simp add: show_int_def)
    obtain y u where y: "show_nat (nat (sint i)) = y # u" by (cases "show_nat (nat (sint i))") auto
    then have "is_digit y" using hd_show_nat_digit [of "nat (sint i)"] by simp
    then have "y \<noteq> CHR ''+''" "y \<noteq> CHR ''-''" by auto
    then show ?thesis using all [of "nat (sint i)"] by (simp add: s y)
  qed
  moreover have "trim_left ?q ?s = ?s" using trim_left_digits [OF xd] xt by simp
  moreover have "Atoi ?s = Some (sint i)"
    using sint_range_size [of i] by (intro Atoi_show_int) (simp_all add: word_size)
  ultimately show ?thesis by (simp add: Sscanf_d_def Let_def)
qed

end
