(* ===== verification/RateLimit.thy ===== *)
theory RateLimit
  imports Http
begin

text \<open>
  \<^verbatim>\<open>internal/middleware/ratelimit.go\<close>: one token bucket per client address, created on the first
  request and evicted by a background loop after ten minutes without one. The token bucket of
  \<^verbatim>\<open>golang.org/x/time/rate\<close> is a parameter (\<open>ratelib\<close>); a limiter that its callers share by pointer is
  written back after \<^verbatim>\<open>Allow\<close>. The mutex makes each access to the map atomic; a request reads the
  clock once.

  \<open>rate_refills R r b\<close> is what the eviction relies on: a bucket that nobody used for ten minutes
  behaves as a new one. Under it the loop is invisible: the decisions are those of a limiter that
  never forgets (\<open>eviction_transparent\<close>).
\<close>

record 'l ratelib =
  rate_NewLimiter :: "float64 \<Rightarrow> int \<Rightarrow> 'l"
  rate_Allow :: "instant \<Rightarrow> 'l \<Rightarrow> bool \<times> 'l"

record 'l ipLimiter =
  il_limiter :: 'l
  il_lastSeen :: instant

record 'l RateLimiter =
  rl_visitors :: "string \<rightharpoonup> 'l ipLimiter"
  rl_r :: float64
  rl_burst :: int

abbreviation (input) ten_minutes :: int where "ten_minutes \<equiv> 600 * second"

section \<open>Operations\<close>

definition NewRateLimiter :: "float64 \<Rightarrow> int \<Rightarrow> 'l RateLimiter" where
  "NewRateLimiter r burst = \<lparr>rl_visitors = Map.empty, rl_r = r, rl_burst = burst\<rparr>"

definition RateLimiter_get :: "'l ratelib \<Rightarrow> instant \<Rightarrow> 'l RateLimiter \<Rightarrow> string \<Rightarrow> 'l \<times> 'l RateLimiter" where
  "RateLimiter_get R now rl ip =
     (case rl_visitors rl ip of
        None \<Rightarrow>
          let l = rate_NewLimiter R (rl_r rl) (rl_burst rl)
          in (l, rl\<lparr>rl_visitors := (rl_visitors rl)(ip \<mapsto> \<lparr>il_limiter = l, il_lastSeen = now\<rparr>)\<rparr>)
      | Some v \<Rightarrow>
          (il_limiter v, rl\<lparr>rl_visitors := (rl_visitors rl)(ip \<mapsto> v\<lparr>il_lastSeen := now\<rparr>)\<rparr>))"

text \<open>One pass of \<^verbatim>\<open>cleanupLoop\<close>.\<close>

definition RateLimiter_cleanup :: "instant \<Rightarrow> 'l RateLimiter \<Rightarrow> 'l RateLimiter" where
  "RateLimiter_cleanup now rl =
     rl\<lparr>rl_visitors := (\<lambda>ip.
          case rl_visitors rl ip of
            None \<Rightarrow> None
          | Some v \<Rightarrow> if now - il_lastSeen v > ten_minutes then None else Some v)\<rparr>"

text \<open>\<^verbatim>\<open>rl.get(ip).Allow()\<close>: the limiter is shared, so its new state is visible in the map.\<close>

definition RateLimiter_allow :: "'l ratelib \<Rightarrow> instant \<Rightarrow> 'l RateLimiter \<Rightarrow> string \<Rightarrow> bool \<times> 'l RateLimiter" where
  "RateLimiter_allow R now rl ip =
     (case RateLimiter_get R now rl ip of
        (l, rl') \<Rightarrow>
          (case rate_Allow R now l of
             (ok, l') \<Rightarrow>
               (ok, rl'\<lparr>rl_visitors := (rl_visitors rl')(ip :=
                      map_option (\<lambda>v. v\<lparr>il_limiter := l'\<rparr>) (rl_visitors rl' ip))\<rparr>)))"

text \<open>The middleware; \<open>get\<close> and \<open>put\<close> locate the limiter in the server's state.\<close>

definition RateLimiter_Limit ::
    "'l ratelib \<Rightarrow> instant \<Rightarrow> ('w \<Rightarrow> 'l RateLimiter) \<Rightarrow> ('l RateLimiter \<Rightarrow> 'w \<Rightarrow> 'w) \<Rightarrow> 'w handler" where
  "RateLimiter_Limit R now get put next st =
     (case RateLimiter_allow R now (get (fst st)) (gc_ClientIP (snd st)) of
        (ok, rl) \<Rightarrow>
          if \<not> ok
          then (put rl (fst st), gin_Abort (gin_JSON 429 (gin_H [(''error'', ''rate limit exceeded'')]) (snd st)))
          else next (put rl (fst st), snd st))"

text \<open>\<^verbatim>\<open>ratePerMin\<close>, from the router. \<^verbatim>\<open>rate.Inf\<close> is the largest finite \<^verbatim>\<open>float64\<close>.\<close>

definition rate_Inf :: float64 where
  "rate_Inf = Fin False (2 ^ 53 - 1) 971"

definition ratePerMin :: "int \<Rightarrow> float64" where
  "ratePerMin rpm = (if rpm \<le> 0 then rate_Inf else f64_div (f64_of_int rpm) (f64_of_int 60))"

section \<open>What one request does\<close>

lemma RateLimiter_allow_eq:
  "RateLimiter_allow R now rl ip =
     (let l = (case rl_visitors rl ip of None \<Rightarrow> rate_NewLimiter R (rl_r rl) (rl_burst rl) | Some v \<Rightarrow> il_limiter v)
      in (fst (rate_Allow R now l),
          rl\<lparr>rl_visitors := (rl_visitors rl)(ip \<mapsto> \<lparr>il_limiter = snd (rate_Allow R now l), il_lastSeen = now\<rparr>)\<rparr>))"
proof (cases "rl_visitors rl ip")
  case None
  then show ?thesis by (simp add: RateLimiter_allow_def RateLimiter_get_def Let_def split: prod.splits)
next
  case (Some v)
  then show ?thesis by (cases v) (simp add: RateLimiter_allow_def RateLimiter_get_def Let_def split: prod.splits)
qed

section \<open>Eviction\<close>

datatype rl_event = Request instant string | Tick instant

fun ev_time :: "rl_event \<Rightarrow> instant" where
  "ev_time (Request t ip) = t"
| "ev_time (Tick t) = t"

fun is_request :: "rl_event \<Rightarrow> bool" where
  "is_request (Request t ip) = True"
| "is_request (Tick t) = False"

text \<open>The decisions on the requests of a sequence of events.\<close>

fun decisions :: "'l ratelib \<Rightarrow> 'l RateLimiter \<Rightarrow> rl_event list \<Rightarrow> (string \<times> bool) list" where
  "decisions R rl [] = []"
| "decisions R rl (Request t ip # evs) =
     (case RateLimiter_allow R t rl ip of (ok, rl') \<Rightarrow> (ip, ok) # decisions R rl' evs)"
| "decisions R rl (Tick t # evs) = decisions R (RateLimiter_cleanup t rl) evs"

inductive limiter_of :: "'l ratelib \<Rightarrow> float64 \<Rightarrow> int \<Rightarrow> 'l \<Rightarrow> bool" for R r b where
  new: "limiter_of R r b (rate_NewLimiter R r b)"
| used: "limiter_of R r b l \<Longrightarrow> limiter_of R r b (snd (rate_Allow R t l))"

definition rate_refills :: "'l ratelib \<Rightarrow> float64 \<Rightarrow> int \<Rightarrow> bool" where
  "rate_refills R r b \<longleftrightarrow>
     (\<forall>l t0 t. limiter_of R r b l \<longrightarrow> t0 + ten_minutes < t \<longrightarrow>
        rate_Allow R t (snd (rate_Allow R t0 l)) = rate_Allow R t (rate_NewLimiter R r b))"

text \<open>
  At time \<open>T\<close>, \<open>a\<close> is \<open>b\<close> with some stale entries forgotten. \<open>entry_rel\<close> relates the entries of
  one address.
\<close>

definition entry_rel ::
    "'l ratelib \<Rightarrow> float64 \<Rightarrow> int \<Rightarrow> instant \<Rightarrow> 'l ipLimiter option \<Rightarrow> 'l ipLimiter option \<Rightarrow> bool" where
  "entry_rel R r n T x y \<longleftrightarrow>
     (case y of
        None \<Rightarrow> x = None
      | Some v \<Rightarrow>
          (\<exists>l. limiter_of R r n l \<and> il_limiter v = snd (rate_Allow R (il_lastSeen v) l)) \<and>
          (x = Some v \<or> x = None \<and> il_lastSeen v + ten_minutes < T))"

definition forgets :: "'l ratelib \<Rightarrow> instant \<Rightarrow> 'l RateLimiter \<Rightarrow> 'l RateLimiter \<Rightarrow> bool" where
  "forgets R T a b \<longleftrightarrow>
     rl_r a = rl_r b \<and> rl_burst a = rl_burst b \<and>
     (\<forall>ip. entry_rel R (rl_r b) (rl_burst b) T (rl_visitors a ip) (rl_visitors b ip))"

lemma entry_rel_later: "entry_rel R r n T x y \<Longrightarrow> T \<le> T' \<Longrightarrow> entry_rel R r n T' x y"
  by (auto simp: entry_rel_def split: option.splits)

lemma entry_rel_evict:
  "entry_rel R r n T x y \<Longrightarrow>
   entry_rel R r n T (case x of None \<Rightarrow> None | Some v \<Rightarrow> if T - il_lastSeen v > ten_minutes then None else Some v) y"
  by (auto simp: entry_rel_def split: option.splits)

lemma entry_rel_allow:
  assumes "rate_refills R r n" "entry_rel R r n t x y"
  defines "lim \<equiv> \<lambda>z. case z of None \<Rightarrow> rate_NewLimiter R r n | Some v \<Rightarrow> il_limiter v"
  shows "rate_Allow R t (lim x) = rate_Allow R t (lim y)" and "limiter_of R r n (lim y)"
  using assms by (auto simp: entry_rel_def rate_refills_def new used split: option.splits)

lemma forgets_later: "forgets R T a b \<Longrightarrow> T \<le> T' \<Longrightarrow> forgets R T' a b"
  by (auto simp: forgets_def intro: entry_rel_later)

lemma forgets_Tick: "forgets R t a b \<Longrightarrow> forgets R t (RateLimiter_cleanup t a) b"
  by (simp add: forgets_def RateLimiter_cleanup_def entry_rel_evict)

lemma forgets_Request:
  assumes "rate_refills R (rl_r b) (rl_burst b)" and f: "forgets R t a b"
  shows "fst (RateLimiter_allow R t a ip) = fst (RateLimiter_allow R t b ip) \<and>
         forgets R t (snd (RateLimiter_allow R t a ip)) (snd (RateLimiter_allow R t b ip))"
proof -
  from f have cfg: "rl_r a = rl_r b" "rl_burst a = rl_burst b" by (simp_all add: forgets_def)
  from f have "entry_rel R (rl_r b) (rl_burst b) t (rl_visitors a ip) (rl_visitors b ip)"
    by (simp add: forgets_def)
  note A = entry_rel_allow [OF assms(1) this]
  show ?thesis
    using f A(2) unfolding RateLimiter_allow_eq Let_def cfg A(1)
    by (auto simp: forgets_def) (auto simp: entry_rel_def)
qed

lemma allow_config [simp]:
  "rl_r (snd (RateLimiter_allow R t b ip)) = rl_r b" "rl_burst (snd (RateLimiter_allow R t b ip)) = rl_burst b"
  by (simp_all add: RateLimiter_allow_eq Let_def)

lemma decisions_forgets:
  "rate_refills R (rl_r b) (rl_burst b) \<Longrightarrow> forgets R T a b \<Longrightarrow> sorted (T # map ev_time evs) \<Longrightarrow>
   decisions R a evs = decisions R b (filter is_request evs)"
proof (induction evs arbitrary: a b T)
  case Nil
  then show ?case by simp
next
  case (Cons ev evs)
  have f: "forgets R (ev_time ev) a b" using Cons.prems forgets_later by auto
  have s: "sorted (ev_time ev # map ev_time evs)" using Cons.prems(3) by simp
  show ?case
  proof (cases ev)
    case (Request t ip)
    with forgets_Request [OF Cons.prems(1), of t a ip] f
    have "fst (RateLimiter_allow R t a ip) = fst (RateLimiter_allow R t b ip)"
      "forgets R t (snd (RateLimiter_allow R t a ip)) (snd (RateLimiter_allow R t b ip))" by simp_all
    with Request Cons.IH [of "snd (RateLimiter_allow R t b ip)" t "snd (RateLimiter_allow R t a ip)"] Cons.prems(1) s
    show ?thesis by (simp add: split_beta)
  next
    case (Tick t)
    with Cons.IH [OF Cons.prems(1) forgets_Tick] f s show ?thesis by simp
  qed
qed

section \<open>Properties\<close>

text \<open>
  C10. Eviction is invisible. For any sequence of requests and eviction passes in the order of time,
  a limiter that evicts decides every request as one that never forgets an address, if a bucket
  that was idle for ten minutes behaves as a new one.
\<close>

theorem eviction_transparent:
  assumes "rate_refills R r b" and "sorted (map ev_time evs)"
  shows "decisions R (NewRateLimiter r b) evs = decisions R (NewRateLimiter r b) (filter is_request evs)"
proof (cases evs)
  case Nil
  then show ?thesis by simp
next
  case (Cons ev evs')
  have "forgets R T (NewRateLimiter r b) (NewRateLimiter r b)" for T
    by (simp add: forgets_def NewRateLimiter_def entry_rel_def)
  moreover have "sorted (ev_time ev # map ev_time evs)" using assms(2) Cons by simp
  moreover have "rate_refills R (rl_r (NewRateLimiter r b)) (rl_burst (NewRateLimiter r b))"
    using assms(1) by (simp add: NewRateLimiter_def)
  ultimately show ?thesis using decisions_forgets by blast
qed

text \<open>
  A token bucket with a burst of at most ten that gains one token a minute: its limit, its burst,
  its tokens and the instant of the last request.
\<close>

definition mem_tokens :: "int \<Rightarrow> int \<Rightarrow> instant \<Rightarrow> instant \<Rightarrow> int" where
  "mem_tokens b k seen t = min b (k + max 0 ((t - seen) div (60 * second)))"

definition mem_rate :: "(int \<times> int \<times> instant) ratelib" where
  "mem_rate =
     \<lparr>rate_NewLimiter = (\<lambda>r b. (b, b, 0)),
      rate_Allow = (\<lambda>t (b, k, seen).
        (1 \<le> mem_tokens b k seen t, (b, max 0 (mem_tokens b k seen t - 1), t)))\<rparr>"

lemma mem_rate_simps [simp]:
  "rate_NewLimiter mem_rate r b = (b, b, 0)"
  "rate_Allow mem_rate t (b, k, seen) =
     (1 \<le> mem_tokens b k seen t, (b, max 0 (mem_tokens b k seen t - 1), t))"
  by (simp_all add: mem_rate_def)

lemma mem_tokens_le: "mem_tokens b k seen t \<le> b"
  by (simp add: mem_tokens_def)

lemma mem_rate_bounds:
  assumes "limiter_of mem_rate r b l" "0 \<le> b"
  shows "\<exists>k u. l = (b, k, u) \<and> 0 \<le> k \<and> k \<le> b"
  using assms(1)
proof (induction rule: limiter_of.induct)
  case new
  then show ?case using assms(2) by simp
next
  case (used l t)
  then obtain k u where l: "l = (b, k, u)" by blast
  show ?case using mem_tokens_le [of b k u t] assms(2) by (simp add: l)
qed

lemma mem_tokens_full: "0 \<le> k \<Longrightarrow> b \<le> 10 \<Longrightarrow> t0 + ten_minutes < t \<Longrightarrow> mem_tokens b k t0 t = b"
proof -
  assume "0 \<le> k" "b \<le> 10" "t0 + ten_minutes < t"
  moreover from this(3) have "10 \<le> (t - t0) div (60 * second)" using zdiv_mono1 [of "600 * second" "t - t0" "60 * second"] by simp
  ultimately show ?thesis by (simp add: mem_tokens_def)
qed

lemma mem_rate_refills:
  assumes "0 \<le> b" "b \<le> 10"
  shows "rate_refills mem_rate r b"
  unfolding rate_refills_def
proof (intro allI impI)
  fix l t0 t
  assume "limiter_of mem_rate r b l" and t: "t0 + ten_minutes < t"
  from mem_rate_bounds [OF this(1) assms(1)] obtain k u where l: "l = (b, k, u)" by blast
  have "mem_tokens b b 0 t = b" using assms by (simp add: mem_tokens_def)
  then show "rate_Allow mem_rate t (snd (rate_Allow mem_rate t0 l)) = rate_Allow mem_rate t (rate_NewLimiter mem_rate r b)"
    using mem_tokens_full [OF _ assms(2) t, of "max 0 (mem_tokens b k u t0 - 1)"] by (simp add: l)
qed

theorem eviction_transparent_witness:
  "rate_refills mem_rate 1 1 \<and>
   decisions mem_rate (NewRateLimiter 1 1) [Request 0 ''ip'', Request 1 ''ip'', Tick (700 * second), Request (701 * second) ''ip'']
     = [(''ip'', True), (''ip'', False), (''ip'', True)]"
  using eviction_transparent [of mem_rate 1 1 "[Request 0 ''ip'', Request 1 ''ip'', Tick (700 * second), Request (701 * second) ''ip'']"]
    mem_rate_refills [of 1 1]
  by (simp add: RateLimiter_allow_eq NewRateLimiter_def mem_tokens_def)

text \<open>
  Clients do not affect each other: the decisions on one address are those of a run with the
  requests of that address only.
\<close>

lemma rate_isolation:
  "filter (\<lambda>p. fst p = ip) (decisions R rl evs) =
   decisions R rl (filter (\<lambda>ev. case ev of Request t i \<Rightarrow> i = ip | Tick t \<Rightarrow> True) evs)"
proof -
  have "filter (\<lambda>p. fst p = ip) (decisions R a evs) =
      decisions R b (filter (\<lambda>ev. case ev of Request t i \<Rightarrow> i = ip | Tick t \<Rightarrow> True) evs)"
    if "rl_visitors a ip = rl_visitors b ip" "rl_r a = rl_r b" "rl_burst a = rl_burst b" for a b
    using that
  proof (induction evs arbitrary: a b)
    case Nil
    then show ?case by simp
  next
    case (Cons ev evs)
    then show ?case
      by (cases ev) (auto simp: RateLimiter_allow_eq RateLimiter_cleanup_def Let_def cong: option.case_cong)
  qed
  then show ?thesis by simp
qed

end
