(* ===== verification/Router.thy ===== *)
theory Router
  imports Handlers RateLimit Config
begin

text \<open>
  \<^verbatim>\<open>setupRouter\<close> and the wiring of \<^verbatim>\<open>internal/server\<close>: the state of the whole HTTP server, the services
  on their parts of it, the middleware and the table of routes. \<open>serve\<close> runs one request: the global
  middleware, then the handlers of the route that the framework matched (\<open>gc_Method\<close> and
  \<open>gc_FullPath\<close>). The framework's own middleware (CORS, recovery), the answer to an unknown route and
  the metrics page are parameters (\<open>ginlib\<close>); \<open>gin_ok\<close> says that they keep the server's data and that
  CORS either lets a request through with response headers added, or ends it with 204 or 403.

  \<open>core\<close> is everything the program itself keeps or reaches: database, Redis, Bloom filter, rates API,
  Kafka. The rate limiters and the observability state are beside it, so that \<open>ss_core\<close> is the frame
  that the guards leave alone.
\<close>

record ('d, 'c, 'b, 'x, 'k) core =
  co_db :: 'd
  co_redis :: 'c
  co_filter :: "'b Filter"
  co_api :: 'x
  co_kafka :: 'k

record ('v, 'l, 'o) server_state =
  ss_core :: 'v
  ss_authLimiter :: "'l RateLimiter"
  ss_apiLimiter :: "'l RateLimiter"
  ss_obs :: 'o

record ('d, 'c, 'b, 'x, 'k, 'l) world_libs =
  wl_libs :: "'b libs"
  wl_gorm :: "'d gorm"
  wl_redis :: "'c redis"
  wl_kafka :: "'k kafkalib"
  wl_api :: "'x upstream"
  wl_rate :: "'l ratelib"
  wl_binders :: binders
  wl_uni :: "string \<Rightarrow> string"

record 'o obslib =
  ob_log :: "string \<Rightarrow> (string \<times> log_val) list \<Rightarrow> 'o \<Rightarrow> 'o"
  ob_inc :: "string list \<Rightarrow> 'o \<Rightarrow> 'o"
  ob_observe :: "string list \<Rightarrow> int \<Rightarrow> 'o \<Rightarrow> 'o"

record cors_config =
  cors_AllowAllOrigins :: bool
  cors_AllowOrigins :: "string list"
  cors_AddedHeaders :: "string list"

record 'w ginlib =
  gl_cors :: "cors_config \<Rightarrow> 'w handler"
  gl_Recovery :: "'w handler"
  gl_NoRoute :: "'w req_state \<Rightarrow> 'w req_state"
  gl_promhttp :: "'w req_state \<Rightarrow> 'w req_state"

text \<open>What one request draws from outside: clock and salt, a fresh identifier, the clock at its end.\<close>

record req_env =
  rq_env :: env
  rq_uuid :: string
  rq_end :: instant

section \<open>Services\<close>

definition newAuthService :: "Config \<Rightarrow> 'd UserRepository \<Rightarrow> 'd authService" where
  "newAuthService cfg userRepo =
     NewAuthService
       \<lparr>ad_UserRepo = userRepo, ad_JWTSecret = cfg_JWTSecret cfg,
        ad_AccessExpiry = cfg_JWTAccessExpiry cfg, ad_RefreshExpiry = cfg_JWTRefreshExpiry cfg\<rparr>"

definition deps_AuthService :: "('d, 'c, 'b, 'x, 'k, 'l) world_libs \<Rightarrow> Config \<Rightarrow> 'd authService" where
  "deps_AuthService W cfg = newAuthService cfg (NewUserRepository (wl_gorm W))"

definition deps_UserSvc :: "('d, 'c, 'b, 'x, 'k, 'l) world_libs \<Rightarrow> Config \<Rightarrow> ('d \<times> 'c) userServiceImpl" where
  "deps_UserSvc W cfg =
     NewUserService (NewCachingUserRepository (NewUserRepository (wl_gorm W)) (wl_redis W) (cfg_CacheTTL cfg))"

definition deps_ExchangeClient :: "('d, 'c, 'b, 'x, 'k, 'l) world_libs \<Rightarrow> Config \<Rightarrow> ('x \<times> 'c) rate_client" where
  "deps_ExchangeClient W cfg = CachedHTTPClient_GetRates (wl_uni W) (wl_api W) (wl_redis W) (cfg_CacheTTL cfg)"

section \<open>Handlers on the whole state\<close>

type_synonym ('d, 'c, 'b, 'x, 'k, 'l, 'o) app_state = "(('d, 'c, 'b, 'x, 'k) core, 'l, 'o) server_state"

definition on_auth ::
    "(('d, 'b) auth_state req_state \<Rightarrow> ('d, 'b) auth_state req_state)
     \<Rightarrow> ('d, 'c, 'b, 'x, 'k, 'l, 'o) app_state req_state \<Rightarrow> ('d, 'c, 'b, 'x, 'k, 'l, 'o) app_state req_state" where
  "on_auth h st =
     (case st of (w, c) \<Rightarrow>
      case h ((co_db (ss_core w), Some (co_filter (ss_core w))), c) of
        ((d, f), c') \<Rightarrow>
          (w\<lparr>ss_core := (ss_core w)\<lparr>co_db := d,
               co_filter := (case f of Some f' \<Rightarrow> f' | None \<Rightarrow> co_filter (ss_core w))\<rparr>\<rparr>, c'))"

definition on_users ::
    "(('d \<times> 'c) req_state \<Rightarrow> ('d \<times> 'c) req_state)
     \<Rightarrow> ('d, 'c, 'b, 'x, 'k, 'l, 'o) app_state req_state \<Rightarrow> ('d, 'c, 'b, 'x, 'k, 'l, 'o) app_state req_state" where
  "on_users h st =
     (case st of (w, c) \<Rightarrow>
      case h ((co_db (ss_core w), co_redis (ss_core w)), c) of
        ((d, r), c') \<Rightarrow> (w\<lparr>ss_core := (ss_core w)\<lparr>co_db := d, co_redis := r\<rparr>\<rparr>, c'))"

definition on_users_filter ::
    "((('d \<times> 'c) \<times> 'b Filter) req_state \<Rightarrow> (('d \<times> 'c) \<times> 'b Filter) req_state)
     \<Rightarrow> ('d, 'c, 'b, 'x, 'k, 'l, 'o) app_state req_state \<Rightarrow> ('d, 'c, 'b, 'x, 'k, 'l, 'o) app_state req_state" where
  "on_users_filter h st =
     (case st of (w, c) \<Rightarrow>
      case h (((co_db (ss_core w), co_redis (ss_core w)), co_filter (ss_core w)), c) of
        (((d, r), f), c') \<Rightarrow> (w\<lparr>ss_core := (ss_core w)\<lparr>co_db := d, co_redis := r, co_filter := f\<rparr>\<rparr>, c'))"

definition on_exchange ::
    "(('x \<times> 'c) req_state \<Rightarrow> ('x \<times> 'c) req_state)
     \<Rightarrow> ('d, 'c, 'b, 'x, 'k, 'l, 'o) app_state req_state \<Rightarrow> ('d, 'c, 'b, 'x, 'k, 'l, 'o) app_state req_state" where
  "on_exchange h st =
     (case st of (w, c) \<Rightarrow>
      case h ((co_api (ss_core w), co_redis (ss_core w)), c) of
        ((x, r), c') \<Rightarrow> (w\<lparr>ss_core := (ss_core w)\<lparr>co_api := x, co_redis := r\<rparr>\<rparr>, c'))"

definition on_kafka ::
    "('k req_state \<Rightarrow> 'k req_state)
     \<Rightarrow> ('d, 'c, 'b, 'x, 'k, 'l, 'o) app_state req_state \<Rightarrow> ('d, 'c, 'b, 'x, 'k, 'l, 'o) app_state req_state" where
  "on_kafka h st =
     (case st of (w, c) \<Rightarrow>
      case h (co_kafka (ss_core w), c) of
        (k, c') \<Rightarrow> (w\<lparr>ss_core := (ss_core w)\<lparr>co_kafka := k\<rparr>\<rparr>, c'))"

section \<open>Middleware\<close>

definition corsMiddleware :: "'w ginlib \<Rightarrow> string \<Rightarrow> 'w handler" where
  "corsMiddleware gin allowedOrigins =
     gl_cors gin
       \<lparr>cors_AllowAllOrigins = (allowedOrigins = ''*''),
        cors_AllowOrigins = (if allowedOrigins = ''*'' then [] else Split (CHR '','') allowedOrigins),
        cors_AddedHeaders = [''Authorization'']\<rparr>"

definition Writer_Status :: "gin_ctx \<Rightarrow> int" where
  "Writer_Status c = (case gc_Resp c of Some (n, _) \<Rightarrow> int n | None \<Rightarrow> 200)"

definition authLimit ::
    "('d, 'c, 'b, 'x, 'k, 'l) world_libs \<Rightarrow> req_env \<Rightarrow> ('d, 'c, 'b, 'x, 'k, 'l, 'o) app_state handler" where
  "authLimit W rq =
     RateLimiter_Limit (wl_rate W) (env_now (rq_env rq)) ss_authLimiter (\<lambda>rl w. w\<lparr>ss_authLimiter := rl\<rparr>)"

definition apiLimit ::
    "('d, 'c, 'b, 'x, 'k, 'l) world_libs \<Rightarrow> req_env \<Rightarrow> ('d, 'c, 'b, 'x, 'k, 'l, 'o) app_state handler" where
  "apiLimit W rq =
     RateLimiter_Limit (wl_rate W) (env_now (rq_env rq)) ss_apiLimiter (\<lambda>rl w. w\<lparr>ss_apiLimiter := rl\<rparr>)"

definition authMW ::
    "('d, 'c, 'b, 'x, 'k, 'l) world_libs \<Rightarrow> Config \<Rightarrow> req_env \<Rightarrow> 'w handler" where
  "authMW W cfg rq = AuthMiddleware (lib_jwt (wl_libs W)) (env_now (rq_env rq)) (cfg_JWTSecret cfg)"

definition globals ::
    "'o obslib \<Rightarrow> ('v, 'l, 'o) server_state ginlib \<Rightarrow> Config \<Rightarrow> req_env \<Rightarrow> ('v, 'l, 'o) server_state handler list" where
  "globals Obs gin cfg rq =
     [corsMiddleware gin (cfg_AllowedOrigins cfg),
      RequestID (rq_uuid rq),
      Metrics (\<lambda>ls w. w\<lparr>ss_obs := ob_inc Obs ls (ss_obs w)\<rparr>) (\<lambda>ls t w. w\<lparr>ss_obs := ob_observe Obs ls t (ss_obs w)\<rparr>)
        (env_now (rq_env rq)) (rq_end rq) Writer_Status,
      RequestLogger (\<lambda>m as w. w\<lparr>ss_obs := ob_log Obs m as (ss_obs w)\<rparr>) (env_now (rq_env rq)) (rq_end rq) Writer_Status,
      gl_Recovery gin]"

section \<open>Routes\<close>

definition health :: "'w req_state \<Rightarrow> 'w req_state" where
  "health st = (fst st, gin_JSON 200 (gin_H [(''status'', ''ok'')]) (snd st))"

definition readyz :: "'w req_state \<Rightarrow> 'w req_state" where
  "readyz st = (fst st, gin_JSON 200 (gin_H [(''status'', ''ready'')]) (snd st))"

definition routes ::
    "('d, 'c, 'b, 'x, 'k, 'l) world_libs \<Rightarrow> ('d, 'c, 'b, 'x, 'k, 'l, 'o) app_state ginlib \<Rightarrow> Config \<Rightarrow> req_env
     \<Rightarrow> (string \<times> string \<times> ('d, 'c, 'b, 'x, 'k, 'l, 'o) app_state handler list) list" where
  "routes W gin cfg rq =
     (let bd = wl_binders W; L = wl_libs W; E = rq_env rq;
          asvc = deps_AuthService W cfg; usvc = deps_UserSvc W cfg;
          producer = NewProducer (cfg_KafkaBrokers cfg) (cfg_KafkaTopic cfg)
      in
      [(''GET'', ''/health'', [final health]),
       (''GET'', ''/readyz'', [final readyz]),
       (''GET'', ''/metrics'', [final (gl_promhttp gin)]),
       (''GET'', ''/api/v1/auth/check'',
         [authLimit W rq, final (on_users_filter (UserHandler_CheckAvailability bd (lib_bloom L) usvc))]),
       (''POST'', ''/api/v1/auth/register'', [authLimit W rq, final (on_auth (AuthHandler_Register bd L asvc E))]),
       (''POST'', ''/api/v1/auth/login'', [authLimit W rq, final (on_auth (AuthHandler_Login bd L asvc E))]),
       (''POST'', ''/api/v1/auth/refresh'', [authLimit W rq, final (on_auth (AuthHandler_RefreshToken bd L asvc E))]),
       (''POST'', ''/api/v1/auth/logout'', [authLimit W rq, authMW W cfg rq, final AuthHandler_Logout]),
       (''GET'', ''/api/v1/me'', [apiLimit W rq, authMW W cfg rq, final (on_auth (AuthHandler_GetProfile asvc))]),
       (''PUT'', ''/api/v1/me'', [apiLimit W rq, authMW W cfg rq, final (on_auth (AuthHandler_UpdateProfile bd asvc))]),
       (''POST'', ''/api/v1/exchange/convert'',
         [apiLimit W rq, authMW W cfg rq,
          final (on_exchange (ExchangeHandler_Convert bd (wl_uni W) (deps_ExchangeClient W cfg)))]),
       (''GET'', ''/api/v1/admin/users'',
         [apiLimit W rq, authMW W cfg rq, RequireRole [''admin''], final (on_users (UserHandler_List usvc))]),
       (''DELETE'', ''/api/v1/admin/users/:id'',
         [apiLimit W rq, authMW W cfg rq, RequireRole [''admin''], final (on_users (UserHandler_Delete usvc))]),
       (''POST'', ''/api/v1/events/publish'',
         [apiLimit W rq, authMW W cfg rq,
          final (on_kafka (EventHandler_PublishEvent bd (wl_kafka W) (env_now E) (rq_uuid rq) producer))])])"

definition route_handlers ::
    "('w ginlib) \<Rightarrow> (string \<times> string \<times> 'w handler list) list \<Rightarrow> gin_ctx \<Rightarrow> 'w handler list" where
  "route_handlers gin rs c =
     (case filter (\<lambda>(m, p, hs). m = gc_Method c \<and> p = gc_FullPath c) rs of
        [] \<Rightarrow> [final (gl_NoRoute gin)]
      | (m, p, hs) # _ \<Rightarrow> hs)"

definition serve ::
    "('d, 'c, 'b, 'x, 'k, 'l) world_libs \<Rightarrow> 'o obslib \<Rightarrow> ('d, 'c, 'b, 'x, 'k, 'l, 'o) app_state ginlib \<Rightarrow> Config
     \<Rightarrow> req_env \<Rightarrow> ('d, 'c, 'b, 'x, 'k, 'l, 'o) app_state req_state
     \<Rightarrow> ('d, 'c, 'b, 'x, 'k, 'l, 'o) app_state req_state" where
  "serve W Obs gin cfg rq st =
     run_chain (globals Obs gin cfg rq @ route_handlers gin (routes W gin cfg rq) (snd st)) st"

section \<open>The framework's contract\<close>

definition gin_ok :: "'w ginlib \<Rightarrow> bool" where
  "gin_ok gin \<longleftrightarrow>
     (\<forall>next st. gl_Recovery gin next st = next st) \<and>
     (\<forall>cc next w c.
        (\<exists>hs. gl_cors gin cc next (w, c) = next (w, c\<lparr>gc_Out := hs\<rparr>)) \<or>
        (\<exists>c'. gl_cors gin cc next (w, c) = (w, c') \<and> resp_status c' \<in> {Some 204, Some 403})) \<and>
     (\<forall>st. fst (gl_NoRoute gin st) = fst st \<and> resp_status (snd (gl_NoRoute gin st)) \<notin> {Some 200, Some 201}) \<and>
     (\<forall>st. fst (gl_promhttp gin st) = fst st)"

text \<open>The context a route's handlers see: response headers and a request identifier added.\<close>

definition prepared :: "(string \<times> string) list \<Rightarrow> string \<Rightarrow> gin_ctx \<Rightarrow> gin_ctx" where
  "prepared out i c = c\<lparr>gc_Out := out, gc_Keys := (gc_Keys c)(''request_id'' \<mapsto> KString i)\<rparr>"

lemma prepared_simps [simp]:
  "gc_Header (prepared out i c) = gc_Header c" "gc_ClientIP (prepared out i c) = gc_ClientIP c"
  "gc_Body (prepared out i c) = gc_Body c" "gc_Query (prepared out i c) = gc_Query c"
  "gc_Param_id (prepared out i c) = gc_Param_id c" "gc_Context (prepared out i c) = gc_Context c"
  "bearer (prepared out i c) = bearer c" "auth_claims J now s (prepared out i c) = auth_claims J now s c"
  by (simp_all add: prepared_def bearer_def auth_claims_def Let_def)

lemma globals_run:
  assumes "gin_ok gin"
  shows "(\<exists>out i. ss_core (fst (run_chain (globals Obs gin cfg rq @ hs) (w, c))) = ss_core (fst (run_chain hs (w, prepared out i c))) \<and>
            gc_Resp (snd (run_chain (globals Obs gin cfg rq @ hs) (w, c))) = gc_Resp (snd (run_chain hs (w, prepared out i c)))) \<or>
         (ss_core (fst (run_chain (globals Obs gin cfg rq @ hs) (w, c))) = ss_core w \<and>
          resp_status (snd (run_chain (globals Obs gin cfg rq @ hs) (w, c))) \<in> {Some 204, Some 403})"
    (is "?pass \<or> ?stop")
proof -
  let ?rest = "run_chain (tl (globals Obs gin cfg rq) @ hs)"
  have run: "run_chain (globals Obs gin cfg rq @ hs) (w, c) = corsMiddleware gin (cfg_AllowedOrigins cfg) ?rest (w, c)"
    by (simp add: globals_def)
  have rec: "gl_Recovery gin k = k" for k using assms by (auto simp: gin_ok_def)
  have rest: "ss_core (fst (?rest (w, c'))) = ss_core (fst (run_chain hs (w, RequestID_ctx))) \<and>
      gc_Resp (snd (?rest (w, c'))) = gc_Resp (snd (run_chain hs (w, RequestID_ctx)))"
    if "RequestID_ctx = (let i = gc_Header c' RequestIDHeader; i = (if i = [] then rq_uuid rq else i)
          in gin_SetHeader RequestIDHeader i (gin_Set ''request_id'' (KString i) c'))" for c' RequestID_ctx
    using that
    by (simp add: globals_def RequestID_def Metrics_def RequestLogger_def Let_def rec split_beta)
  consider (pass) out where "corsMiddleware gin (cfg_AllowedOrigins cfg) ?rest (w, c) = ?rest (w, c\<lparr>gc_Out := out\<rparr>)"
    | (stop) c' where "corsMiddleware gin (cfg_AllowedOrigins cfg) ?rest (w, c) = (w, c')"
        "resp_status c' \<in> {Some 204, Some 403}"
    using assms unfolding gin_ok_def corsMiddleware_def by meson
  then show ?thesis
  proof cases
    case pass
    define i where "i = (if gc_Header c RequestIDHeader = [] then rq_uuid rq else gc_Header c RequestIDHeader)"
    have "gin_SetHeader RequestIDHeader i (gin_Set ''request_id'' (KString i) (c\<lparr>gc_Out := out\<rparr>)) =
        prepared ((RequestIDHeader, i) # filter (\<lambda>p. fst p \<noteq> RequestIDHeader) out) i c"
      by (simp add: gin_SetHeader_def gin_Set_def prepared_def)
    with rest [OF refl, of "c\<lparr>gc_Out := out\<rparr>"] pass run have ?pass
      by (auto simp: i_def Let_def)
    then show ?thesis ..
  next
    case stop
    with run have ?stop by simp
    then show ?thesis ..
  qed
qed

section \<open>Guards on the server's state\<close>

definition limit_ok :: "'l ratelib \<Rightarrow> instant \<Rightarrow> ('w \<Rightarrow> 'l RateLimiter) \<Rightarrow> 'w req_state \<Rightarrow> bool" where
  "limit_ok R now get st = fst (RateLimiter_allow R now (get (fst st)) (gc_ClientIP (snd st)))"

definition limit_pass ::
    "'l ratelib \<Rightarrow> instant \<Rightarrow> ('w \<Rightarrow> 'l RateLimiter) \<Rightarrow> ('l RateLimiter \<Rightarrow> 'w \<Rightarrow> 'w) \<Rightarrow> 'w req_state \<Rightarrow> 'w req_state" where
  "limit_pass R now get put st =
     (put (snd (RateLimiter_allow R now (get (fst st)) (gc_ClientIP (snd st)))) (fst st), snd st)"

interpretation auth_limit: guard "RateLimiter_Limit R now ss_authLimiter (\<lambda>rl w. w\<lparr>ss_authLimiter := rl\<rparr>)"
    "limit_ok R now ss_authLimiter" "limit_pass R now ss_authLimiter (\<lambda>rl w. w\<lparr>ss_authLimiter := rl\<rparr>)"
    "RateLimiter_Limit R now ss_authLimiter (\<lambda>rl w. w\<lparr>ss_authLimiter := rl\<rparr>)
       (limit_pass R now ss_authLimiter (\<lambda>rl w. w\<lparr>ss_authLimiter := rl\<rparr>))"
    ss_core "{429}" for R now
  by unfold_locales
     (auto simp: RateLimiter_Limit_def limit_ok_def limit_pass_def gin_defs split_beta)

interpretation api_limit: guard "RateLimiter_Limit R now ss_apiLimiter (\<lambda>rl w. w\<lparr>ss_apiLimiter := rl\<rparr>)"
    "limit_ok R now ss_apiLimiter" "limit_pass R now ss_apiLimiter (\<lambda>rl w. w\<lparr>ss_apiLimiter := rl\<rparr>)"
    "RateLimiter_Limit R now ss_apiLimiter (\<lambda>rl w. w\<lparr>ss_apiLimiter := rl\<rparr>)
       (limit_pass R now ss_apiLimiter (\<lambda>rl w. w\<lparr>ss_apiLimiter := rl\<rparr>))"
    ss_core "{429}" for R now
  by unfold_locales
     (auto simp: RateLimiter_Limit_def limit_ok_def limit_pass_def gin_defs split_beta)

interpretation auth_limited: guard_seq "RateLimiter_Limit R now ss_authLimiter (\<lambda>rl w. w\<lparr>ss_authLimiter := rl\<rparr>)"
    "limit_ok R now ss_authLimiter" "limit_pass R now ss_authLimiter (\<lambda>rl w. w\<lparr>ss_authLimiter := rl\<rparr>)"
    "RateLimiter_Limit R now ss_authLimiter (\<lambda>rl w. w\<lparr>ss_authLimiter := rl\<rparr>)
       (limit_pass R now ss_authLimiter (\<lambda>rl w. w\<lparr>ss_authLimiter := rl\<rparr>))"
    "AuthMiddleware J t secret" "\<lambda>st. auth_claims J t secret (snd st) \<noteq> None"
    "\<lambda>st. (fst st, with_claims (the (auth_claims J t secret (snd st))) (snd st))" auth_stop ss_core "{429}" "{401}"
  for R now J t secret
  by unfold_locales

interpretation api_limited: guard_seq "RateLimiter_Limit R now ss_apiLimiter (\<lambda>rl w. w\<lparr>ss_apiLimiter := rl\<rparr>)"
    "limit_ok R now ss_apiLimiter" "limit_pass R now ss_apiLimiter (\<lambda>rl w. w\<lparr>ss_apiLimiter := rl\<rparr>)"
    "RateLimiter_Limit R now ss_apiLimiter (\<lambda>rl w. w\<lparr>ss_apiLimiter := rl\<rparr>)
       (limit_pass R now ss_apiLimiter (\<lambda>rl w. w\<lparr>ss_apiLimiter := rl\<rparr>))"
    "AuthMiddleware J t secret" "\<lambda>st. auth_claims J t secret (snd st) \<noteq> None"
    "\<lambda>st. (fst st, with_claims (the (auth_claims J t secret (snd st))) (snd st))" auth_stop ss_core "{429}" "{401}"
  for R now J t secret
  by unfold_locales

text \<open>A request that had an effect, or was answered with success.\<close>

definition effective :: "('v, 'l, 'o) server_state req_state \<Rightarrow> ('v, 'l, 'o) server_state req_state \<Rightarrow> bool" where
  "effective st st' \<longleftrightarrow> ss_core (fst st') \<noteq> ss_core (fst st) \<or> resp_status (snd st') \<in> {Some 200, Some 201}"

lemma effective_authLimit:
  assumes "effective st (run_chain (authLimit W rq # authMW W cfg rq # hs) st)"
  obtains cl st1 where "auth_claims (lib_jwt (wl_libs W)) (env_now (rq_env rq)) (cfg_JWTSecret cfg) (snd st) = Some cl"
    and "run_chain (authLimit W rq # authMW W cfg rq # hs) st = run_chain hs st1"
    and "ss_core (fst st1) = ss_core (fst st)" and "snd st1 = with_claims cl (snd st)"
proof -
  let ?J = "lib_jwt (wl_libs W)" and ?t = "env_now (rq_env rq)" and ?s = "cfg_JWTSecret cfg"
  let ?h = "seq_handler (RateLimiter_Limit (wl_rate W) ?t ss_authLimiter (\<lambda>rl w. w\<lparr>ss_authLimiter := rl\<rparr>)) (AuthMiddleware ?J ?t ?s)"
  let ?lim = "limit_pass (wl_rate W) ?t ss_authLimiter (\<lambda>rl w. w\<lparr>ss_authLimiter := rl\<rparr>)"
  have *: "run_chain (authLimit W rq # authMW W cfg rq # hs) st = ?h (run_chain hs) st"
    by (simp add: seq_handler_def run_chain_Cons authLimit_def authMW_def)
  have "ss_core (fst (?h (run_chain hs) st)) \<noteq> ss_core (fst st) \<or>
      (\<exists>n. resp_status (snd (?h (run_chain hs) st)) = Some n \<and> n \<notin> {429} \<union> {401})"
    using assms unfolding effective_def * by auto
  from auth_limited.both.admitted [OF this] obtain cl where cl: "auth_claims ?J ?t ?s (snd st) = Some cl"
    and run: "?h (run_chain hs) st = run_chain hs (fst (?lim st), with_claims cl (snd st))"
    by (auto simp: limit_pass_def)
  show ?thesis
    by (rule that [OF cl, of "(fst (?lim st), with_claims cl (snd st))"])
       (simp_all only: * run, simp_all add: limit_pass_def)
qed

lemma effective_apiLimit:
  assumes "effective st (run_chain (apiLimit W rq # authMW W cfg rq # hs) st)"
  obtains cl st1 where "auth_claims (lib_jwt (wl_libs W)) (env_now (rq_env rq)) (cfg_JWTSecret cfg) (snd st) = Some cl"
    and "run_chain (apiLimit W rq # authMW W cfg rq # hs) st = run_chain hs st1"
    and "ss_core (fst st1) = ss_core (fst st)" and "snd st1 = with_claims cl (snd st)"
proof -
  let ?J = "lib_jwt (wl_libs W)" and ?t = "env_now (rq_env rq)" and ?s = "cfg_JWTSecret cfg"
  let ?h = "seq_handler (RateLimiter_Limit (wl_rate W) ?t ss_apiLimiter (\<lambda>rl w. w\<lparr>ss_apiLimiter := rl\<rparr>)) (AuthMiddleware ?J ?t ?s)"
  let ?lim = "limit_pass (wl_rate W) ?t ss_apiLimiter (\<lambda>rl w. w\<lparr>ss_apiLimiter := rl\<rparr>)"
  have *: "run_chain (apiLimit W rq # authMW W cfg rq # hs) st = ?h (run_chain hs) st"
    by (simp add: seq_handler_def run_chain_Cons apiLimit_def authMW_def)
  have "ss_core (fst (?h (run_chain hs) st)) \<noteq> ss_core (fst st) \<or>
      (\<exists>n. resp_status (snd (?h (run_chain hs) st)) = Some n \<and> n \<notin> {429} \<union> {401})"
    using assms unfolding effective_def * by auto
  from api_limited.both.admitted [OF this] obtain cl where cl: "auth_claims ?J ?t ?s (snd st) = Some cl"
    and run: "?h (run_chain hs) st = run_chain hs (fst (?lim st), with_claims cl (snd st))"
    by (auto simp: limit_pass_def)
  show ?thesis
    by (rule that [OF cl, of "(fst (?lim st), with_claims cl (snd st))"])
       (simp_all only: * run, simp_all add: limit_pass_def)
qed

definition public_routes :: "(string \<times> string) list" where
  "public_routes =
     [(''GET'', ''/health''), (''GET'', ''/readyz''), (''GET'', ''/metrics''), (''GET'', ''/api/v1/auth/check''),
      (''POST'', ''/api/v1/auth/register''), (''POST'', ''/api/v1/auth/login''), (''POST'', ''/api/v1/auth/refresh'')]"

definition admin_path :: "string \<Rightarrow> bool" where
  "admin_path p = (take 13 p = ''/api/v1/admin'')"

lemma route_handlers_cases:
  "route_handlers gin rs c = [final (gl_NoRoute gin)] \<or>
   (\<exists>hs. (gc_Method c, gc_FullPath c, hs) \<in> set rs \<and> route_handlers gin rs c = hs)"
proof (cases "filter (\<lambda>(m, p, hs). m = gc_Method c \<and> p = gc_FullPath c) rs")
  case Nil
  then show ?thesis by (simp add: route_handlers_def)
next
  case (Cons x xs)
  then have "x \<in> set (filter (\<lambda>(m, p, hs). m = gc_Method c \<and> p = gc_FullPath c) rs)" by simp
  then have "x \<in> set rs" "fst x = gc_Method c" "fst (snd x) = gc_FullPath c" by auto
  then have "(gc_Method c, gc_FullPath c, snd (snd x)) \<in> set rs" by (metis prod.collapse)
  with Cons show ?thesis by (simp add: route_handlers_def split_beta)
qed

lemma protected_handlers:
  assumes "(gc_Method c, gc_FullPath c, hs) \<in> set (routes W gin cfg rq)"
    and "(gc_Method c, gc_FullPath c) \<notin> set public_routes"
  shows "(take 2 hs = [authLimit W rq, authMW W cfg rq] \<and> \<not> admin_path (gc_FullPath c)) \<or>
         (take 2 hs = [apiLimit W rq, authMW W cfg rq] \<and> \<not> admin_path (gc_FullPath c)) \<or>
         take 3 hs = [apiLimit W rq, authMW W cfg rq, RequireRole [''admin'']]"
  using assms(1) unfolding routes_def Let_def list.set insert_iff empty_iff prod.inject
  by (elim disjE conjE; (use assms(2) in \<open>simp add: public_routes_def\<close>; fail)?; simp add: admin_path_def)

lemma take2: "take 2 hs = [a, b] \<Longrightarrow> hs = a # b # drop 2 hs"
  by (metis append_Cons append_Nil append_take_drop_id)

lemma take3: "take 3 hs = [a, b, c] \<Longrightarrow> hs = a # b # c # drop 3 hs"
  by (metis append_Cons append_Nil append_take_drop_id)

lemma effective_serve:
  assumes "gin_ok gin" "effective (w, c) (serve W Obs gin cfg rq (w, c))"
  obtains out i where "effective (w, prepared out i c)
      (run_chain (route_handlers gin (routes W gin cfg rq) c) (w, prepared out i c))"
  using globals_run [OF assms(1), of Obs cfg rq "route_handlers gin (routes W gin cfg rq) c" w c] assms(2)
  by (auto simp: effective_def serve_def resp_status_def) metis+

section \<open>Properties\<close>

text \<open>
  C5. Every route but the seven public ones is protected. If a request to it changes anything of the
  program's data or is answered with success, then it carried a bearer token that is signed with the
  configured secret by an HMAC method and has not expired; on an administration route that token's
  role is \<^verbatim>\<open>admin\<close>.
\<close>

theorem protected_routes:
  assumes J: "jwt_ok (lib_jwt (wl_libs W)) sig" and gin: "gin_ok gin"
    and np: "(gc_Method c, gc_FullPath c) \<notin> set public_routes"
    and res: "serve W Obs gin cfg rq (w, c) = (w', c')"
    and eff: "ss_core w' \<noteq> ss_core w \<or> resp_status c' \<in> {Some 200, Some 201}"
  shows "\<exists>tok cl alg. bearer c = Some tok \<and>
           sig (SigningMethodHMAC alg) (cfg_JWTSecret cfg) tok cl \<and> unexpired (env_now (rq_env rq)) cl \<and>
           (admin_path (gc_FullPath c) \<longrightarrow> cl_Role cl = ''admin'')"
proof -
  let ?J = "lib_jwt (wl_libs W)" and ?t = "env_now (rq_env rq)" and ?s = "cfg_JWTSecret cfg"
  let ?hs = "route_handlers gin (routes W gin cfg rq) c"
  have "effective (w, c) (serve W Obs gin cfg rq (w, c))" using res eff by (simp add: effective_def)
  from effective_serve [OF gin this] obtain out i where
    E: "effective (w, prepared out i c) (run_chain ?hs (w, prepared out i c))" .
  have cl: "\<exists>cl. auth_claims ?J ?t ?s c = Some cl \<and> (admin_path (gc_FullPath c) \<longrightarrow> cl_Role cl = ''admin'')"
    using route_handlers_cases [of gin "routes W gin cfg rq" c]
  proof (elim disjE exE conjE)
    assume "?hs = [final (gl_NoRoute gin)]"
    with E gin show ?thesis by (auto simp: effective_def gin_ok_def)
  next
    fix hs assume mem: "(gc_Method c, gc_FullPath c, hs) \<in> set (routes W gin cfg rq)" and hs: "?hs = hs"
    from protected_handlers [OF mem np] show ?thesis
    proof (elim disjE conjE)
      assume "take 2 hs = [authLimit W rq, authMW W cfg rq]" "\<not> admin_path (gc_FullPath c)"
      with E hs show ?thesis by (metis effective_authLimit prepared_simps(8) snd_conv take2)
    next
      assume "take 2 hs = [apiLimit W rq, authMW W cfg rq]" "\<not> admin_path (gc_FullPath c)"
      with E hs show ?thesis by (metis effective_apiLimit prepared_simps(8) snd_conv take2)
    next
      assume "take 3 hs = [apiLimit W rq, authMW W cfg rq, RequireRole [''admin'']]"
      from take3 [OF this] E hs obtain k where
        E': "effective (w, prepared out i c) (run_chain (apiLimit W rq # authMW W cfg rq # RequireRole [''admin''] # k) (w, prepared out i c))"
        by metis
      from effective_apiLimit [OF E'] obtain cl st1 where
        cl: "auth_claims ?J ?t ?s c = Some cl" and
        run: "run_chain (apiLimit W rq # authMW W cfg rq # RequireRole [''admin''] # k) (w, prepared out i c) =
              run_chain (RequireRole [''admin''] # k) st1" and
        st1: "ss_core (fst st1) = ss_core w" "snd st1 = with_claims cl (prepared out i c)" by auto
      have "role_ok [''admin''] (snd st1)"
        using role.admitted [of ss_core "[''admin'']" "run_chain k" st1] E' st1(1)
        unfolding effective_def run by auto
      with cl st1(2) show ?thesis by (auto simp: role_ok_def)
    qed
  qed
  then obtain tok cl where "bearer c = Some tok" and v: "ValidateToken ?J ?t ?s tok = Inr cl"
    and "admin_path (gc_FullPath c) \<longrightarrow> cl_Role cl = ''admin''"
    by (auto simp: auth_claims_def split: option.splits sum.splits)
  with ValidateToken_sound [OF J v] show ?thesis by blast
qed

text \<open>A server on the reference libraries, and the list request of an administrator.\<close>

definition mem_world :: "(db_mem, redis_mem, string list, unit, kafka_msg list, int \<times> int \<times> instant) world_libs" where
  "mem_world =
     \<lparr>wl_libs = mem_libs, wl_gorm = mem_gorm, wl_redis = mem_redis, wl_kafka = mem_kafka, wl_api = mem_api,
      wl_rate = mem_rate, wl_binders = mem_binders, wl_uni = id\<rparr>"

definition mem_gin :: "'w ginlib" where
  "mem_gin =
     \<lparr>gl_cors = (\<lambda>cc next st. next st), gl_Recovery = (\<lambda>next st. next st),
      gl_NoRoute = (\<lambda>st. (fst st, gin_JSON 404 (gin_H []) (snd st))), gl_promhttp = (\<lambda>st. st)\<rparr>"

definition mem_obs :: "unit obslib" where
  "mem_obs = \<lparr>ob_log = (\<lambda>m as o'. o'), ob_inc = (\<lambda>ls o'. o'), ob_observe = (\<lambda>ls t o'. o')\<rparr>"

definition mem_state :: "(db_mem, redis_mem, string list, unit, kafka_msg list, int \<times> int \<times> instant, unit) app_state" where
  "mem_state =
     \<lparr>ss_core = \<lparr>co_db = empty_db, co_redis = [], co_filter = \<lparr>f_bf = []\<rparr>, co_api = (), co_kafka = []\<rparr>,
      ss_authLimiter = NewRateLimiter 1 1, ss_apiLimiter = NewRateLimiter 1 1, ss_obs = ()\<rparr>"

definition mem_rq :: req_env where
  "mem_rq = \<lparr>rq_env = mem_env, rq_uuid = ''u'', rq_end = 0\<rparr>"

definition admin_claims :: Claims where
  "admin_claims = \<lparr>cl_UserID = 1, cl_Email = [], cl_Role = ''admin'', cl_ExpiresAt = None, cl_IssuedAt = None,
                   cl_Issuer = [], cl_Subject = []\<rparr>"

definition admin_token :: "string \<Rightarrow> string" where
  "admin_token secret = sign_mem (SigningMethodHMAC ''HS256'') admin_claims secret"

definition admin_ctx :: "string \<Rightarrow> gin_ctx" where
  "admin_ctx secret =
     (mem_ctx [])\<lparr>gc_Method := ''GET'', gc_FullPath := ''/api/v1/admin/users'',
        gc_Header := (\<lambda>k. if k = ''Authorization'' then ''Bearer '' @ admin_token secret else [])\<rparr>"

lemma mem_gin_simps: "gl_cors mem_gin cc k st = k st" "gl_Recovery mem_gin k st = k st"
  by (simp_all add: mem_gin_def)

lemma mem_gin_ok: "gin_ok mem_gin"
proof -
  have "\<exists>hs. gl_cors mem_gin cc next (w, c) = next (w, c\<lparr>gc_Out := hs\<rparr>)" for cc "next" w c
    by (rule exI [of _ "gc_Out c"]) (simp add: mem_gin_def)
  then show ?thesis unfolding gin_ok_def by (intro conjI allI disjI1) (simp_all add: mem_gin_def)
qed

lemma admin_token_ok: "auth_claims mem_jwt now secret (admin_ctx secret) = Some admin_claims"
proof -
  have s: "sig_mem (SigningMethodHMAC ''HS256'') secret (admin_token secret) admin_claims"
    by (simp add: sig_mem_def admin_token_def open_sign_mem)
  have "ValidateToken mem_jwt now secret (admin_token secret) = Inr admin_claims"
    using ValidateToken_signed [OF mem_jwt_ok s, of now] by (simp add: unexpired_def admin_claims_def)
  then show ?thesis
    by (simp add: auth_claims_def bearer_def admin_ctx_def SplitN2_def EqualFold_def Let_def)
qed

lemma mem_limit: "\<exists>rl. RateLimiter_allow mem_rate t (NewRateLimiter 1 1) ip = (True, rl)"
  by (simp add: RateLimiter_allow_eq NewRateLimiter_def mem_tokens_def)

lemma admin_chain:
  assumes "auth_claims mem_jwt (env_now mem_env) (cfg_JWTSecret cfg) c = Some admin_claims"
  shows "\<exists>w. ss_core w = ss_core mem_state \<and>
     run_chain [apiLimit mem_world mem_rq, authMW mem_world cfg mem_rq, RequireRole [''admin''], final h] (mem_state, c) =
     h (w, with_claims admin_claims c)"
proof -
  obtain rl where rl: "RateLimiter_allow mem_rate (env_now mem_env) (NewRateLimiter 1 1) (gc_ClientIP c) = (True, rl)"
    using mem_limit by blast
  have "run_chain [apiLimit mem_world mem_rq, authMW mem_world cfg mem_rq, RequireRole [''admin''], final h] (mem_state, c) =
     h (mem_state\<lparr>ss_apiLimiter := rl\<rparr>, with_claims admin_claims c)"
    using rl assms
    by (simp add: apiLimit_def mem_world_def mem_rq_def RateLimiter_Limit_def mem_state_def authMW_def
        AuthMiddleware_pass RequireRole_def admin_claims_def)
  then show ?thesis by (intro exI [of _ "mem_state\<lparr>ss_apiLimiter := rl\<rparr>"]) simp
qed

lemma admin_users:
  assumes "ss_core w = ss_core mem_state" "gc_Context c = background"
  shows "resp_status (snd (on_users (UserHandler_List (deps_UserSvc mem_world cfg)) (w, c))) = Some 200"
  using assms
  by (simp add: on_users_def UserHandler_List_def userServiceImpl_List_def deps_UserSvc_def mem_world_def mem_state_def
      CachingUserRepository_List_def UserRepositoryImpl_List_def mem_gorm_def empty_db_def live_def tab_def)

lemma mem_rq_uuid: "rq_uuid mem_rq = ''u''"
  by (simp add: mem_rq_def)

lemma admin_list: "resp_status (snd (serve mem_world mem_obs mem_gin cfg mem_rq (mem_state, admin_ctx (cfg_JWTSecret cfg)))) = Some 200"
proof -
  let ?c = "admin_ctx (cfg_JWTSecret cfg)"
  let ?h = "on_users (UserHandler_List (deps_UserSvc mem_world cfg))"
  have hs: "route_handlers mem_gin (routes mem_world mem_gin cfg mem_rq) ?c =
      [apiLimit mem_world mem_rq, authMW mem_world cfg mem_rq, RequireRole [''admin''], final ?h]"
    by (simp add: route_handlers_def routes_def admin_ctx_def Let_def)
  have "resp_status (snd (run_chain (route_handlers mem_gin (routes mem_world mem_gin cfg mem_rq) ?c) (mem_state, prepared out i ?c)))
      = Some 200" for out i
  proof -
    have "auth_claims mem_jwt (env_now mem_env) (cfg_JWTSecret cfg) (prepared out i ?c) = Some admin_claims"
      by (simp add: admin_token_ok)
    from admin_chain [OF this, of ?h] obtain w where "ss_core w = ss_core mem_state"
      "run_chain (route_handlers mem_gin (routes mem_world mem_gin cfg mem_rq) ?c) (mem_state, prepared out i ?c) =
        ?h (w, with_claims admin_claims (prepared out i ?c))" unfolding hs by blast
    moreover have "gc_Context (with_claims admin_claims (prepared out i ?c)) = background"
      by (simp add: admin_ctx_def)
    ultimately show ?thesis by (simp only: admin_users)
  qed
  note ok = this
  have "gin_SetHeader RequestIDHeader ''u'' (gin_Set ''request_id'' (KString ''u'') ?c) =
      prepared [(RequestIDHeader, ''u'')] ''u'' ?c"
    by (simp add: gin_SetHeader_def gin_Set_def prepared_def admin_ctx_def mem_ctx_def)
  moreover have "gc_Header ?c RequestIDHeader = []" by (simp add: admin_ctx_def RequestIDHeader_def)
  ultimately show ?thesis
    using ok [of "[(RequestIDHeader, ''u'')]" "''u''"]
    by (simp add: serve_def globals_def corsMiddleware_def mem_gin_simps RequestID_def Metrics_def RequestLogger_def Let_def split_beta resp_status_def mem_rq_uuid)
qed

theorem protected_routes_witness:
  "\<exists>cfg w' c' tok cl alg. serve mem_world mem_obs mem_gin cfg mem_rq (mem_state, admin_ctx (cfg_JWTSecret cfg)) = (w', c') \<and>
     resp_status c' = Some 200 \<and> bearer (admin_ctx (cfg_JWTSecret cfg)) = Some tok \<and>
     sig_mem (SigningMethodHMAC alg) (cfg_JWTSecret cfg) tok cl \<and> cl_Role cl = ''admin''"
proof -
  obtain cfg :: Config where True by blast
  let ?c = "admin_ctx (cfg_JWTSecret cfg)"
  obtain w' c' where res: "serve mem_world mem_obs mem_gin cfg mem_rq (mem_state, ?c) = (w', c')" by (metis surj_pair)
  with admin_list [of cfg] have ok: "resp_status c' = Some 200" by simp
  have np: "(gc_Method ?c, gc_FullPath ?c) \<notin> set public_routes" and ad: "admin_path (gc_FullPath ?c)"
    by (simp_all add: admin_ctx_def public_routes_def admin_path_def)
  have J: "jwt_ok (lib_jwt (wl_libs mem_world)) sig_mem" by (simp add: mem_world_def mem_jwt_ok)
  from protected_routes [OF J mem_gin_ok np res] ok ad res show ?thesis by blast
qed

end
