(* ===== verification/Grpc.thy ===== *)
theory Grpc
  imports AuthService Exchange Kafka
begin

text \<open>
  \<^verbatim>\<open>internal/grpc\<close>: the gRPC services delegate to the same services as the HTTP handlers. The messages
  of the generated code are records with the fields the handlers read and write. Three functions of
  the standard library are arguments where a handler's result only passes them on: the RFC 3339 text of
  an instant in the location its value carries, the scanner for \<^verbatim>\<open>%f\<close>, and a fresh identifier.
\<close>

record pb_RegisterRequest =
  pbreg_Email :: string
  pbreg_Password :: string
  pbreg_Name :: string

record pb_AuthResponse =
  pbauth_AccessToken :: string
  pbauth_RefreshToken :: string
  pbauth_ExpiresAt :: int

record pb_User =
  pbusr_Id :: int64
  pbusr_Email :: string
  pbusr_Name :: string
  pbusr_Role :: string
  pbusr_CreatedAt :: string
  pbusr_UpdatedAt :: string

record pb_PublishResponse =
  pbpub_Id :: string
  pbpub_Success :: bool
  pbpub_Message :: string

definition pb_tokens :: "AuthResponse \<Rightarrow> pb_AuthResponse" where
  "pb_tokens resp =
     \<lparr>pbauth_AccessToken = auth_AccessToken resp, pbauth_RefreshToken = auth_RefreshToken resp,
      pbauth_ExpiresAt = auth_ExpiresAt resp\<rparr>"

section \<open>Authentication\<close>

definition AuthGRPCHandler_Register ::
    "'b libs \<Rightarrow> 's authService \<Rightarrow> env \<Rightarrow> go_context \<Rightarrow> ('s, 'b) auth_state \<Rightarrow> pb_RegisterRequest
     \<Rightarrow> (error + pb_AuthResponse) \<times> ('s, 'b) auth_state" where
  "AuthGRPCHandler_Register L svc E ctx st req =
     (case authService_Register L svc E ctx st
             \<lparr>reg_Email = pbreg_Email req, reg_Password = pbreg_Password req, reg_Name = pbreg_Name req,
              reg_Username = []\<rparr> of
        (Inl e, st') \<Rightarrow>
          if errors_Is e ErrEmailTaken then (Inl (ErrNew ''email already taken''), st') else (Inl e, st')
      | (Inr resp, st') \<Rightarrow> (Inr (pb_tokens resp), st'))"

definition AuthGRPCHandler_Login ::
    "'b libs \<Rightarrow> 's authService \<Rightarrow> env \<Rightarrow> go_context \<Rightarrow> ('s, 'b) auth_state \<Rightarrow> LoginRequest
     \<Rightarrow> (error + pb_AuthResponse) \<times> ('s, 'b) auth_state" where
  "AuthGRPCHandler_Login L svc E ctx st req =
     (case authService_Login L svc E ctx st
             \<lparr>login_Email = login_Email req, login_Password = login_Password req\<rparr> of
        (Inl e, st') \<Rightarrow>
          if errors_Is e ErrInvalidCredentials then (Inl (ErrNew ''invalid email or password''), st') else (Inl e, st')
      | (Inr resp, st') \<Rightarrow> (Inr (pb_tokens resp), st'))"

definition AuthGRPCHandler_RefreshToken ::
    "'b libs \<Rightarrow> 's authService \<Rightarrow> env \<Rightarrow> go_context \<Rightarrow> ('s, 'b) auth_state \<Rightarrow> string
     \<Rightarrow> (error + pb_AuthResponse) \<times> ('s, 'b) auth_state" where
  "AuthGRPCHandler_RefreshToken L svc E ctx st refreshToken =
     (case authService_RefreshToken L svc E ctx st refreshToken of
        (Inl e, st') \<Rightarrow>
          if errors_Is e ErrInvalidRefreshToken then (Inl (ErrNew ''invalid or expired refresh token''), st')
          else (Inl e, st')
      | (Inr resp, st') \<Rightarrow> (Inr (pb_tokens resp), st'))"

definition AuthGRPCHandler_GetProfile ::
    "(instant \<Rightarrow> string) \<Rightarrow> 's authService \<Rightarrow> go_context \<Rightarrow> ('s, 'b) auth_state \<Rightarrow> int64
     \<Rightarrow> (error + pb_User) \<times> ('s, 'b) auth_state" where
  "AuthGRPCHandler_GetProfile fmt svc ctx st userId =
     (case authService_GetProfile svc ctx st userId of
        (Inl e, st') \<Rightarrow>
          if errors_Is e ErrNotFound then (Inl (ErrNew ''user not found''), st') else (Inl e, st')
      | (Inr user, st') \<Rightarrow>
          (Inr \<lparr>pbusr_Id = usr_ID user, pbusr_Email = usr_Email user, pbusr_Name = usr_Name user,
                pbusr_Role = usr_Role user, pbusr_CreatedAt = fmt (usr_CreatedAt user),
                pbusr_UpdatedAt = fmt (usr_UpdatedAt user)\<rparr>, st'))"

definition AuthGRPCHandler_Logout :: "'s \<Rightarrow> string \<times> 's" where
  "AuthGRPCHandler_Logout st = (''logged out'', st)"

section \<open>Exchange\<close>

definition ExchangeGRPCHandler_Convert ::
    "(string \<Rightarrow> string) \<Rightarrow> 's rate_client \<Rightarrow> 's \<Rightarrow> ConvertRequest \<Rightarrow> (error + ConvertResponse) \<times> 's" where
  "ExchangeGRPCHandler_Convert uni client s req =
     (case exchangeServiceImpl_Convert uni client s
             \<lparr>conv_From = conv_From req, conv_To = conv_To req, conv_Amt = conv_Amt req\<rparr> of
        (Inl e, s') \<Rightarrow>
          if errors_Is e ErrUnsupportedCurrency then (Inl (ErrNew ''unsupported currency''), s') else (Inl e, s')
      | (Inr resp, s') \<Rightarrow>
          (Inr \<lparr>cr_From = cr_From resp, cr_To = cr_To resp, cr_Amount = cr_Amount resp, cr_Rate = cr_Rate resp,
                cr_Converted = cr_Converted resp\<rparr>, s'))"

definition ExchangeGRPCHandler_GetRates ::
    "(string \<Rightarrow> string) \<Rightarrow> 's rate_client \<Rightarrow> 's \<Rightarrow> string \<Rightarrow> (error + string \<times> rates) \<times> 's" where
  "ExchangeGRPCHandler_GetRates uni client s base =
     (case exchangeServiceImpl_GetRates uni client s base of
        (Inl e, s') \<Rightarrow> (Inl e, s')
      | (Inr rates, s') \<Rightarrow> (Inr (base, rates), s'))"

section \<open>Events\<close>

definition publish_response :: "string \<Rightarrow> string \<Rightarrow> error option \<Rightarrow> pb_PublishResponse" where
  "publish_response uuid ok r =
     (case r of
        Some e \<Rightarrow> \<lparr>pbpub_Id = uuid, pbpub_Success = False, pbpub_Message = Error e\<rparr>
      | None \<Rightarrow> \<lparr>pbpub_Id = uuid, pbpub_Success = True, pbpub_Message = ok\<rparr>)"

definition EventGRPCHandler_PublishConversion ::
    "'k kafkalib \<Rightarrow> instant \<Rightarrow> string \<Rightarrow> string \<Rightarrow> Producer \<Rightarrow> 'k \<Rightarrow> ConversionEvent \<Rightarrow> pb_PublishResponse \<times> 'k" where
  "EventGRPCHandler_PublishConversion K now uuid uuid' p k req =
     (case eventServiceImpl_PublishConversion K now uuid p k
             \<lparr>ce_From = ce_From req, ce_To = ce_To req, ce_Amount = ce_Amount req, ce_Rate = ce_Rate req,
              ce_Converted = ce_Converted req, ce_UserID = ce_UserID req\<rparr> of
        (r, k') \<Rightarrow> (publish_response uuid' ''conversion event published'' r, k'))"

text \<open>Reading a Go map: an absent key gives the empty string.\<close>

definition payload_get :: "(string \<times> string) list \<Rightarrow> string \<Rightarrow> string" where
  "payload_get m k = (case map_of m k of Some v \<Rightarrow> v | None \<Rightarrow> [])"

definition EventGRPCHandler_PublishEvent ::
    "(string \<Rightarrow> float64 option) \<Rightarrow> 'k kafkalib \<Rightarrow> instant \<Rightarrow> string \<Rightarrow> string \<Rightarrow> Producer \<Rightarrow> 'k
     \<Rightarrow> (string \<times> string) list \<Rightarrow> (error + pb_PublishResponse) \<times> 'k" where
  "EventGRPCHandler_PublishEvent Sscanf_f K now uuid uuid' p k payload =
     (let from = payload_get payload ''from''; to = payload_get payload ''to'';
          amountStr = payload_get payload ''amount''
      in if from = [] \<or> to = [] \<or> amountStr = []
         then (Inl (ErrNew (''payload must contain 'from', 'to', and '' @ [CHR 0x27] @ ''amount'' @ [CHR 0x27])), k)
         else
           (case Sscanf_f amountStr of
              None \<Rightarrow> (Inl (ErrNew ([CHR 0x27] @ ''amount' must be a numeric string'')), k)
            | Some amount \<Rightarrow>
                (case eventServiceImpl_PublishConversion K now uuid p k
                        \<lparr>ce_From = from, ce_To = to, ce_Amount = amount, ce_Rate = 0, ce_Converted = 0, ce_UserID = 0\<rparr> of
                   (r, k') \<Rightarrow> (Inr (publish_response uuid' ''event published'' r), k'))))"

section \<open>Properties\<close>

text \<open>
  C35. Registration over gRPC passes no user name, so every account it creates has the empty one, which
  is unique: once such an account exists, no registration over gRPC succeeds.
\<close>

theorem grpc_register_once:
  assumes "db_inv g rows d" and "jwt_ok (lib_jwt L) sig" and "bcrypt_ok (lib_bcrypt L)"
    and "as_userRepo svc = NewUserRepository g"
    and "username_taken (db_tbl rows ctx d) []"
    and "AuthGRPCHandler_Register L svc E ctx (d, f) req = (r, (d', f'))"
  shows "\<not> is_ok r \<and> db_tbl rows ctx d' = db_tbl rows ctx d"
proof -
  let ?req = "\<lparr>reg_Email = pbreg_Email req, reg_Password = pbreg_Password req, reg_Name = pbreg_Name req, reg_Username = []\<rparr>"
  obtain r0 d0 f0 where l: "authService_Register L svc E ctx (d, f) ?req = (r0, (d0, f0))" by (metis surj_pair)
  note S = impl.Register_spec [OF assms(1,4,2,3) l]
  show ?thesis
  proof (cases r0)
    case (Inl e)
    with S l assms(6) show ?thesis by (auto simp: AuthGRPCHandler_Register_def split: if_splits)
  next
    case (Inr resp)
    with S obtain row where row: "usr_Username row = []" "db_tbl rows ctx d (usr_ID row) = None"
      "db_tbl rows ctx d0 = (db_tbl rows ctx d)(usr_ID row \<mapsto> row)" and inv: "db_inv g rows d0"
      by (auto simp: registered_def)
    obtain i u where u: "db_tbl rows ctx d i = Some u" "usr_Username u = []"
      using assms(5) by (auto simp: username_taken_def ran_def)
    have "i = usr_ID row"
      by (rule table_wf_username [OF db_inv_wf [OF inv, of ctx], of i u "usr_ID row" row]) (use u row in auto)
    with u(1) row(2) show ?thesis by simp
  qed
qed

definition ghost :: User where
  "ghost = alice\<lparr>usr_Username := []\<rparr>"

lemma ghost_db_inv: "db_inv mem_gorm mem_rows (empty_db(DB := [ghost]))"
proof -
  have "utf8_User ghost" using utf8_alice by (simp add: ghost_def utf8_User_def valid_utf8_ascii)
  then have "table_wf (tab [ghost])"
    using table_wf_upd [of "[]" ghost] db_wf_tab [OF empty_db_wf, of DB]
    by (simp add: tab_Cons empty_db_def clash_def live_def)
  then show ?thesis using db_wf_upd [OF empty_db_wf] by (simp add: db_inv_def mem_gorm_ok)
qed

theorem grpc_register_once_witness:
  "\<exists>r d'. AuthGRPCHandler_Register mem_libs mem_svc mem_env background (empty_db(DB := [ghost]), None)
     \<lparr>pbreg_Email = ''b@x.io'', pbreg_Password = ''pw'', pbreg_Name = ''B''\<rparr> = (r, (d', None)) \<and> \<not> is_ok r"
proof -
  obtain r d' f' where reg: "AuthGRPCHandler_Register mem_libs mem_svc mem_env background (empty_db(DB := [ghost]), None)
     \<lparr>pbreg_Email = ''b@x.io'', pbreg_Password = ''pw'', pbreg_Name = ''B''\<rparr> = (r, (d', f'))" by (metis surj_pair)
  have t: "db_tbl mem_rows background (empty_db(DB := [ghost])) = tab [ghost]" by (simp add: db_tbl_def mem_rows_def)
  have "username_taken (tab [ghost]) []"
    by (auto simp: username_taken_def ghost_def tab_Cons tab_Nil ran_def)
  then have "\<not> is_ok r"
    using grpc_register_once [OF ghost_db_inv _ _ _ _ reg, of sig_mem] by (simp add: t mem_jwt_ok mem_bcrypt_ok)
  moreover have "f' = None"
    using reg by (auto simp: AuthGRPCHandler_Register_def authService_Register_def filter_add_user_def Let_def
        split: prod.splits sum.splits if_splits option.splits)
  ultimately show ?thesis using reg by auto
qed

end
