(* ===== verification/Steps.thy ===== *)
theory Steps
  imports Router Grpc
begin

text \<open>
  The server as a transition system on its data (\<open>core\<close>): one step per call of a service, whoever
  makes it. \<open>serve_stepped\<close> shows that an HTTP request takes at most one such step, and which requests
  may take which.
\<close>

section \<open>Steps\<close>

datatype op =
    OpRegister | OpLogin | OpRefresh | OpProfile | OpUpdate int64
  | OpCheck | OpList | OpDelete int64 | OpConvert | OpPublish

definition with_auth ::
    "('d, 'c, 'b, 'x, 'k) core \<Rightarrow> ('d, 'b) auth_state \<Rightarrow> ('d, 'c, 'b, 'x, 'k) core" where
  "with_auth v s = v\<lparr>co_db := fst s, co_filter := (case snd s of Some f \<Rightarrow> f | None \<Rightarrow> co_filter v)\<rparr>"

inductive core_step ::
    "('d, 'c, 'b, 'x, 'k, 'l) world_libs \<Rightarrow> Config \<Rightarrow> op \<Rightarrow> ('d, 'c, 'b, 'x, 'k) core \<Rightarrow> ('d, 'c, 'b, 'x, 'k) core \<Rightarrow> bool"
  for W cfg where
  Register: "authService_Register (wl_libs W) (deps_AuthService W cfg) E background (co_db v, Some (co_filter v)) req = (r, s)
     \<Longrightarrow> core_step W cfg OpRegister v (with_auth v s)"
| Login: "authService_Login (wl_libs W) (deps_AuthService W cfg) E background (co_db v, Some (co_filter v)) lreq = (r, s)
     \<Longrightarrow> core_step W cfg OpLogin v (with_auth v s)"
| Refresh: "authService_RefreshToken (wl_libs W) (deps_AuthService W cfg) E background (co_db v, Some (co_filter v)) tok = (r, s)
     \<Longrightarrow> core_step W cfg OpRefresh v (with_auth v s)"
| Profile: "authService_GetProfile (deps_AuthService W cfg) background (co_db v, Some (co_filter v)) i = (pr, s)
     \<Longrightarrow> core_step W cfg OpProfile v (with_auth v s)"
| Update: "authService_UpdateProfile (deps_AuthService W cfg) background (co_db v, Some (co_filter v)) i upd = (pr, s)
     \<Longrightarrow> core_step W cfg (OpUpdate i) v (with_auth v s)"
| Check: "userServiceImpl_CheckAvailability (lib_bloom (wl_libs W)) (deps_UserSvc W cfg) background
       ((co_db v, co_redis v), co_filter v) email username = (cr, ((d, c), f))
     \<Longrightarrow> core_step W cfg OpCheck v (v\<lparr>co_db := d, co_redis := c, co_filter := f\<rparr>)"
| ListUsers: "userServiceImpl_List (deps_UserSvc W cfg) background (co_db v, co_redis v) off lim = (us, (d, c))
     \<Longrightarrow> core_step W cfg OpList v (v\<lparr>co_db := d, co_redis := c\<rparr>)"
| DeleteUser: "userServiceImpl_Delete (deps_UserSvc W cfg) background (co_db v, co_redis v) i = (dr, (d, c))
     \<Longrightarrow> core_step W cfg (OpDelete i) v (v\<lparr>co_db := d, co_redis := c\<rparr>)"
| Convert: "exchangeServiceImpl_Convert (wl_uni W) (deps_ExchangeClient W cfg) (co_api v, co_redis v) creq = (xr, (x, c))
     \<Longrightarrow> core_step W cfg OpConvert v (v\<lparr>co_api := x, co_redis := c\<rparr>)"
| Rates: "exchangeServiceImpl_GetRates (wl_uni W) (deps_ExchangeClient W cfg) (co_api v, co_redis v) base = (rr, (x, c))
     \<Longrightarrow> core_step W cfg OpConvert v (v\<lparr>co_api := x, co_redis := c\<rparr>)"
| Publish: "eventServiceImpl_PublishConversion (wl_kafka W) now uuid
       (NewProducer (cfg_KafkaBrokers cfg) (cfg_KafkaTopic cfg)) (co_kafka v) ev = (er, k)
     \<Longrightarrow> core_step W cfg OpPublish v (v\<lparr>co_kafka := k\<rparr>)"

section \<open>Every handler makes at most one call\<close>

lemma with_auth_id [simp]: "with_auth v (co_db v, Some (co_filter v)) = v"
  by (simp add: with_auth_def)

lemma on_auth_core:
  "ss_core (fst (on_auth h (w, c))) =
     with_auth (ss_core w) (fst (h ((co_db (ss_core w), Some (co_filter (ss_core w))), c)))"
  by (simp add: on_auth_def with_auth_def split: prod.splits option.splits)

lemma on_users_core:
  "ss_core (fst (on_users h (w, c))) =
     (case fst (h ((co_db (ss_core w), co_redis (ss_core w)), c)) of (d, r) \<Rightarrow> (ss_core w)\<lparr>co_db := d, co_redis := r\<rparr>)"
  by (simp add: on_users_def split_beta)

lemma on_users_filter_core:
  "ss_core (fst (on_users_filter h (w, c))) =
     (case fst (h (((co_db (ss_core w), co_redis (ss_core w)), co_filter (ss_core w)), c)) of
        ((d, r), f) \<Rightarrow> (ss_core w)\<lparr>co_db := d, co_redis := r, co_filter := f\<rparr>)"
  by (simp add: on_users_filter_def split_beta)

lemma on_exchange_core:
  "ss_core (fst (on_exchange h (w, c))) =
     (case fst (h ((co_api (ss_core w), co_redis (ss_core w)), c)) of (x, r) \<Rightarrow> (ss_core w)\<lparr>co_api := x, co_redis := r\<rparr>)"
  by (simp add: on_exchange_def split_beta)

lemma on_kafka_core:
  "ss_core (fst (on_kafka h (w, c))) = (ss_core w)\<lparr>co_kafka := fst (h (co_kafka (ss_core w), c))\<rparr>"
  by (simp add: on_kafka_def split_beta)

lemma auth_handler_steps:
  assumes "gc_Context c = background"
  shows "ss_core (fst (on_auth (AuthHandler_Register bd (wl_libs W) (deps_AuthService W cfg) E) (w, c))) = ss_core w \<or>
         core_step W cfg OpRegister (ss_core w) (ss_core (fst (on_auth (AuthHandler_Register bd (wl_libs W) (deps_AuthService W cfg) E) (w, c))))"
    and "ss_core (fst (on_auth (AuthHandler_Login bd (wl_libs W) (deps_AuthService W cfg) E) (w, c))) = ss_core w \<or>
         core_step W cfg OpLogin (ss_core w) (ss_core (fst (on_auth (AuthHandler_Login bd (wl_libs W) (deps_AuthService W cfg) E) (w, c))))"
    and "ss_core (fst (on_auth (AuthHandler_RefreshToken bd (wl_libs W) (deps_AuthService W cfg) E) (w, c))) = ss_core w \<or>
         core_step W cfg OpRefresh (ss_core w) (ss_core (fst (on_auth (AuthHandler_RefreshToken bd (wl_libs W) (deps_AuthService W cfg) E) (w, c))))"
    and "ss_core (fst (on_auth (AuthHandler_GetProfile (deps_AuthService W cfg)) (w, c))) = ss_core w \<or>
         core_step W cfg OpProfile (ss_core w) (ss_core (fst (on_auth (AuthHandler_GetProfile (deps_AuthService W cfg)) (w, c))))"
    and "ss_core (fst (on_auth (AuthHandler_UpdateProfile bd (deps_AuthService W cfg)) (w, c))) = ss_core w \<or>
         core_step W cfg (OpUpdate (GetUserID c)) (ss_core w) (ss_core (fst (on_auth (AuthHandler_UpdateProfile bd (deps_AuthService W cfg)) (w, c))))"
  unfolding on_auth_core AuthHandler_Register_def AuthHandler_Login_def AuthHandler_RefreshToken_def
    AuthHandler_GetProfile_def AuthHandler_UpdateProfile_def
  by (auto simp: assms(1) Let_def intro: core_step.intros split: sum.split prod.split)

lemma user_handler_steps:
  assumes "gc_Context c = background"
  shows "ss_core (fst (on_users_filter (UserHandler_CheckAvailability bd (lib_bloom (wl_libs W)) (deps_UserSvc W cfg)) (w, c))) = ss_core w \<or>
         core_step W cfg OpCheck (ss_core w)
           (ss_core (fst (on_users_filter (UserHandler_CheckAvailability bd (lib_bloom (wl_libs W)) (deps_UserSvc W cfg)) (w, c))))"
    and "core_step W cfg OpList (ss_core w) (ss_core (fst (on_users (UserHandler_List (deps_UserSvc W cfg)) (w, c))))"
    and "ss_core (fst (on_users (UserHandler_Delete (deps_UserSvc W cfg)) (w, c))) = ss_core w \<or>
         (\<exists>i. Sscanf_d (gc_Param_id c) = Some i \<and>
            core_step W cfg (OpDelete i) (ss_core w) (ss_core (fst (on_users (UserHandler_Delete (deps_UserSvc W cfg)) (w, c)))))"
  unfolding on_users_core on_users_filter_core UserHandler_CheckAvailability_def UserHandler_List_def UserHandler_Delete_def
  by (auto simp: assms(1) intro: core_step.intros split: sum.split prod.split option.split)

lemma other_handler_steps:
  shows "ss_core (fst (on_exchange (ExchangeHandler_Convert bd (wl_uni W) (deps_ExchangeClient W cfg)) (w, c))) = ss_core w \<or>
         core_step W cfg OpConvert (ss_core w)
           (ss_core (fst (on_exchange (ExchangeHandler_Convert bd (wl_uni W) (deps_ExchangeClient W cfg)) (w, c))))"
    and "ss_core (fst (on_kafka (EventHandler_PublishEvent bd (wl_kafka W) now uuid
           (NewProducer (cfg_KafkaBrokers cfg) (cfg_KafkaTopic cfg))) (w, c))) = ss_core w \<or>
         core_step W cfg OpPublish (ss_core w) (ss_core (fst (on_kafka (EventHandler_PublishEvent bd (wl_kafka W) now uuid
           (NewProducer (cfg_KafkaBrokers cfg) (cfg_KafkaTopic cfg))) (w, c))))"
  unfolding on_exchange_core on_kafka_core ExchangeHandler_Convert_def EventHandler_PublishEvent_def
  by (auto intro: core_step.intros split: sum.split prod.split option.split)

section \<open>A request takes at most one step\<close>

definition claims_of ::
    "('d, 'c, 'b, 'x, 'k, 'l) world_libs \<Rightarrow> Config \<Rightarrow> req_env \<Rightarrow> gin_ctx \<Rightarrow> Claims option" where
  "claims_of W cfg rq c = auth_claims (lib_jwt (wl_libs W)) (env_now (rq_env rq)) (cfg_JWTSecret cfg) c"

text \<open>What a request must carry for each step.\<close>

definition permitted :: "Claims option \<Rightarrow> gin_ctx \<Rightarrow> op \<Rightarrow> bool" where
  "permitted cl c op =
     (case op of
        OpUpdate i \<Rightarrow> (\<exists>k. cl = Some k \<and> cl_UserID k = i) \<and> gc_Method c = ''PUT''
      | OpDelete i \<Rightarrow> (\<exists>k. cl = Some k \<and> cl_Role k = ''admin'') \<and> gc_Method c = ''DELETE'' \<and>
          Sscanf_d (gc_Param_id c) = Some i
      | OpList \<Rightarrow> (\<exists>k. cl = Some k \<and> cl_Role k = ''admin'')
      | OpProfile \<Rightarrow> cl \<noteq> None
      | OpConvert \<Rightarrow> cl \<noteq> None
      | OpPublish \<Rightarrow> cl \<noteq> None
      | _ \<Rightarrow> True)"

text \<open>The three kinds of chains: what the last handler does, does with the same data.\<close>

lemma chain_public:
  assumes "ss_core (fst (run_chain [authLimit W rq, final h] (w, c))) \<noteq> ss_core w"
  obtains w1 where "run_chain [authLimit W rq, final h] (w, c) = h (w1, c)" "ss_core w1 = ss_core w"
proof -
  let ?t = "env_now (rq_env rq)"
  from auth_limit.effect_admitted [of "wl_rate W" ?t "run_chain [final h]" "(w, c)"] assms
  have "run_chain [authLimit W rq, final h] (w, c) =
      h (limit_pass (wl_rate W) ?t ss_authLimiter (\<lambda>rl w. w\<lparr>ss_authLimiter := rl\<rparr>) (w, c))"
    by (simp add: authLimit_def)
  moreover have "limit_pass (wl_rate W) ?t ss_authLimiter (\<lambda>rl w. w\<lparr>ss_authLimiter := rl\<rparr>) (w, c) =
      (fst (limit_pass (wl_rate W) ?t ss_authLimiter (\<lambda>rl w. w\<lparr>ss_authLimiter := rl\<rparr>) (w, c)), c)"
    by (simp add: limit_pass_def)
  ultimately show thesis
    using that auth_limit.pass_frame [of "wl_rate W" ?t "(w, c)"] by (metis fst_conv)
qed

lemma chain_user:
  assumes "ss_core (fst (run_chain [apiLimit W rq, authMW W cfg rq, final h] (w, c))) \<noteq> ss_core w"
  obtains w1 cl where "run_chain [apiLimit W rq, authMW W cfg rq, final h] (w, c) = h (w1, with_claims cl c)"
    "ss_core w1 = ss_core w" "claims_of W cfg rq c = Some cl"
proof -
  have "effective (w, c) (run_chain (apiLimit W rq # authMW W cfg rq # [final h]) (w, c))"
    using assms by (simp add: effective_def)
  from effective_apiLimit [OF this] obtain cl st1 where cl: "claims_of W cfg rq c = Some cl"
    and run: "run_chain [apiLimit W rq, authMW W cfg rq, final h] (w, c) = h st1"
    and st1: "ss_core (fst st1) = ss_core w" "snd st1 = with_claims cl c"
    by (auto simp: claims_of_def)
  show thesis
    by (rule that [OF _ st1(1) cl]) (simp only: run prod.collapse st1(2) [symmetric])
qed

lemma chain_admin:
  assumes "ss_core (fst (run_chain [apiLimit W rq, authMW W cfg rq, RequireRole [''admin''], final h] (w, c))) \<noteq> ss_core w"
  obtains w1 cl where "run_chain [apiLimit W rq, authMW W cfg rq, RequireRole [''admin''], final h] (w, c) = h (w1, with_claims cl c)"
    "ss_core w1 = ss_core w" "claims_of W cfg rq c = Some cl" "cl_Role cl = ''admin''"
proof -
  let ?run = "run_chain [apiLimit W rq, authMW W cfg rq, RequireRole [''admin''], final h] (w, c)"
  have "effective (w, c) (run_chain (apiLimit W rq # authMW W cfg rq # [RequireRole [''admin''], final h]) (w, c))"
    using assms by (simp add: effective_def)
  from effective_apiLimit [OF this] obtain cl st1 where cl: "claims_of W cfg rq c = Some cl"
    and run: "?run = RequireRole [''admin''] (run_chain [final h]) st1"
    and st1: "ss_core (fst st1) = ss_core w" "snd st1 = with_claims cl c"
    by (auto simp: claims_of_def run_chain_Cons)
  from role.admitted [of ss_core "[''admin'']" "run_chain [final h]" st1] assms st1(1)
  have r: "role_ok [''admin''] (snd st1)" and run2: "?run = h st1"
    unfolding run by auto
  show thesis
    by (rule that [OF _ st1(1) cl]) (use r st1(2) run2 in \<open>auto simp: role_ok_def\<close>, metis prod.collapse)
qed

text \<open>\<open>stepped W cfg cl c v v'\<close>: one permitted step leads from \<open>v\<close> to \<open>v'\<close>.\<close>

definition stepped ::
    "('d, 'c, 'b, 'x, 'k, 'l) world_libs \<Rightarrow> Config \<Rightarrow> Claims option \<Rightarrow> gin_ctx
     \<Rightarrow> ('d, 'c, 'b, 'x, 'k) core \<Rightarrow> ('d, 'c, 'b, 'x, 'k) core \<Rightarrow> bool" where
  "stepped W cfg cl c v v' \<longleftrightarrow> (\<exists>op. core_step W cfg op v v' \<and> permitted cl c op)"

lemma steppedI: "v' = v \<or> core_step W cfg op v v' \<Longrightarrow> permitted cl c op \<Longrightarrow> v' = v \<or> stepped W cfg cl c v v'"
  by (auto simp: stepped_def)

lemma public_step:
  assumes "ss_core (fst (run_chain [authLimit W rq, final h] (w, c))) \<noteq> ss_core w"
    and "\<And>w1. ss_core (fst (h (w1, c))) = ss_core w1 \<or> core_step W cfg op (ss_core w1) (ss_core (fst (h (w1, c))))"
    and "\<And>cl. permitted cl c op"
  shows "stepped W cfg cl c (ss_core w) (ss_core (fst (run_chain [authLimit W rq, final h] (w, c))))"
proof -
  from chain_public [OF assms(1)] obtain w1 where
    r: "run_chain [authLimit W rq, final h] (w, c) = h (w1, c)" and w1: "ss_core w1 = ss_core w" .
  from assms(1,3) assms(2) [of w1] show ?thesis unfolding r w1 stepped_def by blast
qed

lemma user_step:
  assumes "ss_core (fst (run_chain [apiLimit W rq, authMW W cfg rq, final h] (w, c))) \<noteq> ss_core w"
    and "\<And>w1 k. ss_core (fst (h (w1, with_claims k c))) = ss_core w1 \<or>
                  core_step W cfg (op k) (ss_core w1) (ss_core (fst (h (w1, with_claims k c))))"
    and "\<And>k. permitted (Some k) c (op k)"
  shows "stepped W cfg (claims_of W cfg rq c) c (ss_core w)
           (ss_core (fst (run_chain [apiLimit W rq, authMW W cfg rq, final h] (w, c))))"
proof -
  from chain_user [OF assms(1)] obtain w1 k where
    r: "run_chain [apiLimit W rq, authMW W cfg rq, final h] (w, c) = h (w1, with_claims k c)"
    and w1: "ss_core w1 = ss_core w" and k: "claims_of W cfg rq c = Some k" .
  from assms(1,3) assms(2) [of w1 k] show ?thesis unfolding r w1 k stepped_def by blast
qed

lemma admin_step:
  assumes "ss_core (fst (run_chain [apiLimit W rq, authMW W cfg rq, RequireRole [''admin''], final h] (w, c))) \<noteq> ss_core w"
    and "\<And>w1 k. ss_core (fst (h (w1, with_claims k c))) = ss_core w1 \<or>
                  (\<exists>op. core_step W cfg op (ss_core w1) (ss_core (fst (h (w1, with_claims k c)))) \<and>
                        (cl_Role k = ''admin'' \<longrightarrow> permitted (Some k) c op))"
  shows "stepped W cfg (claims_of W cfg rq c) c (ss_core w)
           (ss_core (fst (run_chain [apiLimit W rq, authMW W cfg rq, RequireRole [''admin''], final h] (w, c))))"
proof -
  from chain_admin [OF assms(1)] obtain w1 k where
    r: "run_chain [apiLimit W rq, authMW W cfg rq, RequireRole [''admin''], final h] (w, c) = h (w1, with_claims k c)"
    and w1: "ss_core w1 = ss_core w" and k: "claims_of W cfg rq c = Some k" "cl_Role k = ''admin''" .
  from assms(1) assms(2) [of w1 k] k(2) show ?thesis unfolding r w1 k(1) stepped_def by blast
qed

lemma logout_step: "ss_core (fst (run_chain [authLimit W rq, authMW W cfg rq, final AuthHandler_Logout] (w, c))) = ss_core w"
proof (rule ccontr)
  assume ne: "\<not> ?thesis"
  then have "effective (w, c) (run_chain [authLimit W rq, authMW W cfg rq, final AuthHandler_Logout] (w, c))"
    by (simp add: effective_def)
  then obtain cl st1 where "run_chain [authLimit W rq, authMW W cfg rq, final AuthHandler_Logout] (w, c) = run_chain [final AuthHandler_Logout] st1"
    "ss_core (fst st1) = ss_core (fst (w, c))" by (rule effective_authLimit)
  with ne show False by (simp add: AuthHandler_Logout_def)
qed

lemma route_step:
  assumes "gin_ok gin" and ctx: "gc_Context c = background"
    and mem: "(gc_Method c, gc_FullPath c, hs) \<in> set (routes W gin cfg rq)"
    and ch: "ss_core (fst (run_chain hs (w, c))) \<noteq> ss_core w"
  shows "stepped W cfg (claims_of W cfg rq c) c (ss_core w) (ss_core (fst (run_chain hs (w, c))))"
proof -
  have ctx': "gc_Context (with_claims k c) = background" for k using ctx by simp
  note H = auth_handler_steps [OF ctx] user_handler_steps(1) [OF ctx]
  note H' = auth_handler_steps(4) [OF ctx'] other_handler_steps
  have update: "ss_core (fst (on_auth (AuthHandler_UpdateProfile bd (deps_AuthService W cfg)) (w1, with_claims k c))) = ss_core w1 \<or>
      core_step W cfg (OpUpdate (cl_UserID k)) (ss_core w1)
        (ss_core (fst (on_auth (AuthHandler_UpdateProfile bd (deps_AuthService W cfg)) (w1, with_claims k c))))" for bd w1 k
    using auth_handler_steps(5) [OF ctx', of bd W cfg w1 k] by simp
  show ?thesis
    using mem unfolding routes_def Let_def list.set insert_iff empty_iff prod.inject
  proof (elim disjE conjE, goal_cases)
    case 1 then show ?case using ch by (simp add: health_def)
  next
    case 2 then show ?case using ch by (simp add: readyz_def)
  next
    case 3 then show ?case using ch assms(1) by (simp add: gin_ok_def)
  next
    case 4
    note hs = \<open>hs = _\<close>
    show ?case unfolding hs by (rule public_step [where op = OpCheck, OF ch [unfolded hs] H(6)]) (simp add: permitted_def)
  next
    case 5
    note hs = \<open>hs = _\<close>
    show ?case unfolding hs by (rule public_step [where op = OpRegister, OF ch [unfolded hs] H(1)]) (simp add: permitted_def)
  next
    case 6
    note hs = \<open>hs = _\<close>
    show ?case unfolding hs by (rule public_step [where op = OpLogin, OF ch [unfolded hs] H(2)]) (simp add: permitted_def)
  next
    case 7
    note hs = \<open>hs = _\<close>
    show ?case unfolding hs by (rule public_step [where op = OpRefresh, OF ch [unfolded hs] H(3)]) (simp add: permitted_def)
  next
    case 8 then show ?case using ch logout_step [of W rq cfg w c] by (simp only:) blast
  next
    case 9
    note hs = \<open>hs = _\<close>
    show ?case unfolding hs by (rule user_step [where op = "\<lambda>_. OpProfile", OF ch [unfolded hs] H'(1)]) (simp add: permitted_def)
  next
    case 10
    note hs = \<open>hs = _\<close>
    show ?case unfolding hs by (rule user_step [where op = "\<lambda>k. OpUpdate (cl_UserID k)", OF ch [unfolded hs] update]) (simp add: permitted_def 10)
  next
    case 11
    note hs = \<open>hs = _\<close>
    show ?case unfolding hs by (rule user_step [where op = "\<lambda>_. OpConvert", OF ch [unfolded hs] H'(2)]) (simp add: permitted_def)
  next
    case 12
    note hs = \<open>hs = _\<close>
    show ?case unfolding hs
      by (rule admin_step [OF ch [unfolded hs]], intro disjI2 exI [of _ OpList] conjI, rule user_handler_steps(2) [OF ctx'])
         (simp add: permitted_def)
  next
    case 13
    note hs = \<open>hs = _\<close> and m = \<open>gc_Method c = _\<close>
    have "ss_core (fst (on_users (UserHandler_Delete (deps_UserSvc W cfg)) (w1, with_claims k c))) = ss_core w1 \<or>
        (\<exists>op. core_step W cfg op (ss_core w1) (ss_core (fst (on_users (UserHandler_Delete (deps_UserSvc W cfg)) (w1, with_claims k c)))) \<and>
              (cl_Role k = ''admin'' \<longrightarrow> permitted (Some k) c op))" for w1 k
      using user_handler_steps(3) [OF ctx' [of k], where W = W and cfg = cfg and w = w1] m
      by (auto simp: permitted_def intro!: exI [of _ "OpDelete (the (Sscanf_d (gc_Param_id c)))"])
    then show ?case unfolding hs by (rule admin_step [OF ch [unfolded hs]])
  next
    case 14
    note hs = \<open>hs = _\<close>
    show ?case unfolding hs by (rule user_step [where op = "\<lambda>_. OpPublish", OF ch [unfolded hs] H'(3)]) (simp add: permitted_def)
  qed simp
qed

text \<open>Whatever changes in the data while a request is served is one permitted step.\<close>

lemma serve_stepped:
  assumes gin: "gin_ok gin" and ctx: "gc_Context c = background"
    and ch: "ss_core (fst (serve W Obs gin cfg rq (w, c))) \<noteq> ss_core w"
  shows "stepped W cfg (claims_of W cfg rq c) c (ss_core w) (ss_core (fst (serve W Obs gin cfg rq (w, c))))"
proof -
  let ?hs = "route_handlers gin (routes W gin cfg rq) c"
  from globals_run [OF gin, of Obs cfg rq ?hs w c] ch obtain out i where
    eq: "ss_core (fst (serve W Obs gin cfg rq (w, c))) = ss_core (fst (run_chain ?hs (w, prepared out i c)))"
    by (auto simp: serve_def)
  let ?c = "prepared out i c"
  have same: "claims_of W cfg rq ?c = claims_of W cfg rq c" "permitted cl ?c = permitted cl c" for cl
    by (simp_all add: claims_of_def fun_eq_iff permitted_def prepared_def bearer_def auth_claims_def split: op.split)
  have ch': "ss_core (fst (run_chain ?hs (w, ?c))) \<noteq> ss_core w" using ch eq by simp
  have mp: "gc_Method ?c = gc_Method c" "gc_FullPath ?c = gc_FullPath c" by (simp_all add: prepared_def)
  from route_handlers_cases [of gin "routes W gin cfg rq" c] ch'
  have "(gc_Method c, gc_FullPath c, ?hs) \<in> set (routes W gin cfg rq)"
    using gin by (auto simp: gin_ok_def)
  then have "stepped W cfg (claims_of W cfg rq ?c) ?c (ss_core w) (ss_core (fst (run_chain ?hs (w, ?c))))"
    using route_step [OF gin, of ?c ?hs W cfg rq w] ctx ch' mp by simp
  then show ?thesis unfolding eq stepped_def same .
qed

section \<open>gRPC calls\<close>

text \<open>
  The methods of the three gRPC services, with what a call draws from outside, and the effect of a call
  on the server's data. \<open>fmt\<close> and \<open>scan\<close> are the time format and the scanner of \<^verbatim>\<open>%f\<close>. There is no
  interceptor: whoever reaches the port may call.
\<close>

datatype rpc =
    RpcRegister env pb_RegisterRequest
  | RpcLogin env LoginRequest
  | RpcRefreshToken env string
  | RpcGetProfile int64
  | RpcLogout
  | RpcConvert ConvertRequest
  | RpcGetRates string
  | RpcPublishConversion instant string string ConversionEvent
  | RpcPublishEvent instant string string "(string \<times> string) list"

definition grpc_call ::
    "(instant \<Rightarrow> string) \<Rightarrow> (string \<Rightarrow> float64 option) \<Rightarrow> ('d, 'c, 'b, 'x, 'k, 'l) world_libs \<Rightarrow> Config \<Rightarrow> rpc
     \<Rightarrow> ('d, 'c, 'b, 'x, 'k) core \<Rightarrow> ('d, 'c, 'b, 'x, 'k) core" where
  "grpc_call fmt scan W cfg rpc v =
     (let L = wl_libs W; asvc = deps_AuthService W cfg; s = (co_db v, Some (co_filter v));
          client = deps_ExchangeClient W cfg; producer = NewProducer (cfg_KafkaBrokers cfg) (cfg_KafkaTopic cfg)
      in case rpc of
           RpcRegister E req \<Rightarrow> with_auth v (snd (AuthGRPCHandler_Register L asvc E background s req))
         | RpcLogin E req \<Rightarrow> with_auth v (snd (AuthGRPCHandler_Login L asvc E background s req))
         | RpcRefreshToken E tok \<Rightarrow> with_auth v (snd (AuthGRPCHandler_RefreshToken L asvc E background s tok))
         | RpcGetProfile i \<Rightarrow> with_auth v (snd (AuthGRPCHandler_GetProfile fmt asvc background s i))
         | RpcLogout \<Rightarrow> with_auth v (snd (AuthGRPCHandler_Logout s))
         | RpcConvert req \<Rightarrow>
             (case snd (ExchangeGRPCHandler_Convert (wl_uni W) client (co_api v, co_redis v) req) of
                (x, c) \<Rightarrow> v\<lparr>co_api := x, co_redis := c\<rparr>)
         | RpcGetRates base \<Rightarrow>
             (case snd (ExchangeGRPCHandler_GetRates (wl_uni W) client (co_api v, co_redis v) base) of
                (x, c) \<Rightarrow> v\<lparr>co_api := x, co_redis := c\<rparr>)
         | RpcPublishConversion now uuid uuid' ev \<Rightarrow>
             v\<lparr>co_kafka := snd (EventGRPCHandler_PublishConversion (wl_kafka W) now uuid uuid' producer (co_kafka v) ev)\<rparr>
         | RpcPublishEvent now uuid uuid' payload \<Rightarrow>
             v\<lparr>co_kafka := snd (EventGRPCHandler_PublishEvent scan (wl_kafka W) now uuid uuid' producer (co_kafka v) payload)\<rparr>)"

text \<open>The steps no token is needed for, or over gRPC none is asked for.\<close>

definition harmless :: "op \<Rightarrow> bool" where
  "harmless op = (case op of OpUpdate _ \<Rightarrow> False | OpDelete _ \<Rightarrow> False | _ \<Rightarrow> True)"

lemma grpc_auth_steps:
  shows "core_step W cfg OpRegister v
           (with_auth v (snd (AuthGRPCHandler_Register (wl_libs W) (deps_AuthService W cfg) E background (co_db v, Some (co_filter v)) rreq)))"
    and "core_step W cfg OpLogin v
           (with_auth v (snd (AuthGRPCHandler_Login (wl_libs W) (deps_AuthService W cfg) E background (co_db v, Some (co_filter v)) lreq)))"
    and "core_step W cfg OpRefresh v
           (with_auth v (snd (AuthGRPCHandler_RefreshToken (wl_libs W) (deps_AuthService W cfg) E background (co_db v, Some (co_filter v)) tok)))"
    and "core_step W cfg OpProfile v
           (with_auth v (snd (AuthGRPCHandler_GetProfile fmt (deps_AuthService W cfg) background (co_db v, Some (co_filter v)) i)))"
  unfolding AuthGRPCHandler_Register_def AuthGRPCHandler_Login_def AuthGRPCHandler_RefreshToken_def AuthGRPCHandler_GetProfile_def
  by (auto intro: core_step.intros split: sum.split prod.split)

lemma grpc_stepped:
  "grpc_call fmt scan W cfg rpc v = v \<or> (\<exists>op. core_step W cfg op v (grpc_call fmt scan W cfg rpc v) \<and> harmless op)"
proof (cases rpc)
  case (RpcRegister E req)
  have "core_step W cfg OpRegister v (grpc_call fmt scan W cfg rpc v)"
    unfolding RpcRegister grpc_call_def Let_def rpc.case by (rule grpc_auth_steps)
  then show ?thesis by (auto simp: harmless_def)
next
  case (RpcLogin E req)
  have "core_step W cfg OpLogin v (grpc_call fmt scan W cfg rpc v)"
    unfolding RpcLogin grpc_call_def Let_def rpc.case by (rule grpc_auth_steps)
  then show ?thesis by (auto simp: harmless_def)
next
  case (RpcRefreshToken E tok)
  have "core_step W cfg OpRefresh v (grpc_call fmt scan W cfg rpc v)"
    unfolding RpcRefreshToken grpc_call_def Let_def rpc.case by (rule grpc_auth_steps)
  then show ?thesis by (auto simp: harmless_def)
next
  case (RpcGetProfile i)
  have "core_step W cfg OpProfile v (grpc_call fmt scan W cfg rpc v)"
    unfolding RpcGetProfile grpc_call_def Let_def rpc.case by (rule grpc_auth_steps)
  then show ?thesis by (auto simp: harmless_def)
next
  case (RpcConvert req)
  have "core_step W cfg OpConvert v (grpc_call fmt scan W cfg rpc v)"
    unfolding RpcConvert grpc_call_def Let_def rpc.case ExchangeGRPCHandler_Convert_def
    by (auto intro: core_step.Convert split: sum.split prod.split)
  then show ?thesis by (auto simp: harmless_def)
next
  case (RpcGetRates base)
  have "core_step W cfg OpConvert v (grpc_call fmt scan W cfg rpc v)"
    unfolding RpcGetRates grpc_call_def Let_def rpc.case ExchangeGRPCHandler_GetRates_def
    by (auto intro: core_step.Rates split: sum.split prod.split)
  then show ?thesis by (auto simp: harmless_def)
next
  case (RpcPublishConversion now uuid uuid' ev)
  have "core_step W cfg OpPublish v (grpc_call fmt scan W cfg rpc v)"
    unfolding RpcPublishConversion grpc_call_def Let_def rpc.case EventGRPCHandler_PublishConversion_def
    by (auto intro: core_step.Publish split: prod.split)
  then show ?thesis by (auto simp: harmless_def)
next
  case (RpcPublishEvent now uuid uuid' payload)
  have "grpc_call fmt scan W cfg rpc v = v \<or> core_step W cfg OpPublish v (grpc_call fmt scan W cfg rpc v)"
    unfolding RpcPublishEvent grpc_call_def Let_def rpc.case EventGRPCHandler_PublishEvent_def
    by (auto intro: core_step.Publish split: prod.split option.split)
  then show ?thesis by (auto simp: harmless_def)
next
  case RpcLogout
  then show ?thesis by (simp add: grpc_call_def Let_def AuthGRPCHandler_Logout_def)
qed

section \<open>Runs\<close>

text \<open>A run of the server: HTTP requests and gRPC calls, one after the other, in any order.\<close>

datatype request = Http req_env gin_ctx | Grpc rpc

definition handle ::
    "(instant \<Rightarrow> string) \<Rightarrow> (string \<Rightarrow> float64 option) \<Rightarrow> ('d, 'c, 'b, 'x, 'k, 'l) world_libs \<Rightarrow> 'o obslib
     \<Rightarrow> ('d, 'c, 'b, 'x, 'k, 'l, 'o) app_state ginlib \<Rightarrow> Config
     \<Rightarrow> request \<Rightarrow> ('d, 'c, 'b, 'x, 'k, 'l, 'o) app_state \<Rightarrow> ('d, 'c, 'b, 'x, 'k, 'l, 'o) app_state" where
  "handle fmt scan W Obs gin cfg req w =
     (case req of
        Http rq c \<Rightarrow> fst (serve W Obs gin cfg rq (w, c))
      | Grpc rpc \<Rightarrow> w\<lparr>ss_core := grpc_call fmt scan W cfg rpc (ss_core w)\<rparr>)"

text \<open>
  What a request may do: over HTTP what its token permits, over gRPC the harmless steps. A request's
  context carries no transaction.
\<close>

definition allowed :: "('d, 'c, 'b, 'x, 'k, 'l) world_libs \<Rightarrow> Config \<Rightarrow> request \<Rightarrow> op \<Rightarrow> bool" where
  "allowed W cfg req op =
     (case req of Http rq c \<Rightarrow> permitted (claims_of W cfg rq c) c op | Grpc rpc \<Rightarrow> harmless op)"

definition plain :: "request \<Rightarrow> bool" where
  "plain req = (case req of Http rq c \<Rightarrow> gc_Context c = background | Grpc rpc \<Rightarrow> True)"

lemma handle_stepped:
  assumes "gin_ok gin" "plain req"
  shows "ss_core (handle fmt scan W Obs gin cfg req w) = ss_core w \<or>
         (\<exists>op. core_step W cfg op (ss_core w) (ss_core (handle fmt scan W Obs gin cfg req w)) \<and> allowed W cfg req op)"
proof (cases req)
  case (Http rq c)
  with serve_stepped [OF assms(1), of c W Obs cfg rq w] assms(2) show ?thesis
    by (auto simp: handle_def plain_def allowed_def stepped_def)
next
  case (Grpc rpc)
  with grpc_stepped [of fmt scan W cfg rpc "ss_core w"] show ?thesis by (auto simp: handle_def allowed_def)
qed

text \<open>
  An invariant of the permitted steps is an invariant of every run: \<open>ok\<close> restricts the requests.
\<close>

lemma run_invariant:
  assumes gin: "gin_ok gin"
    and step: "\<And>req op v v'. ok req \<Longrightarrow> core_step W cfg op v v' \<Longrightarrow> allowed W cfg req op \<Longrightarrow> I v \<Longrightarrow> I v'"
    and "\<forall>req \<in> set reqs. plain req \<and> ok req" "I (ss_core w)"
  shows "I (ss_core (fold (handle fmt scan W Obs gin cfg) reqs w))"
  using assms(3,4)
proof (induction reqs arbitrary: w)
  case (Cons req reqs)
  let ?w = "handle fmt scan W Obs gin cfg req w"
  have "I (ss_core ?w)"
    using handle_stepped [OF gin, of req fmt scan W Obs cfg w] step Cons.prems by (metis list.set_intros(1))
  then show ?case using Cons.IH [of ?w] Cons.prems(1) by simp
qed simp

end
