(* ===== verification/Logger.thy ===== *)
theory Logger
  imports Kafka
begin

text \<open>
  \<^verbatim>\<open>internal/logger\<close> and the log consumer (\<^verbatim>\<open>internal/consumer/log.go\<close>): records logged through
  \<^verbatim>\<open>slog\<close> go into a bounded channel, a background goroutine publishes them to Kafka, and a consumer
  inserts them into the table \<^verbatim>\<open>logs\<close>. A level is its integer, an attribute a name with the result of
  encoding its value.

  The handler at work is a state machine (\<open>chan_step\<close>) on the broker connection and the channel: the
  steps are \<open>Handle\<close>, \<open>Close\<close> and one round of \<open>drain\<close>, in any order, and the labels say what happened: a
  record accepted, dropped because the buffer was full, published, the channel closed, the drain
  goroutine ended. Sending on a closed channel and closing it twice panic: \<open>Handle\<close> and \<open>Close\<close> are
  then \<open>None\<close>, and the machine has no such step.
\<close>

type_synonym attr = "string \<times> (error + json)"

record slog_record =
  sr_Time :: instant
  sr_Level :: int
  sr_Message :: string
  sr_Attrs :: "attr list"

record KafkaHandler =
  kh_producer :: Producer
  kh_level :: int
  kh_attrs :: "attr list"
  kh_groups :: "string list"

record log_chan =
  lc_buf :: "slog_record list"
  lc_closed :: bool
  lc_done :: bool

definition bufferSize :: nat where
  "bufferSize = 1000"

section \<open>The handler\<close>

definition NewKafkaHandler :: "Producer \<Rightarrow> int \<Rightarrow> KafkaHandler \<times> log_chan" where
  "NewKafkaHandler producer level =
     (\<lparr>kh_producer = producer, kh_level = level, kh_attrs = [], kh_groups = []\<rparr>,
      \<lparr>lc_buf = [], lc_closed = False, lc_done = False\<rparr>)"

definition KafkaHandler_Enabled :: "KafkaHandler \<Rightarrow> int \<Rightarrow> bool" where
  "KafkaHandler_Enabled h level = (kh_level h \<le> level)"

definition KafkaHandler_Handle :: "KafkaHandler \<Rightarrow> log_chan \<Rightarrow> slog_record \<Rightarrow> log_chan option" where
  "KafkaHandler_Handle h ch r =
     (if lc_closed ch then None
      else if length (lc_buf ch) < bufferSize then Some (ch\<lparr>lc_buf := lc_buf ch @ [r]\<rparr>)
      else Some ch)"

text \<open>\<^verbatim>\<open>close(h.ch)\<close>; waiting for the goroutine is the step that follows.\<close>

definition KafkaHandler_Close :: "log_chan \<Rightarrow> log_chan option" where
  "KafkaHandler_Close ch = (if lc_closed ch then None else Some (ch\<lparr>lc_closed := True\<rparr>))"

definition KafkaHandler_WithAttrs :: "KafkaHandler \<Rightarrow> attr list \<Rightarrow> KafkaHandler" where
  "KafkaHandler_WithAttrs h attrs = h\<lparr>kh_attrs := kh_attrs h @ attrs\<rparr>"

definition KafkaHandler_WithGroup :: "KafkaHandler \<Rightarrow> string \<Rightarrow> KafkaHandler" where
  "KafkaHandler_WithGroup h name = h\<lparr>kh_groups := kh_groups h @ [name]\<rparr>"

text \<open>\<^verbatim>\<open>slog.Level.String\<close>\<close>

definition level_string :: "int \<Rightarrow> string" where
  "level_string l =
     (let name = (\<lambda>base v. if v = 0 then base else if v > 0 then base @ ''+'' @ show_int v else base @ show_int v)
      in if l < 0 then name ''DEBUG'' (l + 4) else if l < 4 then name ''INFO'' l
         else if l < 8 then name ''WARN'' (l - 4) else name ''ERROR'' (l - 8))"

text \<open>Assigning to a map: the value of a key that is there already is replaced.\<close>

fun map_put :: "'a \<Rightarrow> 'b \<Rightarrow> ('a \<times> 'b) list \<Rightarrow> ('a \<times> 'b) list" where
  "map_put k v [] = [(k, v)]"
| "map_put k v ((k', v') # m) = (if k = k' then (k, v) # m else (k', v') # map_put k v m)"

definition record_attrs :: "KafkaHandler \<Rightarrow> slog_record \<Rightarrow> attr list" where
  "record_attrs h r = foldl (\<lambda>m a. map_put (fst a) (snd a) m) [] (kh_attrs h @ sr_Attrs r)"

definition marshal_LogRecord :: "instant \<Rightarrow> string \<Rightarrow> string \<Rightarrow> attr list \<Rightarrow> error + json" where
  "marshal_LogRecord t level message attrs =
     marshal_obj
       ([(''time'', marshal_time t), (''level'', Inr (jstr level)), (''message'', Inr (jstr message))] @
        (if attrs = [] then [] else [(''attrs'', marshal_obj (map (\<lambda>a. (utf8_fix (fst a), snd a)) attrs))]))"

definition KafkaHandler_publish :: "'k kafkalib \<Rightarrow> instant \<Rightarrow> KafkaHandler \<Rightarrow> 'k \<Rightarrow> slog_record \<Rightarrow> 'k" where
  "KafkaHandler_publish K now h k r =
     snd (Producer_Publish K now (kh_producer h) k (level_string (sr_Level r))
            (marshal_LogRecord (sr_Time r) (level_string (sr_Level r)) (sr_Message r) (record_attrs h r)))"

text \<open>
  One round of the loop in \<^verbatim>\<open>drain\<close>: receive the next record and publish it, or end once the channel is
  closed and empty. \<open>None\<close> is a goroutine that waits, or has ended.
\<close>

definition chan_receive :: "log_chan \<Rightarrow> (slog_record option \<times> log_chan) option" where
  "chan_receive ch =
     (if lc_done ch then None
      else
        (case lc_buf ch of
           r # rs \<Rightarrow> Some (Some r, ch\<lparr>lc_buf := rs\<rparr>)
         | [] \<Rightarrow> if lc_closed ch then Some (None, ch\<lparr>lc_done := True\<rparr>) else None))"

definition KafkaHandler_drain ::
    "'k kafkalib \<Rightarrow> instant \<Rightarrow> KafkaHandler \<Rightarrow> 'k \<times> log_chan \<Rightarrow> ('k \<times> log_chan) option" where
  "KafkaHandler_drain K now h st =
     (case st of (k, ch) \<Rightarrow>
      case chan_receive ch of
        None \<Rightarrow> None
      | Some (None, ch') \<Rightarrow> Some (k, ch')
      | Some (Some r, ch') \<Rightarrow> Some (KafkaHandler_publish K now h k r, ch'))"

section \<open>The fan-out\<close>

text \<open>
  \<^verbatim>\<open>TeeHandler\<close> over any kind of handler: \<open>enabled\<close> and \<open>handle\<close> are the handlers' methods, on the state
  \<open>'w\<close> they write to (\<open>None\<close> is a panic).
\<close>

definition TeeHandler_Enabled :: "('h \<Rightarrow> int \<Rightarrow> bool) \<Rightarrow> 'h list \<Rightarrow> int \<Rightarrow> bool" where
  "TeeHandler_Enabled enabled hs level = list_ex (\<lambda>h. enabled h level) hs"

fun TeeHandler_Handle ::
    "('h \<Rightarrow> int \<Rightarrow> bool) \<Rightarrow> ('h \<Rightarrow> slog_record \<Rightarrow> 'w \<Rightarrow> 'w option) \<Rightarrow> 'h list \<Rightarrow> slog_record \<Rightarrow> 'w \<Rightarrow> 'w option" where
  "TeeHandler_Handle enabled handle [] r w = Some w"
| "TeeHandler_Handle enabled handle (h # hs) r w =
     (if enabled h (sr_Level r)
      then (case handle h r w of None \<Rightarrow> None | Some w' \<Rightarrow> TeeHandler_Handle enabled handle hs r w')
      else TeeHandler_Handle enabled handle hs r w)"

definition TeeHandler_WithAttrs :: "('h \<Rightarrow> attr list \<Rightarrow> 'h) \<Rightarrow> 'h list \<Rightarrow> attr list \<Rightarrow> 'h list" where
  "TeeHandler_WithAttrs withAttrs hs attrs = map (\<lambda>h. withAttrs h attrs) hs"

definition TeeHandler_WithGroup :: "('h \<Rightarrow> string \<Rightarrow> 'h) \<Rightarrow> 'h list \<Rightarrow> string \<Rightarrow> 'h list" where
  "TeeHandler_WithGroup withGroup hs name = map (\<lambda>h. withGroup h name) hs"

section \<open>The log consumer\<close>

text \<open>Decoding a JSON value into Go's \<^verbatim>\<open>any\<close> and encoding it again: every number becomes a \<^verbatim>\<open>float64\<close>.\<close>

fun seq_results :: "('e + 'a) list \<Rightarrow> 'e + 'a list" where
  "seq_results [] = Inr []"
| "seq_results (r # rs) = bind_r r (\<lambda>x. bind_r (seq_results rs) (\<lambda>xs. Inr (x # xs)))"

fun any_json :: "json \<Rightarrow> error + json" where
  "any_json (JInt i) = (case f64_of_int i of Fin s m e \<Rightarrow> Inr (JFloat (Fin s m e)) | _ \<Rightarrow> Inl type_error)"
| "any_json (JArr js) = bind_r (seq_results (map any_json js)) (\<lambda>xs. Inr (JArr xs))"
| "any_json (JObj ms) = marshal_obj (map (\<lambda>m. (fst m, any_json (snd m))) ms)"
| "any_json j = Inr j"

record LogRecord =
  lr_Time :: instant
  lr_Level :: string
  lr_Message :: string
  lr_Attrs :: json

definition dec_attrs :: "json \<Rightarrow> error + json" where
  "dec_attrs j = (case j of JNull \<Rightarrow> Inr JNull | JObj ms \<Rightarrow> any_json (JObj ms) | _ \<Rightarrow> Inl type_error)"

definition unmarshal_LogRecord :: "json \<Rightarrow> error + LogRecord" where
  "unmarshal_LogRecord j =
     (case j of
        JNull \<Rightarrow> Inr \<lparr>lr_Time = zero_time, lr_Level = [], lr_Message = [], lr_Attrs = JNull\<rparr>
      | JObj ms \<Rightarrow>
          bind_r (dec_time (jfield ''time'' ms)) (\<lambda>t.
          bind_r (dec_string (jfield ''level'' ms)) (\<lambda>l.
          bind_r (dec_string (jfield ''message'' ms)) (\<lambda>m.
          bind_r (dec_attrs (jfield ''attrs'' ms)) (\<lambda>a.
            Inr \<lparr>lr_Time = t, lr_Level = l, lr_Message = m, lr_Attrs = a\<rparr>))))
      | _ \<Rightarrow> Inl type_error)"

text \<open>\<open>exec\<close> is the insertion into the table \<^verbatim>\<open>logs\<close>; the attributes have been decoded, so they encode.\<close>

definition makeLogHandler ::
    "('d \<Rightarrow> instant \<Rightarrow> string \<Rightarrow> string \<Rightarrow> json \<Rightarrow> error option \<times> 'd) \<Rightarrow> 'd msg_handler" where
  "makeLogHandler exec d key body =
     (case unmarshal_LogRecord body of
        Inl e \<Rightarrow> (Some (Errorf ''unmarshal log record: '' e []), d)
      | Inr rec \<Rightarrow> exec d (lr_Time rec) (lr_Level rec) (lr_Message rec) (lr_Attrs rec))"

section \<open>The handler as a state machine\<close>

text \<open>
  The drain goroutine runs on the handler \<open>h\<close> that started it; records are handed in through \<open>h\<close> or any
  handler \<open>h'\<close> that \<open>WithAttrs\<close> and \<open>WithGroup\<close> derived from it, which share its channel.
\<close>

datatype chan_event = Accepted slog_record | Dropped slog_record | Published instant slog_record | Closed | Ended

inductive chan_step ::
    "'k kafkalib \<Rightarrow> KafkaHandler \<Rightarrow> 'k \<times> log_chan \<Rightarrow> chan_event \<Rightarrow> 'k \<times> log_chan \<Rightarrow> bool" for K h where
  accept: "KafkaHandler_Handle h' ch r = Some ch' \<Longrightarrow> ch' \<noteq> ch \<Longrightarrow> chan_step K h (k, ch) (Accepted r) (k, ch')"
| drop: "KafkaHandler_Handle h' ch r = Some ch \<Longrightarrow> chan_step K h (k, ch) (Dropped r) (k, ch)"
| publish: "lc_buf ch = r # rs \<Longrightarrow> KafkaHandler_drain K now h (k, ch) = Some st \<Longrightarrow>
    chan_step K h (k, ch) (Published now r) st"
| end_drain: "lc_buf ch = [] \<Longrightarrow> KafkaHandler_drain K now h (k, ch) = Some st \<Longrightarrow> chan_step K h (k, ch) Ended st"
| close: "KafkaHandler_Close ch = Some ch' \<Longrightarrow> chan_step K h (k, ch) Closed (k, ch')"

inductive chan_run ::
    "'k kafkalib \<Rightarrow> KafkaHandler \<Rightarrow> 'k \<times> log_chan \<Rightarrow> chan_event list \<Rightarrow> 'k \<times> log_chan \<Rightarrow> bool" for K h st0 where
  start: "chan_run K h st0 [] st0"
| step: "chan_run K h st0 tr st \<Longrightarrow> chan_step K h st ev st' \<Longrightarrow> chan_run K h st0 (tr @ [ev]) st'"

inductive_cases chan_stepE: "chan_step K h (k, ch) ev st'"

text \<open>The records that went into the channel, and those \<open>drain\<close> took out of it with the time it did.\<close>

definition accepted :: "chan_event list \<Rightarrow> slog_record list" where
  "accepted tr = concat (map (\<lambda>ev. case ev of Accepted r \<Rightarrow> [r] | _ \<Rightarrow> []) tr)"

definition published :: "chan_event list \<Rightarrow> (instant \<times> slog_record) list" where
  "published tr = concat (map (\<lambda>ev. case ev of Published now r \<Rightarrow> [(now, r)] | _ \<Rightarrow> []) tr)"

lemma accepted_snoc [simp]:
  "accepted (tr @ [ev]) = accepted tr @ (case ev of Accepted r \<Rightarrow> [r] | _ \<Rightarrow> [])" "accepted [] = []"
  by (simp_all add: accepted_def)

lemma published_snoc [simp]:
  "published (tr @ [ev]) = published tr @ (case ev of Published now r \<Rightarrow> [(now, r)] | _ \<Rightarrow> [])" "published [] = []"
  by (simp_all add: published_def)

lemma KafkaHandler_Handle_grows: "KafkaHandler_Handle h ch r = Some ch \<longleftrightarrow> \<not> lc_closed ch \<and> bufferSize \<le> length (lc_buf ch)"
proof -
  have "ch\<lparr>lc_buf := lc_buf ch @ [r]\<rparr> \<noteq> ch" by (metis log_chan.select_convs(1) log_chan.surjective log_chan.update_convs(1) append_self_conv not_Cons_self2)
  then show ?thesis by (auto simp: KafkaHandler_Handle_def)
qed

lemma chan_step_simps:
  "chan_step K h (k, ch) (Accepted r) st \<Longrightarrow>
     \<not> lc_closed ch \<and> length (lc_buf ch) < bufferSize \<and> st = (k, ch\<lparr>lc_buf := lc_buf ch @ [r]\<rparr>)"
  "chan_step K h (k, ch) (Dropped r) st \<Longrightarrow> \<not> lc_closed ch \<and> bufferSize \<le> length (lc_buf ch) \<and> st = (k, ch)"
  "chan_step K h (k, ch) (Published now r) st \<Longrightarrow>
     \<not> lc_done ch \<and> (\<exists>rs. lc_buf ch = r # rs \<and> st = (KafkaHandler_publish K now h k r, ch\<lparr>lc_buf := rs\<rparr>))"
  "chan_step K h (k, ch) Ended st \<Longrightarrow> lc_buf ch = [] \<and> lc_closed ch \<and> st = (k, ch\<lparr>lc_done := True\<rparr>)"
  "chan_step K h (k, ch) Closed st \<Longrightarrow> \<not> lc_closed ch \<and> st = (k, ch\<lparr>lc_closed := True\<rparr>)"
proof -
  show "chan_step K h (k, ch) (Dropped r) st \<Longrightarrow> \<not> lc_closed ch \<and> bufferSize \<le> length (lc_buf ch) \<and> st = (k, ch)"
    by (auto elim!: chan_stepE simp: KafkaHandler_Handle_grows)
qed (auto elim!: chan_stepE
      simp: KafkaHandler_Handle_def KafkaHandler_drain_def chan_receive_def KafkaHandler_Close_def split: if_splits)

definition chan_inv ::
    "'k kafkalib \<Rightarrow> KafkaHandler \<Rightarrow> 'k \<Rightarrow> chan_event list \<Rightarrow> 'k \<times> log_chan \<Rightarrow> bool" where
  "chan_inv K h k0 tr st \<longleftrightarrow>
     fst st = foldl (\<lambda>k (now, r). KafkaHandler_publish K now h k r) k0 (published tr) \<and>
     length (lc_buf (snd st)) \<le> bufferSize \<and> accepted tr = map snd (published tr) @ lc_buf (snd st) \<and>
     (lc_done (snd st) \<longrightarrow> lc_buf (snd st) = [] \<and> lc_closed (snd st))"

lemma chan_inv_step: "chan_inv K h k0 tr st \<Longrightarrow> chan_step K h st ev st' \<Longrightarrow> chan_inv K h k0 (tr @ [ev]) st'"
  by (cases st; cases ev) (auto simp: chan_inv_def dest!: chan_step_simps)

lemma chan_inv_run: "chan_run K h st0 tr st \<Longrightarrow> chan_inv K h k0 [] st0 \<Longrightarrow> chan_inv K h k0 tr st"
  by (induction rule: chan_run.induct) (auto intro: chan_inv_step)

section \<open>Closing\<close>

text \<open>The goroutine's loop, until it waits or ends; the fuel bounds the number of rounds.\<close>

fun drain_loop :: "nat \<Rightarrow> 'k kafkalib \<Rightarrow> instant \<Rightarrow> KafkaHandler \<Rightarrow> 'k \<times> log_chan \<Rightarrow> 'k \<times> log_chan" where
  "drain_loop 0 K now h st = st"
| "drain_loop (Suc n) K now h st =
     (case KafkaHandler_drain K now h st of None \<Rightarrow> st | Some st' \<Rightarrow> drain_loop n K now h st')"

lemma drain_loop_closed:
  "lc_closed ch \<Longrightarrow> \<not> lc_done ch \<Longrightarrow>
   drain_loop (Suc (length (lc_buf ch))) K now h (k, ch) =
     (foldl (KafkaHandler_publish K now h) k (lc_buf ch), ch\<lparr>lc_buf := [], lc_done := True\<rparr>)"
proof (induction "lc_buf ch" arbitrary: ch k)
  case Nil
  then have "lc_buf ch = []" by simp
  then have "ch\<lparr>lc_done := True\<rparr> = ch\<lparr>lc_buf := [], lc_done := True\<rparr>" by (cases ch) simp
  with Nil show ?case by (simp add: KafkaHandler_drain_def chan_receive_def split: list.splits)
next
  case (Cons r rs)
  let ?ch = "ch\<lparr>lc_buf := rs\<rparr>"
  have b: "lc_buf ch = r # rs" using Cons.hyps(2) by simp
  then have d: "KafkaHandler_drain K now h (k, ch) = Some (KafkaHandler_publish K now h k r, ?ch)"
    using Cons.prems by (simp add: KafkaHandler_drain_def chan_receive_def)
  have "drain_loop (Suc (length rs)) K now h (KafkaHandler_publish K now h k r, ?ch) =
      (foldl (KafkaHandler_publish K now h) (KafkaHandler_publish K now h k r) rs, ?ch\<lparr>lc_buf := [], lc_done := True\<rparr>)"
    using Cons.hyps(1) [of ?ch "KafkaHandler_publish K now h k r"] Cons.prems by simp
  then show ?case using d b by (simp del: drain_loop.simps add: drain_loop.simps(2) [of "Suc (length rs)"])
qed

section \<open>Attributes on the way through Kafka\<close>

text \<open>
  What an encoder prints for one value: integers of 64 bits, and each member of an object once. Read
  back into \<^verbatim>\<open>any\<close> and printed again, every integer has become the nearest \<^verbatim>\<open>float64\<close>.
\<close>

fun printed_json :: "json \<Rightarrow> bool" where
  "printed_json (JInt i) = (- (2 ^ 63) \<le> i \<and> i < 2 ^ 64)"
| "printed_json (JArr js) = list_all printed_json js"
| "printed_json (JObj ms) = (distinct (map fst ms) \<and> list_all (\<lambda>m. printed_json (snd m)) ms)"
| "printed_json j = True"

fun floats_json :: "json \<Rightarrow> json" where
  "floats_json (JInt i) = JFloat (f64_of_int i)"
| "floats_json (JArr js) = JArr (map floats_json js)"
| "floats_json (JObj ms) = JObj (map (\<lambda>m. (fst m, floats_json (snd m))) ms)"
| "floats_json j = j"

lemma f64_of_int_finite:
  assumes "- (2 ^ 63) \<le> i" "i < 2 ^ 64"
  shows "\<exists>s m e. f64_of_int i = Fin s m e"
proof (cases "i = 0")
  case True
  then show ?thesis by (auto simp: f64_of_int_def f64_round_def)
next
  case False
  let ?m = "nat \<bar>i\<bar>"
  have "?m \<noteq> 0" using False by simp
  moreover have "?m < 2 ^ 64" using assms by simp
  ultimately have "2 ^ (bitlen ?m - 1) < (2::nat) ^ 64" using bitlen_bounds [of ?m] by linarith
  then have "bitlen ?m - 1 < 64" by (rule power_less_imp_less_exp [rotated]) simp
  then have "bitlen ?m \<le> 64" by simp
  then have "ulp_exp ?m 0 < 971" by (simp add: ulp_exp_def)
  then show ?thesis using False by (auto simp: f64_of_int_def f64_round_def f64_pack_def Let_def)
qed

lemma seq_results_Inr: "(\<And>x. x \<in> set xs \<Longrightarrow> f x = Inr (g x)) \<Longrightarrow> seq_results (map f xs) = Inr (map g xs)"
  by (induction xs) simp_all

lemma marshal_members_Inr:
  "(\<And>m. m \<in> set ms \<Longrightarrow> snd m = Inr (g m)) \<Longrightarrow> marshal_members ms = Inr (map (\<lambda>m. (fst m, g m)) ms)"
proof (induction ms)
  case (Cons m ms)
  then have "snd m = Inr (g m)" "marshal_members ms = Inr (map (\<lambda>m. (fst m, g m)) ms)" by simp_all
  then show ?case by (cases m; cases "snd m") auto
qed simp

lemma any_json_printed: "printed_json j \<Longrightarrow> any_json j = Inr (floats_json j)"
proof (induction j rule: any_json.induct)
  case (1 i)
  then show ?case using f64_of_int_finite [of i] by auto
next
  case (2 js)
  then show ?case by (simp add: list_all_iff seq_results_Inr [where g = floats_json])
next
  case (3 ms)
  then have "any_json (snd m) = Inr (floats_json (snd m))" if "m \<in> set ms" for m
    using that by (auto simp: list_all_iff)
  then have "marshal_members (map (\<lambda>m. (fst m, any_json (snd m))) ms) = Inr (map (\<lambda>m. (fst m, floats_json (snd m))) ms)"
    by (induction ms) auto
  then show ?case by (simp add: marshal_obj_def)
qed simp_all

text \<open>The attributes of a record as a map: of the attributes with one name the last counts.\<close>

lemma map_put_keys: "fst ` set (map_put k v m) = insert k (fst ` set m)"
  by (induction k v m rule: map_put.induct) (simp_all add: insert_commute)

lemma map_put_distinct: "distinct (map fst m) \<Longrightarrow> distinct (map fst (map_put k v m))"
  by (induction m) (auto simp: map_put_keys)

lemma map_of_map_put: "map_of (map_put k v m) = (map_of m)(k \<mapsto> v)"
  by (induction m) (auto simp: fun_eq_iff)

lemma map_of_foldl_map_put: "map_of (foldl (\<lambda>m a. map_put (fst a) (snd a) m) m0 as) = map_of m0 ++ map_of (rev as)"
proof (induction "as" arbitrary: m0)
  case (Cons a "as")
  then show ?case by (cases a) (auto simp: map_of_map_put map_add_def fun_eq_iff split: option.splits)
qed simp

lemma distinct_foldl_map_put:
  "distinct (map fst m0) \<Longrightarrow> distinct (map fst (foldl (\<lambda>m a. map_put (fst a) (snd a) m) m0 as))"
  by (induction "as" arbitrary: m0) (simp_all add: map_put_distinct)

lemma record_attrs_map: "map_of (record_attrs h r) = map_of (rev (kh_attrs h @ sr_Attrs r))"
  unfolding record_attrs_def by (simp only: map_of_foldl_map_put) simp

lemma record_attrs_distinct: "distinct (map fst (record_attrs h r))"
  by (simp add: record_attrs_def distinct_foldl_map_put)

lemma record_attrs_set: "set (record_attrs h r) \<subseteq> set (kh_attrs h @ sr_Attrs r)"
proof (rule subsetI)
  fix a assume "a \<in> set (record_attrs h r)"
  then have "map_of (record_attrs h r) (fst a) = Some (snd a)" by (simp add: record_attrs_distinct)
  then have "map_of (rev (kh_attrs h @ sr_Attrs r)) (fst a) = Some (snd a)" by (simp add: record_attrs_map)
  then have "(fst a, snd a) \<in> set (rev (kh_attrs h @ sr_Attrs r))" by (rule map_of_SomeD)
  then show "a \<in> set (kh_attrs h @ sr_Attrs r)" by auto
qed

lemma record_attrs_Nil: "record_attrs h r = [] \<longleftrightarrow> kh_attrs h @ sr_Attrs r = []"
proof -
  have "(map_of (record_attrs h r) = Map.empty) = (map_of (rev (kh_attrs h @ sr_Attrs r)) = Map.empty)"
    by (simp only: record_attrs_map)
  then show ?thesis by simp
qed

section \<open>Properties\<close>

text \<open>
  C22. The log handler at work. In every run of a new handler, however the calls of \<open>Handle\<close> and \<open>Close\<close>
  and the rounds of the drain goroutine follow each other: the buffer never holds more than
  \<^verbatim>\<open>bufferSize\<close> records, and a record is dropped only when it holds that many; the drain goroutine takes the
  accepted records in the order they were accepted, each once; what has been done to the broker is
  exactly one \<open>Publish\<close> for each of these records, in that order, to the handler's topic, under the record's
  level, of its time, level, message and own attributes; and when the goroutine has ended this was done
  for every accepted record. Attributes added by \<open>WithAttrs\<close> are not among those published.
\<close>

theorem log_channel:
  assumes "NewKafkaHandler p l = (h, ch0)" and "chan_run K h (k0, ch0) tr (k, ch)"
  shows "length (lc_buf ch) \<le> 1000 \<and> (\<forall>r st. chan_step K h (k, ch) (Dropped r) st \<longrightarrow> length (lc_buf ch) = 1000) \<and>
         accepted tr = map snd (published tr) @ lc_buf ch \<and>
         k = foldl (\<lambda>k (now, r). snd (Producer_Publish K now p k (level_string (sr_Level r))
                      (marshal_LogRecord (sr_Time r) (level_string (sr_Level r)) (sr_Message r)
                        (foldl (\<lambda>m a. map_put (fst a) (snd a) m) [] (sr_Attrs r))))) k0 (published tr) \<and>
         (lc_done ch \<longrightarrow> map snd (published tr) = accepted tr)"
proof -
  have h: "kh_producer h = p" "kh_attrs h = []" and ch0: "ch0 = \<lparr>lc_buf = [], lc_closed = False, lc_done = False\<rparr>"
    using assms(1) by (auto simp: NewKafkaHandler_def)
  have "chan_inv K h k0 tr (k, ch)"
    by (rule chan_inv_run [OF assms(2)]) (simp add: chan_inv_def ch0)
  then show ?thesis
    by (auto simp: chan_inv_def bufferSize_def KafkaHandler_publish_def record_attrs_def h dest!: chan_step_simps(2))
qed

theorem log_channel_witness:
  "\<exists>tr m. chan_run mem_kafka (fst (NewKafkaHandler (NewProducer [] ''logs'') 0))
            ([], snd (NewKafkaHandler (NewProducer [] ''logs'') 0)) tr
            ([m], \<lparr>lc_buf = [], lc_closed = True, lc_done = True\<rparr>) \<and>
          accepted tr = [\<lparr>sr_Time = 0, sr_Level = 0, sr_Message = ''m'', sr_Attrs = []\<rparr>] \<and> msg_Key m = ''INFO''"
proof -
  let ?r = "\<lparr>sr_Time = 0, sr_Level = 0, sr_Message = ''m'', sr_Attrs = []\<rparr>"
  let ?h = "fst (NewKafkaHandler (NewProducer [] ''logs'') 0)"
  let ?c0 = "\<lparr>lc_buf = [], lc_closed = False, lc_done = False\<rparr>"
  let ?tr = "(((([] @ [Accepted ?r]) @ [Published 7 ?r]) @ [Closed]) @ [Ended])"
  have new: "NewKafkaHandler (NewProducer [] ''logs'') 0 = (?h, ?c0)" 
    and new0: "snd (NewKafkaHandler (NewProducer [] ''logs'') 0) = ?c0" by (simp_all add: NewKafkaHandler_def)
  define k where "k = KafkaHandler_publish mem_kafka 7 ?h [] ?r"
  have "chan_step mem_kafka ?h ([], ?c0) (Accepted ?r) ([], ?c0\<lparr>lc_buf := [?r]\<rparr>)"
    by (rule chan_step.accept [of ?h]) (simp_all add: KafkaHandler_Handle_def bufferSize_def)
  moreover have "chan_step mem_kafka ?h ([], ?c0\<lparr>lc_buf := [?r]\<rparr>) (Published 7 ?r) (k, ?c0)"
    by (rule chan_step.publish) (simp_all add: KafkaHandler_drain_def chan_receive_def k_def)
  moreover have "chan_step mem_kafka ?h (k, ?c0) Closed (k, ?c0\<lparr>lc_closed := True\<rparr>)"
    by (rule chan_step.close) (simp add: KafkaHandler_Close_def)
  moreover have "chan_step mem_kafka ?h (k, ?c0\<lparr>lc_closed := True\<rparr>) Ended (k, ?c0\<lparr>lc_closed := True, lc_done := True\<rparr>)"
    by (rule chan_step.end_drain) (simp_all add: KafkaHandler_drain_def chan_receive_def)
  ultimately have run: "chan_run mem_kafka ?h ([], ?c0) ?tr (k, ?c0\<lparr>lc_closed := True, lc_done := True\<rparr>)"
    by (intro chan_run.step [OF chan_run.step [OF chan_run.step [OF chan_run.step [OF chan_run.start]]]])
  note L = log_channel [OF new run]
  have "published ?tr = [(7, ?r)]" and acc: "accepted ?tr = [?r]" by (simp_all add: published_def accepted_def)
  with L obtain m where "k = [m]" "msg_Key m = ''INFO''"
    by (simp add: Producer_Publish_def mem_kafka_def marshal_LogRecord_def marshal_obj_def marshal_time_def year_ok_def level_string_def)
  with run acc new0 show ?thesis by (intro exI [of _ ?tr] exI [of _ m]) simp
qed

text \<open>
  C32. Closing flushes. Once the channel is closed, as many rounds of the drain goroutine as there are
  records, and one more, publish every buffered record in order and end the goroutine: \<^verbatim>\<open>Close\<close> returns.
\<close>

theorem Close_flushes:
  assumes "KafkaHandler_Close ch = Some ch'" and "\<not> lc_done ch"
  shows "drain_loop (Suc (length (lc_buf ch))) K now h (k, ch') =
           (foldl (KafkaHandler_publish K now h) k (lc_buf ch), ch'\<lparr>lc_buf := [], lc_done := True\<rparr>)"
proof -
  have "ch' = ch\<lparr>lc_closed := True\<rparr>" using assms(1) by (simp add: KafkaHandler_Close_def split: if_splits)
  then show ?thesis using drain_loop_closed [of ch' K now h k] assms(2) by simp
qed

theorem Close_flushes_witness:
  "\<exists>ch' m. KafkaHandler_Close \<lparr>lc_buf = [\<lparr>sr_Time = 0, sr_Level = 0, sr_Message = ''m'', sr_Attrs = []\<rparr>], lc_closed = False, lc_done = False\<rparr> = Some ch' \<and>
     drain_loop 2 mem_kafka 0 (fst (NewKafkaHandler (NewProducer [] ''logs'') 0)) ([], ch') = ([m], ch'\<lparr>lc_buf := [], lc_done := True\<rparr>)"
  using Close_flushes [of "\<lparr>lc_buf = [\<lparr>sr_Time = 0, sr_Level = 0, sr_Message = ''m'', sr_Attrs = []\<rparr>], lc_closed = False, lc_done = False\<rparr>"
      _ mem_kafka 0 "fst (NewKafkaHandler (NewProducer [] ''logs'') 0)" "[]"]
  by (simp add: KafkaHandler_Close_def KafkaHandler_publish_def NewKafkaHandler_def record_attrs_def numeral_2_eq_2
      Producer_Publish_def mem_kafka_def marshal_LogRecord_def marshal_obj_def marshal_time_def year_ok_def del: drain_loop.simps)

text \<open>
  C33. A log record survives the way through Kafka. A record with a representable time, whose message and
  attribute names are UTF-8 and whose attributes can be encoded, is written as one message; the log
  consumer decodes that message without an error and inserts the record's time, level and message, and
  a JSON object with exactly one member for each attribute name: the value of the last attribute of
  that name, the record's own after the handler's, with its integers read back as \<^verbatim>\<open>float64\<close>. Without
  attributes it inserts null.
\<close>

theorem log_roundtrip:
  assumes "year_ok (sr_Time r)" and "valid_utf8 (sr_Message r)"
    and "\<forall>a \<in> set (kh_attrs h @ sr_Attrs r). valid_utf8 (fst a) \<and> (\<exists>j. snd a = Inr j \<and> printed_json j)"
  shows "\<exists>body attrs.
           KafkaHandler_publish K now h k r =
             snd (kw_WriteMessages K k (prod_topic (kh_producer h))
               \<lparr>msg_Key = level_string (sr_Level r), msg_Value = body, msg_Time = now\<rparr>) \<and>
           makeLogHandler exec d key body =
             exec d (sr_Time r) (level_string (sr_Level r)) (sr_Message r) attrs \<and>
           (if kh_attrs h @ sr_Attrs r = [] then attrs = JNull
            else \<exists>ms. attrs = JObj ms \<and> distinct (map fst ms) \<and>
              (\<forall>name. map_of ms name =
                 map_option (\<lambda>v. floats_json (projr v)) (map_of (rev (kh_attrs h @ sr_Attrs r)) name)))"
proof -
  define as' where "as' = map (\<lambda>a. (fst a, projr (snd a))) (record_attrs h r)"
  define ms where "ms = map (\<lambda>a. (fst a, floats_json (projr (snd a)))) (record_attrs h r)"
  define body where "body = JObj ([(''time'', JTime (sr_Time r)), (''level'', jstr (level_string (sr_Level r))),
      (''message'', jstr (sr_Message r))] @ (if record_attrs h r = [] then [] else [(''attrs'', JObj as')]))"
  have ok: "utf8_fix (fst a) = fst a" "snd a = Inr (projr (snd a))" "printed_json (projr (snd a))"
    if "a \<in> set (record_attrs h r)" for a
  proof -
    have "valid_utf8 (fst a)" "\<exists>j. snd a = Inr j \<and> printed_json j" using assms(3) that record_attrs_set [of h r] by blast+
    then show "utf8_fix (fst a) = fst a" "snd a = Inr (projr (snd a))" "printed_json (projr (snd a))"
      by (auto simp: valid_utf8_def)
  qed
  have "marshal_members (map (\<lambda>a. (utf8_fix (fst a), snd a)) (record_attrs h r)) =
      Inr (map (\<lambda>m. (fst m, projr (snd m))) (map (\<lambda>a. (utf8_fix (fst a), snd a)) (record_attrs h r)))"
    using ok(2) by (intro marshal_members_Inr) auto
  also have "map (\<lambda>m. (fst m, projr (snd m))) (map (\<lambda>a. (utf8_fix (fst a), snd a)) (record_attrs h r)) = as'"
    using ok(1) by (simp add: as'_def)
  finally have "marshal_LogRecord (sr_Time r) (level_string (sr_Level r)) (sr_Message r) (record_attrs h r) = Inr body"
    using assms(1) by (simp add: marshal_LogRecord_def marshal_obj_def marshal_time_def body_def)
  then have pub: "KafkaHandler_publish K now h k r =
      snd (kw_WriteMessages K k (prod_topic (kh_producer h))
        \<lparr>msg_Key = level_string (sr_Level r), msg_Value = body, msg_Time = now\<rparr>)"
    by (simp add: KafkaHandler_publish_def Producer_Publish_def split: prod.splits option.splits)
  have "printed_json (JObj as')" using ok(3) record_attrs_distinct [of h r] by (auto simp: as'_def list_all_iff comp_def)
  then have any: "any_json (JObj as') = Inr (JObj ms)" by (subst any_json_printed) (simp_all add: as'_def ms_def)
  have "utf8_fix (level_string l) = level_string l" for l
    using valid_utf8_ascii [of "level_string l"] by (simp add: valid_utf8_def level_string_def Let_def byte_def)
  then have "unmarshal_LogRecord body = Inr \<lparr>lr_Time = sr_Time r, lr_Level = level_string (sr_Level r),
      lr_Message = sr_Message r, lr_Attrs = (if record_attrs h r = [] then JNull else JObj ms)\<rparr>"
    using assms(2) any by (simp add: body_def unmarshal_LogRecord_def json_key_simps dec_attrs_def valid_utf8_def del: any_json.simps)
  moreover have "map_of ms = (\<lambda>name. map_option (\<lambda>v. floats_json (projr v)) (map_of (rev (kh_attrs h @ sr_Attrs r)) name))"
    unfolding record_attrs_map [symmetric] ms_def using map_of_map [of "\<lambda>v. floats_json (projr v)" "record_attrs h r"]
    by (simp add: comp_def case_prod_unfold)
  ultimately show ?thesis
    using pub record_attrs_distinct [of h r] record_attrs_Nil [of h r]
    by (intro exI [of _ body] exI [of _ "if record_attrs h r = [] then JNull else JObj ms"])
       (auto simp: makeLogHandler_def ms_def comp_def)
qed

text \<open>A record whose own attribute replaces one of the handler's, beside another of the handler's.\<close>

theorem log_roundtrip_witness:
  "\<exists>body ms. KafkaHandler_publish mem_kafka 0
       (KafkaHandler_WithAttrs (fst (NewKafkaHandler (NewProducer [] ''logs'') 0)) [(''n'', Inr (JInt 1)), (''s'', Inr (jstr ''x''))]) []
       \<lparr>sr_Time = 5, sr_Level = 0, sr_Message = ''m'', sr_Attrs = [(''n'', Inr (JInt 2))]\<rparr> =
         [\<lparr>msg_Key = ''INFO'', msg_Value = body, msg_Time = 0\<rparr>] \<and>
     makeLogHandler (\<lambda>d t l m a. (None, (t, l, m, a) # d)) [] [] body = (None, [(5, ''INFO'', ''m'', JObj ms)]) \<and>
     map_of ms ''n'' = Some (JFloat (f64_of_int 2)) \<and> map_of ms ''s'' = Some (JStr ''x'')"
proof -
  let ?h = "KafkaHandler_WithAttrs (fst (NewKafkaHandler (NewProducer [] ''logs'') 0)) [(''n'', Inr (JInt 1)), (''s'', Inr (jstr ''x''))]"
  let ?r = "\<lparr>sr_Time = 5, sr_Level = 0, sr_Message = ''m'', sr_Attrs = [(''n'', Inr (JInt 2))]\<rparr>"
  have h: "kh_attrs ?h @ sr_Attrs ?r = [(''n'', Inr (JInt 1)), (''s'', Inr (jstr ''x'')), (''n'', Inr (JInt 2))]"
    by (simp add: KafkaHandler_WithAttrs_def NewKafkaHandler_def)
  have u: "valid_utf8 ''m''" "valid_utf8 ''n''" "valid_utf8 ''s''" "valid_utf8 ''x''" by (simp_all add: valid_utf8_ascii byte_def)
  have l: "level_string 0 = ''INFO''" by (simp add: level_string_def)
  have "\<forall>a \<in> set (kh_attrs ?h @ sr_Attrs ?r). valid_utf8 (fst a) \<and> (\<exists>j. snd a = Inr j \<and> printed_json j)"
    unfolding h using u by (simp add: jstr_def)
  with log_roundtrip [of ?r ?h mem_kafka 0 "[]" "\<lambda>d t l m a. (None, (t, l, m, a) # d)" "[]" "[]"] u(1) obtain body ms where
    pub: "KafkaHandler_publish mem_kafka 0 ?h [] ?r = [\<lparr>msg_Key = level_string 0, msg_Value = body, msg_Time = 0\<rparr>]" and
    ins: "makeLogHandler (\<lambda>d t l m a. (None, (t, l, m, a) # d)) [] [] body = (None, [(5, level_string 0, ''m'', JObj ms)])" and
    ms: "\<forall>name. map_of ms name = map_option (\<lambda>v. floats_json (projr v)) (map_of (rev (kh_attrs ?h @ sr_Attrs ?r)) name)"
    unfolding h by (auto simp: year_ok_def mem_kafka_def)
  from u(4) have "floats_json (jstr ''x'') = JStr ''x''" by (simp add: jstr_def valid_utf8_def)
  with ms [unfolded h] have "map_of ms ''n'' = Some (JFloat (f64_of_int 2))" "map_of ms ''s'' = Some (JStr ''x'')" by simp_all
  with pub ins show ?thesis unfolding l by blast
qed

end
