(* ===== verification/Server.thy ===== *)
theory Server
  imports Router Logger
begin

text \<open>
  \<^verbatim>\<open>internal/server\<close> (start-up, shutdown) and the two programs under \<^verbatim>\<open>cmd\<close>. Opening the database is a
  parameter (\<open>dbinit\<close>, the error of each call); \<open>None\<close> as a result is a run-time panic, which here comes
  from an empty list of brokers, from a send on the closed log channel or from closing it twice.
  Goroutines that only start a server or a consumer are recorded as started.
\<close>

section \<open>Start-up\<close>

record dbinit =
  di_Open :: "string \<Rightarrow> error option"
  di_Use :: "string \<Rightarrow> string \<Rightarrow> error option"
  di_DB :: "error option"
  di_Ping :: "error option"

definition initDatabase :: "dbinit \<Rightarrow> Config \<Rightarrow> error option" where
  "initDatabase I cfg =
     (case di_Open I (cfg_DatabaseURL cfg) of
        Some e \<Rightarrow> Some (Errorf ''connect to database: '' e [])
      | None \<Rightarrow>
          (case di_Use I (cfg_DatabaseURL cfg) (cfg_DatabaseReadURL cfg) of
             Some e \<Rightarrow> Some (Errorf ''configure db resolver: '' e [])
           | None \<Rightarrow>
               (case di_DB I of
                  Some e \<Rightarrow> Some (Errorf ''get underlying sql.DB: '' e [])
                | None \<Rightarrow>
                    (case di_Ping I of
                       Some e \<Rightarrow> Some (Errorf ''ping database: '' e [])
                     | None \<Rightarrow> None))))"

definition initKafka :: "'k kafkalib \<Rightarrow> 'k \<Rightarrow> string list \<Rightarrow> string \<Rightarrow> ((error + Producer) \<times> 'k) option" where
  "initKafka K k brokers topic =
     (case EnsureTopic K k brokers topic 1 of
        None \<Rightarrow> None
      | Some (Some e, k') \<Rightarrow> Some (Inl (Errorf ''ensure kafka topic: '' e []), k')
      | Some (None, k') \<Rightarrow> Some (Inr (NewProducer brokers topic), k'))"

text \<open>\<open>fpRate\<close> is the constant 0.01.\<close>

definition fpRate :: float64 where
  "fpRate = f64_div (f64_of_int 1) (f64_of_int 100)"

definition seed_filter :: "'b bloomlib \<Rightarrow> 'd UserRepository \<Rightarrow> 'd \<Rightarrow> 'b Filter \<times> 'd" where
  "seed_filter B repo d =
     (let bf = bloom_New B 1000000 fpRate
      in case repo_AllEmailsAndUsernames repo background d of
           (Inl e, d') \<Rightarrow> (bf, d')
         | (Inr (emails, usernames), d') \<Rightarrow>
             (foldl (\<lambda>f u. Filter_Add B f (''username:'' @ u))
                (foldl (\<lambda>f e. Filter_Add B f (''email:'' @ e)) bf emails) usernames, d'))"

text \<open>
  The two background consumers: a consumer, and a goroutine that runs \<open>Consume\<close> on it with the handler
  given here.
\<close>

definition StartConversionConsumer ::
    "string list \<Rightarrow> string \<Rightarrow> string \<Rightarrow> Consumer \<times> (string \<times> string) list msg_handler" where
  "StartConversionConsumer brokers topic groupID = (NewConsumer brokers topic groupID, handleConversionEvent)"

definition StartLogConsumer ::
    "('g \<Rightarrow> instant \<Rightarrow> string \<Rightarrow> string \<Rightarrow> json \<Rightarrow> error option \<times> 'g) \<Rightarrow> string list \<Rightarrow> string \<Rightarrow> string
     \<Rightarrow> Consumer \<times> 'g msg_handler" where
  "StartLogConsumer exec brokers topic groupID = (NewConsumer brokers topic groupID, makeLogHandler exec)"

record ('d, 'c, 'b, 'x) Dependencies =
  dp_UserSvc :: "('d \<times> 'c) userServiceImpl"
  dp_AuthService :: "'d authService"
  dp_filter :: "'b Filter"
  dp_ExchangeClient :: "('x \<times> 'c) rate_client"
  dp_Producer :: Producer
  dp_Consumer :: Consumer
  dp_LogProducer :: Producer
  dp_LogConsumer :: Consumer

definition NewDependencies ::
    "dbinit \<Rightarrow> ('g \<Rightarrow> instant \<Rightarrow> string \<Rightarrow> string \<Rightarrow> json \<Rightarrow> error option \<times> 'g)
     \<Rightarrow> ('d, 'c, 'b, 'x, 'k, 'l) world_libs \<Rightarrow> Config \<Rightarrow> 'd \<times> 'k
     \<Rightarrow> ((error + ('d, 'c, 'b, 'x) Dependencies) \<times> ('d \<times> 'k)) option" where
  "NewDependencies I exec W cfg st =
     (case st of (d, k) \<Rightarrow>
      case initDatabase I cfg of
        Some e \<Rightarrow> Some (Inl e, (d, k))
      | None \<Rightarrow>
          (case initKafka (wl_kafka W) k (cfg_KafkaBrokers cfg) (cfg_KafkaTopic cfg) of
             None \<Rightarrow> None
           | Some (Inl e, k1) \<Rightarrow> Some (Inl e, (d, k1))
           | Some (Inr producer, k1) \<Rightarrow>
               (case initKafka (wl_kafka W) k1 (cfg_KafkaBrokers cfg) (cfg_LogKafkaTopic cfg) of
                  None \<Rightarrow> None
                | Some (Inl e, k2) \<Rightarrow> Some (Inl e, (d, k2))
                | Some (Inr logProducer, k2) \<Rightarrow>
                    let consumer = fst (StartConversionConsumer (cfg_KafkaBrokers cfg) (cfg_KafkaTopic cfg) (cfg_KafkaGroupID cfg));
                        logConsumer = fst (StartLogConsumer exec (cfg_KafkaBrokers cfg) (cfg_LogKafkaTopic cfg) (cfg_LogKafkaGroupID cfg));
                        baseUserRepo = NewUserRepository (wl_gorm W)
                    in case seed_filter (lib_bloom (wl_libs W)) baseUserRepo d of
                         (bf, d') \<Rightarrow>
                           Some (Inr \<lparr>dp_UserSvc = deps_UserSvc W cfg,
                                      dp_AuthService = newAuthService cfg baseUserRepo, dp_filter = bf,
                                      dp_ExchangeClient = deps_ExchangeClient W cfg,
                                      dp_Producer = producer, dp_Consumer = consumer,
                                      dp_LogProducer = logProducer, dp_LogConsumer = logConsumer\<rparr>, (d', k2)))))"

text \<open>The HTTP server \<^verbatim>\<open>New\<close> configures; its handler is \<open>serve\<close>. The product wraps around at 64 bits.\<close>

record http_Server =
  hs_Addr :: string
  hs_ReadTimeout :: duration
  hs_WriteTimeout :: duration
  hs_IdleTimeout :: duration

definition App_New :: "Config \<Rightarrow> http_Server" where
  "App_New cfg =
     \<lparr>hs_Addr = cfg_ServerAddress cfg, hs_ReadTimeout = cfg_ServerTimeout cfg, hs_WriteTimeout = cfg_ServerTimeout cfg,
      hs_IdleTimeout = cfg_ServerTimeout cfg * 2\<rparr>"

lemma App_New_idle:
  assumes "0 \<le> sint (cfg_ServerTimeout cfg)" "sint (cfg_ServerTimeout cfg) < 2 ^ 62"
  shows "sint (hs_IdleTimeout (App_New cfg)) = 2 * sint (cfg_ServerTimeout cfg)"
proof -
  have "sint (cfg_ServerTimeout cfg * 2) = signed_take_bit 63 (sint (cfg_ServerTimeout cfg) * 2)"
    using sint_word_ariths(3) [of "cfg_ServerTimeout cfg" 2] by simp
  also have "\<dots> = sint (cfg_ServerTimeout cfg) * 2"
    using assms by (intro signed_take_bit_int_eq_self) simp_all
  finally show ?thesis by (simp add: App_New_def)
qed

section \<open>Shutdown\<close>

text \<open>
  The calls of \<^verbatim>\<open>Dependencies.Close\<close>; \<open>GetDB\<close> is \<^verbatim>\<open>d.DB.DB()\<close>. \<open>err c\<close> is the error of the call \<open>c\<close>.
\<close>

datatype closed = CloseConsumer | CloseLogConsumer | CloseLogHandler | CloseProducer | CloseLogProducer | CloseCache
  | GetDB | CloseDB

text \<open>Logging through the default logger, as far as the Kafka handler sees it.\<close>

definition slog_log :: "KafkaHandler \<Rightarrow> int \<Rightarrow> instant \<Rightarrow> string \<Rightarrow> attr list \<Rightarrow> log_chan \<Rightarrow> log_chan option" where
  "slog_log h level now msg attrs ch =
     TeeHandler_Handle KafkaHandler_Enabled (\<lambda>h r ch. KafkaHandler_Handle h ch r) [h]
       \<lparr>sr_Time = now, sr_Level = level, sr_Message = msg, sr_Attrs = attrs\<rparr> ch"

text \<open>
  An error as an attribute. The values \<^verbatim>\<open>errors.New\<close> and \<^verbatim>\<open>fmt.Errorf\<close> make have no exported fields, so
  \<^verbatim>\<open>encoding/json\<close> writes an empty object for them.
\<close>

definition error_attr :: "error \<Rightarrow> attr list" where
  "error_attr err = [(''error'', Inr (JObj []))]"

text \<open>
  The log handler and its channel, once \<^verbatim>\<open>main\<close> has installed it; before, the default logger writes to
  standard output only.
\<close>

type_synonym log_sink = "(KafkaHandler \<times> log_chan) option"

definition close_one ::
    "(closed \<Rightarrow> error option) \<Rightarrow> instant \<Rightarrow> string \<Rightarrow> closed \<Rightarrow> log_sink \<Rightarrow> log_sink option" where
  "close_one err now msg c lh =
     (case err c of
        None \<Rightarrow> Some lh
      | Some e \<Rightarrow>
          (case lh of
             None \<Rightarrow> Some None
           | Some (h, ch) \<Rightarrow> map_option (\<lambda>ch'. Some (h, ch')) (slog_log h 8 now msg (error_attr e) ch)))"

text \<open>\<^verbatim>\<open>LogHandler.Close\<close>; waiting for the drain goroutine empties the channel.\<close>

definition close_log_handler :: "log_sink \<Rightarrow> log_sink option" where
  "close_log_handler lh =
     (case lh of
        None \<Rightarrow> Some None
      | Some (h, ch) \<Rightarrow> map_option (\<lambda>ch'. Some (h, ch'\<lparr>lc_buf := [], lc_done := True\<rparr>)) (KafkaHandler_Close ch))"

definition Dependencies_Close ::
    "(closed \<Rightarrow> error option) \<Rightarrow> instant \<Rightarrow> log_sink \<Rightarrow> (closed list \<times> log_sink) option" where
  "Dependencies_Close err now lh =
     Option.bind (close_one err now ''close consumer'' CloseConsumer lh) (\<lambda>lh1.
     Option.bind (close_one err now ''close log consumer'' CloseLogConsumer lh1) (\<lambda>lh2.
     Option.bind (close_log_handler lh2) (\<lambda>lh3.
     Option.bind (close_one err now ''close producer'' CloseProducer lh3) (\<lambda>lh4.
     Option.bind (close_one err now ''close log producer'' CloseLogProducer lh4) (\<lambda>lh5.
     Option.bind (close_one err now ''close cache'' CloseCache lh5) (\<lambda>lh6.
       let done = [CloseConsumer, CloseLogConsumer] @ (if lh2 = None then [] else [CloseLogHandler]) @
                  [CloseProducer, CloseLogProducer, CloseCache]
       in case err GetDB of
            Some _ \<Rightarrow> Some (done, lh6)
          | None \<Rightarrow> map_option (\<lambda>lh7. (done @ [CloseDB], lh7)) (close_one err now ''close database'' CloseDB lh6)))))))"

definition App_shutdown ::
    "error option \<Rightarrow> (closed \<Rightarrow> error option) \<Rightarrow> KafkaHandler \<Rightarrow> instant \<Rightarrow> log_chan
     \<Rightarrow> (error option \<times> log_sink) option" where
  "App_shutdown httpErr err h now ch =
     Option.bind (slog_log h 0 now ''shutting down'' [] ch) (\<lambda>ch1.
     Option.bind (Dependencies_Close err now (Some (h, ch1))) (\<lambda>(_, lh2).
       let shutdownErr = map_option (\<lambda>e. Errorf ''HTTP shutdown: '' e []) httpErr
       in case lh2 of
            None \<Rightarrow> Some (shutdownErr, None)
          | Some (_, ch2) \<Rightarrow>
              map_option (\<lambda>ch3. (shutdownErr, Some (h, ch3))) (slog_log h 0 now ''server exited'' [] ch2)))"

text \<open>
  What happens around the servers while \<^verbatim>\<open>Run\<close> waits: the error of \<^verbatim>\<open>net.Listen\<close>, the errors the two servers
  return before \<^verbatim>\<open>Run\<close> wakes up, the records that serving logs, what wakes \<^verbatim>\<open>Run\<close> up (\<open>None\<close> is a signal, a
  number is the position of an error in \<^verbatim>\<open>errCh\<close>), and the error of \<^verbatim>\<open>http.Shutdown\<close>.
\<close>

record server_events =
  se_grpcListen :: "error option"
  se_grpcServe :: "error option"
  se_httpServe :: "error option"
  se_serving :: "log_chan \<Rightarrow> log_chan"
  se_select :: "nat option"
  se_httpShutdown :: "error option"

definition startGRPC ::
    "server_events \<Rightarrow> Config \<Rightarrow> KafkaHandler \<Rightarrow> instant \<Rightarrow> error list \<times> log_chan \<Rightarrow> (error list \<times> log_chan) option" where
  "startGRPC S cfg h now st =
     (case st of (errCh, ch) \<Rightarrow>
        map_option (\<lambda>ch'.
          (case se_grpcListen S of
             Some e \<Rightarrow> (errCh @ [Errorf ''gRPC listen: '' e []], ch')
           | None \<Rightarrow>
               (case se_grpcServe S of
                  Some e \<Rightarrow> (errCh @ [Errorf ''gRPC serve: '' e []], ch')
                | None \<Rightarrow> (errCh, ch'))))
          (slog_log h 0 now ''gRPC server starting'' [(''addr'', Inr (jstr (cfg_GRPCAddress cfg)))] ch))"

text \<open>\<open>ErrServerClosed\<close> is \<^verbatim>\<open>http.ErrServerClosed\<close>.\<close>

definition startHTTP ::
    "error \<Rightarrow> server_events \<Rightarrow> Config \<Rightarrow> KafkaHandler \<Rightarrow> instant \<Rightarrow> error list \<times> log_chan \<Rightarrow> (error list \<times> log_chan) option" where
  "startHTTP ErrServerClosed S cfg h now st =
     (case st of (errCh, ch) \<Rightarrow>
        map_option (\<lambda>ch'.
          (case se_httpServe S of
             Some e \<Rightarrow> if e \<noteq> ErrServerClosed then (errCh @ [Errorf ''HTTP listen: '' e []], ch') else (errCh, ch')
           | None \<Rightarrow> (errCh, ch')))
          (slog_log h 0 now ''HTTP server starting'' [(''addr'', Inr (jstr (cfg_ServerAddress cfg)))] ch))"

text \<open>A position at which nothing was sent is no reason to wake up: then \<open>Run\<close> waits for the signal.\<close>

definition App_Run ::
    "error \<Rightarrow> server_events \<Rightarrow> Config \<Rightarrow> (closed \<Rightarrow> error option) \<Rightarrow> KafkaHandler \<Rightarrow> instant \<Rightarrow> log_chan
     \<Rightarrow> (error option \<times> log_sink) option" where
  "App_Run ErrServerClosed S cfg closeErr h now ch =
     Option.bind (startGRPC S cfg h now ([], ch)) (\<lambda>st1.
     Option.bind (startHTTP ErrServerClosed S cfg h now st1) (\<lambda>(errCh, ch2).
       let ch3 = se_serving S ch2
       in case (case se_select S of Some i \<Rightarrow> if i < length errCh then Some (errCh ! i) else None | None \<Rightarrow> None) of
            None \<Rightarrow> App_shutdown (se_httpShutdown S) closeErr h now ch3
          | Some err \<Rightarrow>
              Option.bind (slog_log h 8 now ''server startup failed'' (error_attr err) ch3) (\<lambda>ch4.
              map_option (\<lambda>(_, lh). (Some (Errorf ''startup: '' err []), lh)) (Dependencies_Close closeErr now (Some (h, ch4))))))"

text \<open>
  \<^verbatim>\<open>main\<close> from the point where the logger is installed: run, and the deferred \<^verbatim>\<open>deps.Close\<close> when \<^verbatim>\<open>Run\<close>
  returns no error; otherwise it logs and exits with status 1, without running deferred calls.
\<close>

definition main_run ::
    "error \<Rightarrow> server_events \<Rightarrow> Config \<Rightarrow> (closed \<Rightarrow> error option) \<Rightarrow> KafkaHandler \<Rightarrow> instant \<Rightarrow> log_chan \<Rightarrow> nat option" where
  "main_run ErrServerClosed S cfg closeErr h now ch =
     Option.bind (App_Run ErrServerClosed S cfg closeErr h now ch) (\<lambda>(r, lh).
       case r of
         None \<Rightarrow> map_option (\<lambda>_. 0) (Dependencies_Close closeErr now lh)
       | Some e \<Rightarrow>
           (case lh of
              None \<Rightarrow> Some 1
            | Some (_, ch') \<Rightarrow> map_option (\<lambda>_. 1) (slog_log h 8 now ''server error'' (error_attr e) ch')))"

section \<open>Log levels\<close>

definition level_names :: "(string \<times> int) list" where
  "level_names = [(''DEBUG'', - 4), (''INFO'', 0), (''WARN'', 4), (''ERROR'', 8)]"

text \<open>
  \<^verbatim>\<open>slog.Level.UnmarshalText\<close>; on an error the level stays at its zero value, \<^verbatim>\<open>INFO\<close>. A level is a 64-bit
  integer, so the sum wraps around.
\<close>

definition parseLevel :: "(string \<Rightarrow> string) \<Rightarrow> string \<Rightarrow> int" where
  "parseLevel uni s =
     (let name = takeWhile (\<lambda>c. c \<noteq> CHR ''+'' \<and> c \<noteq> CHR ''-'') s;
          rest = drop (length name) s
      in case (if rest = [] then Some 0 else Atoi rest) of
           None \<Rightarrow> 0
         | Some offset \<Rightarrow>
             (case map_of level_names (ToUpper uni name) of None \<Rightarrow> 0 | Some l \<Rightarrow> signed_take_bit 63 (l + offset)))"

section \<open>The server program\<close>

text \<open>
  The status \<^verbatim>\<open>main\<close> exits with, \<open>None\<close> for a panic. Until the Kafka handler is installed the default
  logger writes to the standard output only.
\<close>

definition api_main ::
    "(string \<Rightarrow> string) \<Rightarrow> dbinit \<Rightarrow> ('g \<Rightarrow> instant \<Rightarrow> string \<Rightarrow> string \<Rightarrow> json \<Rightarrow> error option \<times> 'g)
     \<Rightarrow> ('d, 'c, 'b, 'x, 'k, 'l) world_libs \<Rightarrow> error \<Rightarrow> server_events \<Rightarrow> (closed \<Rightarrow> error option) \<Rightarrow> instant \<Rightarrow> 'd \<times> 'k
     \<Rightarrow> nat option" where
  "api_main env I exec W ErrServerClosed S closeErr now st =
     (case Load env of
        Inl _ \<Rightarrow> Some 1
      | Inr cfg \<Rightarrow>
          (case NewDependencies I exec W cfg st of
             None \<Rightarrow> None
           | Some (Inl _, _) \<Rightarrow> Some 1
           | Some (Inr deps, _) \<Rightarrow>
               (case NewKafkaHandler (dp_LogProducer deps) (parseLevel (wl_uni W) (cfg_LogLevel cfg)) of
                  (kafkaH, ch) \<Rightarrow> main_run ErrServerClosed S cfg closeErr kafkaH now ch)))"

section \<open>The migration program\<close>

record 'm migratelib =
  mg_New :: "string \<Rightarrow> string \<Rightarrow> 'm \<Rightarrow> error option \<times> 'm"
  mg_Up :: "'m \<Rightarrow> error option \<times> 'm"
  mg_Down :: "'m \<Rightarrow> error option \<times> 'm"
  mg_Version :: "'m \<Rightarrow> (error + nat \<times> bool) \<times> 'm"

datatype cli_exit = Fatal string | Done string

definition migrate_main ::
    "'m migratelib \<Rightarrow> error \<Rightarrow> string list \<Rightarrow> (string \<Rightarrow> string) \<Rightarrow> 'm \<Rightarrow> cli_exit \<times> 'm" where
  "migrate_main M ErrNoChange args env m =
     (case args of
        (_ # cmd # _) \<Rightarrow>
          let dbURL = env ''DATABASE_URL''
          in if dbURL = [] then (Fatal ''DATABASE_URL is required'', m)
             else
               (case mg_New M ''file://migrations'' dbURL m of
                  (Some e, m1) \<Rightarrow> (Fatal (''init migrate: '' @ Error e), m1)
                | (None, m1) \<Rightarrow>
                    if cmd = ''up'' then
                      (case mg_Up M m1 of
                         (Some e, m2) \<Rightarrow>
                           if \<not> errors_Is e ErrNoChange then (Fatal (''migrate up: '' @ Error e), m2)
                           else (Done ''migrations applied'', m2)
                       | (None, m2) \<Rightarrow> (Done ''migrations applied'', m2))
                    else if cmd = ''down'' then
                      (case mg_Down M m1 of
                         (Some e, m2) \<Rightarrow>
                           if \<not> errors_Is e ErrNoChange then (Fatal (''migrate down: '' @ Error e), m2)
                           else (Done ''migrations rolled back'', m2)
                       | (None, m2) \<Rightarrow> (Done ''migrations rolled back'', m2))
                    else if cmd = ''version'' then
                      (case mg_Version M m1 of
                         (Inl e, m2) \<Rightarrow> (Fatal (''migrate version: '' @ Error e), m2)
                       | (Inr (version, dirty), m2) \<Rightarrow>
                           (Done (''version: '' @ show_nat version @ '', dirty: '' @ (if dirty then ''true'' else ''false'')), m2))
                    else (Fatal (''unknown command: '' @ cmd @ '' (use up, down, or version)''), m1))
      | _ \<Rightarrow> (Fatal ''usage: migrate <up|down|version>'', m))"

section \<open>Lemmas\<close>

lemma slog_log_closed: "lc_closed ch \<Longrightarrow> kh_level h \<le> l \<Longrightarrow> slog_log h l now msg attrs ch = None"
  by (simp add: slog_log_def KafkaHandler_Enabled_def KafkaHandler_Handle_def)

lemma slog_log_below: "l < kh_level h \<Longrightarrow> slog_log h l now msg attrs ch = Some ch"
  by (simp add: slog_log_def KafkaHandler_Enabled_def)

text \<open>Logging never reopens the channel.\<close>

lemma slog_log_keeps: "slog_log h l now msg attrs ch = Some ch' \<Longrightarrow> lc_closed ch' = lc_closed ch"
  by (auto simp: slog_log_def KafkaHandler_Handle_def split: if_splits)

definition sink_closed :: "log_sink \<Rightarrow> bool" where
  "sink_closed lh = (case lh of None \<Rightarrow> False | Some (h, ch) \<Rightarrow> lc_closed ch)"

lemma close_one_keeps: "close_one err now msg c lh = Some lh' \<Longrightarrow> (lh' = None \<longleftrightarrow> lh = None) \<and> sink_closed lh' = sink_closed lh"
  by (auto simp: close_one_def sink_closed_def dest: slog_log_keeps split: option.splits)

lemma close_log_handler_closes:
  "close_log_handler lh = Some lh' \<Longrightarrow> (lh' = None \<longleftrightarrow> lh = None) \<and> (lh \<noteq> None \<longrightarrow> sink_closed lh' \<and> \<not> sink_closed lh)"
  by (auto simp: close_log_handler_def sink_closed_def KafkaHandler_Close_def split: option.splits if_splits)

text \<open>\<open>Close\<close> returns at most once: it leaves the channel closed, and on a closed channel it panics.\<close>

lemma Dependencies_Close_closes:
  assumes "Dependencies_Close err now lh = Some (cs, lh')"
  shows "(lh' = None \<longleftrightarrow> lh = None) \<and> (lh \<noteq> None \<longrightarrow> sink_closed lh' \<and> \<not> sink_closed lh)"
proof -
  from assms obtain lh1 lh2 lh3 lh4 lh5 lh6 where
    c: "close_one err now ''close consumer'' CloseConsumer lh = Some lh1"
       "close_one err now ''close log consumer'' CloseLogConsumer lh1 = Some lh2"
    and h: "close_log_handler lh2 = Some lh3"
    and r: "close_one err now ''close producer'' CloseProducer lh3 = Some lh4"
       "close_one err now ''close log producer'' CloseLogProducer lh4 = Some lh5"
       "close_one err now ''close cache'' CloseCache lh5 = Some lh6"
    and l: "lh' = lh6 \<or> close_one err now ''close database'' CloseDB lh6 = Some lh'"
    by (auto simp: Dependencies_Close_def bind_eq_Some_conv Let_def split: option.splits)
  from l have "(lh' = None \<longleftrightarrow> lh6 = None) \<and> sink_closed lh' = sink_closed lh6" by (elim disjE) (simp, erule close_one_keeps)
  with c [THEN close_one_keeps] r [THEN close_one_keeps] close_log_handler_closes [OF h] show ?thesis by simp
qed

lemma App_shutdown_closes:
  assumes "App_shutdown httpErr err h now ch = Some (r, lh)"
  shows "lh \<noteq> None \<and> sink_closed lh"
  using assms
  by (auto simp: App_shutdown_def bind_eq_Some_conv sink_closed_def dest!: Dependencies_Close_closes dest: slog_log_keeps
      split: option.splits prod.splits)

section \<open>Properties\<close>

lemma App_shutdown_error:
  "App_shutdown httpErr err h now ch = Some (r, lh) \<Longrightarrow> r = map_option (\<lambda>e. Errorf ''HTTP shutdown: '' e []) httpErr"
  by (auto simp: App_shutdown_def bind_eq_Some_conv Let_def split: option.splits prod.splits)

text \<open>When \<open>Run\<close> returns no error, the log channel is closed, so the deferred \<open>Close\<close> panics.\<close>

lemma App_Run_closes:
  assumes "App_Run X S cfg err h now ch = Some (None, lh)"
  shows "Dependencies_Close err now lh = None"
proof -
  from assms obtain ch' where "App_shutdown (se_httpShutdown S) err h now ch' = Some (None, lh)"
    by (auto simp: App_Run_def Let_def bind_eq_Some_conv split: option.splits if_splits prod.splits)
  from App_shutdown_closes [OF this] Dependencies_Close_closes [of err now lh] show ?thesis
    by (metis not_None_eq surj_pair)
qed

lemma main_run_status: "main_run X S cfg err h now ch \<noteq> Some 0"
proof
  assume m: "main_run X S cfg err h now ch = Some 0"
  then obtain r lh where run: "App_Run X S cfg err h now ch = Some (r, lh)" by (auto simp: main_run_def bind_eq_Some_conv)
  with m have "r = None" by (cases r) (auto simp: main_run_def split: option.splits)
  with m run App_Run_closes [of X S cfg err h now ch lh] show False by (simp add: main_run_def)
qed

text \<open>
  C34. A graceful shutdown does not end normally. After a signal, if the HTTP server stops without an
  error, \<^verbatim>\<open>main\<close> panics, whatever the log level, the state of the log channel and the errors of the
  single calls: \<^verbatim>\<open>shutdown\<close> closes the dependencies, logs through the closed channel if the level is
  enabled, and the deferred \<^verbatim>\<open>deps.Close\<close> closes the log channel a second time. So the program never exits
  with status 0, however it is started and stopped.
\<close>

theorem shutdown_panics:
  "main_run X (S\<lparr>se_select := None, se_httpShutdown := None\<rparr>) cfg closeErr h now ch = None \<and>
   api_main env I exec W X S' closeErr now st \<noteq> Some 0"
proof
  let ?S = "S\<lparr>se_select := None, se_httpShutdown := None\<rparr>"
  show "main_run X ?S cfg closeErr h now ch = None"
  proof (rule ccontr)
    assume "main_run X ?S cfg closeErr h now ch \<noteq> None"
    then obtain r lh where run: "App_Run X ?S cfg closeErr h now ch = Some (r, lh)" by (auto simp: main_run_def bind_eq_Some_conv)
    then have "r = None"
      by (auto simp: App_Run_def Let_def bind_eq_Some_conv dest!: App_shutdown_error split: prod.splits)
    with run App_Run_closes [of X ?S cfg closeErr h now ch lh] \<open>main_run X ?S cfg closeErr h now ch \<noteq> None\<close> show False
      by (simp add: main_run_def)
  qed
  show "api_main env I exec W X S' closeErr now st \<noteq> Some 0"
    using main_run_status by (auto simp: api_main_def split: sum.splits option.splits prod.splits)
qed

text \<open>
  \<open>Close\<close> on an open log channel, when no single call fails, returns after closing everything: the
  consumers first, then the log handler (whose buffer is empty then), the producers, the cache and the
  database. A second \<open>Close\<close> panics.
\<close>

lemma Close_complete:
  assumes "\<not> lc_closed ch" and "\<And>c. err c = None"
  shows "\<exists>ch'. Dependencies_Close err now (Some (h, ch)) =
             Some ([CloseConsumer, CloseLogConsumer, CloseLogHandler, CloseProducer, CloseLogProducer, CloseCache, CloseDB],
                   Some (h, ch')) \<and>
           lc_closed ch' \<and> lc_done ch' \<and> lc_buf ch' = [] \<and>
           Dependencies_Close err now (Some (h, ch')) = None"
  using assms
  by (simp add: Dependencies_Close_def close_one_def close_log_handler_def KafkaHandler_Close_def)

lemma Atoi_plus: "0 < v \<Longrightarrow> v < 2 ^ 63 \<Longrightarrow> Atoi (CHR ''+'' # show_int v) = Some v"
  using show_nat_digits [of "nat v"]
  by (simp add: Atoi_def split_sign_def show_int_def read_show_nat Let_def)

text \<open>Reading a level name followed by an offset.\<close>

lemma parseLevel_offset:
  assumes "(name, l) \<in> set level_names"
    and "off = [] \<and> v = 0 \<or> off \<noteq> [] \<and> hd off \<in> {CHR ''+'', CHR ''-''} \<and> Atoi off = Some v"
    and "- (2 ^ 63) \<le> l + v" "l + v < 2 ^ 63"
  shows "parseLevel uni (name @ off) = l + v"
proof -
  have pl: "\<forall>c \<in> set name. c \<noteq> CHR ''+'' \<and> c \<noteq> CHR ''-''" and up: "ToUpper uni name = name" and m: "map_of level_names name = Some l"
    using assms(1) by (auto simp: level_names_def ToUpper_def is_ascii_def byte_def upper_char_def)
  have tw: "takeWhile (\<lambda>c. c \<noteq> CHR ''+'' \<and> c \<noteq> CHR ''-'') (name @ off) = name"
    using pl assms(2) by (cases off) (auto simp: takeWhile_append2 takeWhile_tail)
  have "signed_take_bit 63 (l + v) = l + v"
    using assms(3,4) by (simp add: signed_take_bit_int_eq_self)
  with tw up m assms(2) show ?thesis by (auto simp: parseLevel_def)
qed

lemma show_int_neg: "v < 0 \<Longrightarrow> hd (show_int v) = CHR ''-'' \<and> show_int v \<noteq> []"
  by (simp add: show_int_def)

text \<open>
  Log levels: the text the log handler writes for a level, given as the configured level, is read
  back as that level, for every value of Go's 64-bit level type.
\<close>

lemma parseLevel_level_string:
  assumes "- (2 ^ 63) \<le> l" and "l < 2 ^ 63"
  shows "parseLevel uni (level_string l) = l"
proof -
  have off: "parseLevel uni (base @ (if v = 0 then [] else if v > 0 then CHR ''+'' # show_int v else show_int v)) = b + v"
    if "(base, b) \<in> set level_names" "b + v = l" "- (2 ^ 63) \<le> v" "v < 2 ^ 63" for base b v
    using that assms Atoi_plus [of v] Atoi_show_int [of v] show_int_neg [of v]
    by (intro parseLevel_offset) auto
  consider "l < 0" | "0 \<le> l" "l < 4" | "4 \<le> l" "l < 8" | "8 \<le> l" by linarith
  then show ?thesis
  proof cases
    case 1
    with off [of "''DEBUG''" "- 4" "l + 4"] assms show ?thesis by (auto simp: level_string_def level_names_def Let_def split: if_splits)
  next
    case 2
    with off [of "''INFO''" 0 l] assms show ?thesis by (auto simp: level_string_def level_names_def Let_def split: if_splits)
  next
    case 3
    with off [of "''WARN''" 4 "l - 4"] assms show ?thesis by (auto simp: level_string_def level_names_def Let_def split: if_splits)
  next
    case 4
    with off [of "''ERROR''" 8 "l - 8"] assms show ?thesis by (auto simp: level_string_def level_names_def Let_def split: if_splits)
  qed
qed

end
