(* ===== verification/Accounts.thy ===== *)
theory Accounts
  imports Steps Server
begin

text \<open>
  What the transition system of the server does to the accounts. \<open>table_effect\<close> is the effect each
  operation may have on the users table, \<open>acct_inv\<close> the invariant of a run (the table's constraints, a
  coherent cache, a filter that knows every identifier in the table). The properties are about runs of
  HTTP requests and gRPC calls in any order, on the database repository and the caching repository as
  the server wires them.
\<close>

section \<open>What a step does to the users table\<close>

text \<open>The effect each operation may have, besides none.\<close>

definition table_effect :: "op \<Rightarrow> table \<Rightarrow> table \<Rightarrow> bool" where
  "table_effect op m m' =
     (case op of
        OpRegister \<Rightarrow> (\<exists>row. usr_Role row = RoleUser \<and> m (usr_ID row) = None \<and> m' = m(usr_ID row \<mapsto> row))
      | OpUpdate i \<Rightarrow> (\<exists>old row. m i = Some old \<and> usr_Role row = usr_Role old \<and> usr_Password row = usr_Password old \<and>
                         m' = m(i \<mapsto> row))
      | OpDelete i \<Rightarrow> m' = m(i := None)
      | _ \<Rightarrow> False)"

definition libs_ok :: "('d, 'c, 'b, 'x, 'k, 'l) world_libs \<Rightarrow> (signing_method \<Rightarrow> string \<Rightarrow> string \<Rightarrow> Claims \<Rightarrow> bool) \<Rightarrow> bool" where
  "libs_ok W sig \<longleftrightarrow> jwt_ok (lib_jwt (wl_libs W)) sig \<and> bcrypt_ok (lib_bcrypt (wl_libs W)) \<and>
     bloom_ok (lib_bloom (wl_libs W))"

abbreviation core_inv :: "('d, 'c, 'b, 'x, 'k, 'l) world_libs \<Rightarrow> 'd rows \<Rightarrow> ('d, 'c, 'b, 'x, 'k) core \<Rightarrow> bool" where
  "core_inv W rows v \<equiv> db_inv (wl_gorm W) rows (co_db v)"

abbreviation core_tbl :: "'d rows \<Rightarrow> ('d, 'c, 'b, 'x, 'k) core \<Rightarrow> table" where
  "core_tbl rows v \<equiv> db_tbl rows background (co_db v)"

lemma deps_AuthService_repo [simp]: "as_userRepo (deps_AuthService W cfg) = NewUserRepository (wl_gorm W)"
  by (simp add: deps_AuthService_def newAuthService_def)

lemma with_auth_db [simp]: "co_db (with_auth v s) = fst s" "co_redis (with_auth v s) = co_redis v"
  by (simp_all add: with_auth_def)

text \<open>The reads through the cache leave the table alone, whatever the cache holds.\<close>

lemma cache_aside_db:
  assumes "cache_aside R ttl key underlying (s, c) = (r, w')" "I s"
    and "\<And>r s'. underlying s = (r, s') \<Longrightarrow> I s'"
  shows "I (fst w')"
  using assms unfolding cache_aside_def by (auto split: prod.splits sum.splits)

definition same_tbl :: "'d gorm \<Rightarrow> 'd rows \<Rightarrow> go_context \<Rightarrow> 'd \<Rightarrow> 'd \<Rightarrow> bool" where
  "same_tbl g rows ctx d d' \<longleftrightarrow> db_inv g rows d' \<and> db_tbl rows ctx d' = db_tbl rows ctx d"

lemma same_tblD: "same_tbl g rows ctx d d' \<Longrightarrow> db_inv g rows d' \<and> db_tbl rows ctx d' = db_tbl rows ctx d"
  by (simp add: same_tbl_def)

lemma caching_GetByEmail_db:
  assumes "db_inv g rows d" "CachingUserRepository_GetByEmail (NewUserRepository g) R ttl ctx (d, c) e = (r, w')"
  shows "same_tbl g rows ctx d (fst w')"
  by (rule cache_aside_db [OF assms(2) [unfolded CachingUserRepository_GetByEmail_def]])
     (use assms(1) impl.GetByEmail [OF assms(1)] in \<open>auto simp: same_tbl_def\<close>)

lemma caching_GetByUsername_db:
  assumes "db_inv g rows d" "CachingUserRepository_GetByUsername (NewUserRepository g) R ttl ctx (d, c) e = (r, w')"
  shows "same_tbl g rows ctx d (fst w')"
  by (rule cache_aside_db [OF assms(2) [unfolded CachingUserRepository_GetByUsername_def]])
     (use assms(1) impl.GetByUsername [OF assms(1)] in \<open>auto simp: same_tbl_def\<close>)

lemma caching_List_db:
  assumes "db_inv g rows d" "CachingUserRepository_List (NewUserRepository g) ctx (d, c) off lim = (r, w')"
  shows "same_tbl g rows ctx d (fst w')"
  using assms impl.List [OF assms(1)] by (auto simp: CachingUserRepository_List_def same_tbl_def split: prod.splits)

lemma same_tbl_trans: "same_tbl g rows ctx d d1 \<Longrightarrow> same_tbl g rows ctx d1 d2 \<Longrightarrow> same_tbl g rows ctx d d2"
  by (simp add: same_tbl_def)

lemma caching_Delete_db:
  assumes inv: "db_inv g rows d" and res: "CachingUserRepository_Delete (NewUserRepository g) R ttl ctx (d, c) i = (r, w')"
  shows "db_inv g rows (fst w') \<and>
         (db_tbl rows ctx (fst w') = db_tbl rows ctx d \<or> db_tbl rows ctx (fst w') = (db_tbl rows ctx d)(i := None))"
proof -
  obtain r1 d1 where g: "UserRepositoryImpl_GetByID g ctx d i = (r1, d1)" by force
  note G = impl.GetByID [OF inv, where r = r1, unfolded NewUserRepository_simps, OF g]
  obtain r2 d2 where del: "UserRepositoryImpl_Delete g ctx d1 i = (r2, d2)" by force
  from G have "db_inv g rows d1" by simp
  note D = impl_Delete [OF this del]
  have "fst w' = d2" using res g del by (auto simp: CachingUserRepository_Delete_def Let_def split: option.splits)
  with D G show ?thesis by (auto split: option.splits)
qed

lemma CheckAvailability_db:
  assumes inv: "db_inv g rows d"
    and res: "userServiceImpl_CheckAvailability B \<lparr>us_userRepo = NewCachingUserRepository (NewUserRepository g) R ttl\<rparr> ctx
                ((d, c), fl) email username = (r, ((d', c'), fl'))"
  shows "same_tbl g rows ctx d d' \<and> fl' = fl"
proof -
  have refl: "same_tbl g rows ctx d d" using inv by (simp add: same_tbl_def)
  have email: "same_tbl g rows ctx d d1"
    if "CachingUserRepository_GetByEmail (NewUserRepository g) R ttl ctx (d, c) email = (x, (d1, c1))" for x d1 c1
    using caching_GetByEmail_db [OF inv that] by simp
  have user: "same_tbl g rows ctx d d2"
    if "same_tbl g rows ctx d d1" "CachingUserRepository_GetByUsername (NewUserRepository g) R ttl ctx (d1, c1) username = (x, (d2, c2))"
    for x d1 c1 d2 c2
    using that caching_GetByUsername_db [OF _ that(2)] by (auto simp: same_tbl_def)
  let ?r = "userServiceImpl_CheckAvailability B \<lparr>us_userRepo = NewCachingUserRepository (NewUserRepository g) R ttl\<rparr> ctx
                ((d, c), fl) email username"
  have "same_tbl g rows ctx d (fst (fst (snd ?r))) \<and> snd (snd ?r) = fl"
    unfolding userServiceImpl_CheckAvailability_def
    by (auto split: prod.split sum.split dest: email user [OF refl] user [OF email] intro: refl)
  with res show ?thesis by simp
qed

lemma deps_UserSvc_eq:
  "deps_UserSvc W cfg = \<lparr>us_userRepo = NewCachingUserRepository (NewUserRepository (wl_gorm W)) (wl_redis W) (cfg_CacheTTL cfg)\<rparr>"
  by (simp add: deps_UserSvc_def)

lemma registered_role: "registered P salt req row \<Longrightarrow> usr_Role row = RoleUser"
  by (simp add: registered_def)

lemma table_effect_update:
  "m i = Some old \<Longrightarrow> table_effect (OpUpdate i) m (m(i \<mapsto> (apply_profile upd old)\<lparr>usr_UpdatedAt := t\<rparr>))"
  unfolding table_effect_def op.case 
  by (intro exI [of _ old] exI [of _ "(apply_profile upd old)\<lparr>usr_UpdatedAt := t\<rparr>"]) simp

lemma core_step_table:
  assumes "core_step W cfg op v v'" and inv: "core_inv W rows v" and L: "libs_ok W sig"
  shows "core_inv W rows v' \<and> (core_tbl rows v' = core_tbl rows v \<or> table_effect op (core_tbl rows v) (core_tbl rows v'))"
  using assms(1)
proof cases
  case (Register E req r s)
  from L have J: "jwt_ok (lib_jwt (wl_libs W)) sig" and P: "bcrypt_ok (lib_bcrypt (wl_libs W))" by (simp_all add: libs_ok_def)
  obtain d f where s: "s = (d, f)" by force
  from impl.Register_spec [OF inv deps_AuthService_repo J P Register(3) [unfolded s]] Register(1,2) s show ?thesis
    by (auto simp: table_effect_def dest: registered_role split: sum.splits)
next
  case (Login E lreq r s)
  from L have J: "jwt_ok (lib_jwt (wl_libs W)) sig" by (simp add: libs_ok_def)
  obtain d f where s: "s = (d, f)" by force
  from impl.Login_spec [OF inv deps_AuthService_repo J Login(3) [unfolded s]] Login(2) s show ?thesis by simp
next
  case (Refresh E tok r s)
  from L have J: "jwt_ok (lib_jwt (wl_libs W)) sig" by (simp add: libs_ok_def)
  obtain d f where s: "s = (d, f)" by force
  from impl.RefreshToken_spec [OF inv deps_AuthService_repo J Refresh(3) [unfolded s]] Refresh(2) s show ?thesis by simp
next
  case (Profile i pr s)
  obtain d f where s: "s = (d, f)" by force
  from impl.GetProfile_spec [OF inv deps_AuthService_repo Profile(3) [unfolded s]] Profile(2) s show ?thesis by simp
next
  case (Update i upd pr s)
  obtain d f where s: "s = (d, f)" by force
  from impl.UpdateProfile_spec [OF inv deps_AuthService_repo Update(3) [unfolded s]] Update(1,2) s show ?thesis
    by (auto split: sum.splits intro!: table_effect_update)
next
  case (Check email username cr d c f)
  from CheckAvailability_db [OF inv Check(3) [unfolded deps_UserSvc_eq]] Check(2) show ?thesis by (simp add: same_tbl_def)
next
  case (ListUsers off lim us d c)
  then obtain r where "CachingUserRepository_List (NewUserRepository (wl_gorm W)) background (co_db v, co_redis v) off lim = (r, (d, c))"
    by (auto simp: userServiceImpl_List_def deps_UserSvc_eq split: prod.splits sum.splits)
  from caching_List_db [OF inv this] ListUsers(2) show ?thesis by (simp add: same_tbl_def)
next
  case (DeleteUser i dr d c)
  then obtain r where "CachingUserRepository_Delete (NewUserRepository (wl_gorm W)) (wl_redis W) (cfg_CacheTTL cfg) background
      (co_db v, co_redis v) i = (r, (d, c))"
    by (auto simp: userServiceImpl_Delete_def deps_UserSvc_eq split: prod.splits option.splits if_splits)
  from caching_Delete_db [OF inv this] DeleteUser(1,2) show ?thesis by (auto simp: table_effect_def)
qed (use inv in simp_all)

section \<open>Properties\<close>

text \<open>
  C2. The server refines the transition system of its services: handling an HTTP request or a gRPC call
  leaves the data as it is, or takes exactly one step of a service, one the request is allowed to take
  (\<open>permitted\<close>: an update only of the token's own user, a deletion and a listing only with an
  administrator's token, a profile, a conversion or a publication only with a token; over gRPC only
  steps that neither update nor delete).
\<close>

theorem server_refines:
  assumes "gin_ok gin" and "plain req"
  shows "ss_core (handle fmt scan W Obs gin cfg req w) = ss_core w \<or>
         (\<exists>op. core_step W cfg op (ss_core w) (ss_core (handle fmt scan W Obs gin cfg req w)) \<and> allowed W cfg req op)"
  by (rule handle_stepped [OF assms])

text \<open>
  C3. Who may change what. Serving a request changes the users table in one of three ways only: a new
  row with the role \<^verbatim>\<open>user\<close> is added; the row of the user whose valid token the request carries is
  changed, its role and password hash excepted; or, if that token has the role \<^verbatim>\<open>admin\<close>, the row the
  path names is deleted.
\<close>

theorem authorised_changes:
  assumes "core_inv W rows (ss_core w)" and "libs_ok W sig" and "gin_ok gin" and "gc_Context c = background"
    and "serve W Obs gin cfg rq (w, c) = (w', c')"
  defines "m \<equiv> core_tbl rows (ss_core w)" and "m' \<equiv> core_tbl rows (ss_core w')" and "cl \<equiv> claims_of W cfg rq c"
  shows "core_inv W rows (ss_core w') \<and>
    (m' = m \<or>
     (\<exists>row. usr_Role row = RoleUser \<and> m (usr_ID row) = None \<and> m' = m(usr_ID row \<mapsto> row)) \<or>
     (\<exists>k old row. cl = Some k \<and> m (cl_UserID k) = Some old \<and> m' = m(cl_UserID k \<mapsto> row) \<and>
        usr_Role row = usr_Role old \<and> usr_Password row = usr_Password old) \<or>
     (\<exists>k i. cl = Some k \<and> cl_Role k = ''admin'' \<and> Sscanf_d (gc_Param_id c) = Some i \<and> m' = m(i := None)))"
proof (cases "ss_core w' = ss_core w")
  case True
  then show ?thesis using assms(1) by (simp add: m_def m'_def)
next
  case False
  with serve_stepped [OF assms(3,4), of W Obs cfg rq w] assms(5)
  obtain op where "core_step W cfg op (ss_core w) (ss_core w')" and p: "permitted cl c op"
    by (auto simp: stepped_def cl_def)
  from core_step_table [OF this(1) assms(1,2)] have inv: "core_inv W rows (ss_core w')"
    and eff: "m' = m \<or> table_effect op m m'" by (auto simp: m_def m'_def)
  show ?thesis
    using inv eff p by (cases op) (auto simp: table_effect_def permitted_def)
qed

text \<open>Registering the user of the examples, over HTTP.\<close>

definition reg_ctx :: gin_ctx where
  "reg_ctx = (mem_ctx ''alice'')\<lparr>gc_Method := ''POST'', gc_FullPath := ''/api/v1/auth/register''\<rparr>"

lemma reg_ctx_simps [simp]:
  "gc_Context reg_ctx = background" "gc_Body reg_ctx = ''alice''" "gc_Header reg_ctx k = []"
  by (simp_all add: reg_ctx_def mem_ctx_def)

lemma mem_world_simps [simp]:
  "wl_libs mem_world = mem_libs" "wl_gorm mem_world = mem_gorm" "wl_redis mem_world = mem_redis"
  "wl_binders mem_world = mem_binders" "wl_rate mem_world = mem_rate"
  by (simp_all add: mem_world_def)

lemma mem_libs_ok: "libs_ok mem_world sig_mem"
  by (simp add: libs_ok_def mem_jwt_ok mem_bcrypt_ok mem_bloom_ok)

lemma mem_state_simps [simp]:
  "co_db (ss_core mem_state) = empty_db" "co_redis (ss_core mem_state) = []" "co_filter (ss_core mem_state) = \<lparr>f_bf = []\<rparr>"
  by (simp_all add: mem_state_def)

lemma reg_serve:
  "co_db (ss_core (fst (serve mem_world mem_obs mem_gin cfg mem_rq (mem_state, reg_ctx)))) = alice_db"
proof -
  let ?svc = "deps_AuthService mem_world cfg"
  obtain resp f where reg: "authService_Register mem_libs ?svc mem_env background (empty_db, Some \<lparr>f_bf = []\<rparr>) alice_reg =
      (Inr resp, (alice_db, f))"
    using alice_Register_any [of ?svc mem_env "Some \<lparr>f_bf = []\<rparr>"] by auto
  obtain rl where rl: "RateLimiter_allow mem_rate (env_now mem_env) (NewRateLimiter 1 1) (gc_ClientIP reg_ctx) = (True, rl)"
    using mem_limit by blast
  have hs: "route_handlers mem_gin (routes mem_world mem_gin cfg mem_rq) reg_ctx =
      [authLimit mem_world mem_rq, final (on_auth (AuthHandler_Register mem_binders mem_libs ?svc mem_env))]"
    by (simp add: route_handlers_def routes_def reg_ctx_def Let_def mem_rq_def)
  have lim: "authLimit mem_world mem_rq k (mem_state, c) = k (mem_state\<lparr>ss_authLimiter := rl\<rparr>, c)"
    if "gc_ClientIP c = gc_ClientIP reg_ctx" for k c
    using rl that by (simp add: authLimit_def RateLimiter_Limit_def mem_rq_def) (simp add: mem_state_def)
  have run: "co_db (ss_core (fst (run_chain (route_handlers mem_gin (routes mem_world mem_gin cfg mem_rq) reg_ctx)
      (mem_state, prepared out i reg_ctx)))) = alice_db" for out i
    unfolding hs by (simp add: lim on_auth_core AuthHandler_Register_def reg)
  then show ?thesis
    using run [of "[(RequestIDHeader, ''u'')]" "''u''"]
    by (simp add: serve_def globals_def corsMiddleware_def mem_gin_simps RequestID_def Metrics_def RequestLogger_def Let_def split_beta
        mem_rq_uuid gin_SetHeader_def gin_Set_def prepared_def) (simp add: reg_ctx_def mem_ctx_def)
qed

theorem server_refines_witness:
  "\<exists>cfg op w'. handle (\<lambda>_. []) (\<lambda>_. None) mem_world mem_obs mem_gin cfg (Http mem_rq reg_ctx) mem_state = w' \<and>
     co_db (ss_core w') = alice_db \<and> core_step mem_world cfg op (ss_core mem_state) (ss_core w')"
proof -
  obtain cfg :: Config where True by blast
  let ?w = "handle (\<lambda>_. []) (\<lambda>_. None) mem_world mem_obs mem_gin cfg (Http mem_rq reg_ctx) mem_state"
  have db: "co_db (ss_core ?w) = alice_db" using reg_serve [of cfg] by (simp add: handle_def)
  have "empty_db DB \<noteq> alice_db DB" by (simp add: alice_db_def empty_db_def)
  then have "empty_db \<noteq> alice_db" by metis
  with db have "ss_core ?w \<noteq> ss_core mem_state" by (metis mem_state_simps(1))
  with server_refines [OF mem_gin_ok, of "Http mem_rq reg_ctx" "\<lambda>_. []" "\<lambda>_. None" mem_world mem_obs cfg mem_state] db
  show ?thesis by (auto simp: plain_def)
qed

theorem authorised_changes_witness:
  "\<exists>cfg w' c' row. serve mem_world mem_obs mem_gin cfg mem_rq (mem_state, reg_ctx) = (w', c') \<and>
     core_tbl mem_rows (ss_core mem_state) = Map.empty \<and>
     core_tbl mem_rows (ss_core w') = [usr_ID row \<mapsto> row] \<and> usr_Role row = RoleUser"
proof -
  obtain cfg :: Config where True by blast
  obtain w' c' where res: "serve mem_world mem_obs mem_gin cfg mem_rq (mem_state, reg_ctx) = (w', c')" by (metis surj_pair)
  with reg_serve [of cfg] have db: "co_db (ss_core w') = alice_db" by simp
  have inv: "core_inv mem_world mem_rows (ss_core mem_state)" by (simp add: empty_db_inv)
  have "tab [alice] \<noteq> Map.empty" by (simp add: tab_Cons)
  with authorised_changes [OF inv mem_libs_ok mem_gin_ok _ res] db
  obtain row where "tab [alice] = [usr_ID row \<mapsto> row]" "usr_Role row = RoleUser" by (auto simp: alice_tbl)
  with res db show ?thesis
    by (intro exI [of _ cfg] exI [of _ w'] exI [of _ c'] exI [of _ row]) (simp add: alice_tbl)
qed

text \<open>The accounts with more than the default role.\<close>

definition privileged :: "table \<Rightarrow> int64 set" where
  "privileged m = {i. \<exists>u. m i = Some u \<and> usr_Role u \<noteq> RoleUser}"

lemma table_effect_privileged: "table_effect op m m' \<Longrightarrow> privileged m' \<subseteq> privileged m"
  by (cases op) (auto simp: table_effect_def privileged_def split: if_splits)

text \<open>
  C4. No run makes an administrator: after any sequence of HTTP requests and gRPC calls, an account with
  a role other than \<^verbatim>\<open>user\<close> had one before the first of them.
\<close>

theorem no_new_admins:
  assumes "core_inv W rows (ss_core w)" and "libs_ok W sig" and "gin_ok gin" and "\<forall>req \<in> set reqs. plain req"
  shows "privileged (core_tbl rows (ss_core (fold (handle fmt scan W Obs gin cfg) reqs w))) \<subseteq> privileged (core_tbl rows (ss_core w))"
proof -
  let ?I = "\<lambda>v. core_inv W rows v \<and> privileged (core_tbl rows v) \<subseteq> privileged (core_tbl rows (ss_core w))"
  have step: "?I v'" if "core_step W cfg op v v'" "?I v" for op v v'
    using core_step_table [OF that(1) _ assms(2)] that(2) table_effect_privileged by (metis subset_trans)
  have "?I (ss_core (fold (handle fmt scan W Obs gin cfg) reqs w))"
    by (rule run_invariant [OF assms(3), where ok = "\<lambda>_. True"]) (use step assms(1,4) in auto)
  then show ?thesis by simp
qed

theorem no_new_admins_witness:
  "\<exists>cfg w'. w' = fold (handle (\<lambda>_. []) (\<lambda>_. None) mem_world mem_obs mem_gin cfg) [Http mem_rq reg_ctx, Grpc RpcLogout] mem_state \<and>
     core_tbl mem_rows (ss_core w') = tab [alice] \<and> privileged (core_tbl mem_rows (ss_core w')) = {}"
proof -
  obtain cfg :: Config where True by blast
  let ?w = "fold (handle (\<lambda>_. []) (\<lambda>_. None) mem_world mem_obs mem_gin cfg) [Http mem_rq reg_ctx, Grpc RpcLogout] mem_state"
  have inv: "core_inv mem_world mem_rows (ss_core mem_state)" by (simp add: empty_db_inv)
  have "privileged (core_tbl mem_rows (ss_core mem_state)) = {}" by (simp add: alice_tbl privileged_def)
  with no_new_admins [OF inv mem_libs_ok mem_gin_ok, of "[Http mem_rq reg_ctx, Grpc RpcLogout]" "\<lambda>_. []" "\<lambda>_. None" mem_obs cfg]
  have "privileged (core_tbl mem_rows (ss_core ?w)) = {}" by (simp add: plain_def)
  moreover have "core_tbl mem_rows (ss_core ?w) = tab [alice]"
    using reg_serve [of cfg] by (simp add: handle_def grpc_call_def AuthGRPCHandler_Logout_def Let_def alice_tbl)
  ultimately show ?thesis by blast
qed

section \<open>The filter and the cache along a run\<close>

definition acct_inv ::
    "('d, 'c, 'b, 'x, 'k, 'l) world_libs \<Rightarrow> 'd rows \<Rightarrow> 'c kv \<Rightarrow> ('d, 'c, 'b, 'x, 'k) core \<Rightarrow> bool" where
  "acct_inv W rows kv v \<longleftrightarrow>
     cache_inv (db_inv (wl_gorm W) rows) (db_tbl rows background) (wl_redis W) kv (co_db v, co_redis v) \<and>
     covers (lib_bloom (wl_libs W)) (co_filter v) (core_tbl rows v)"

text \<open>The rates share Redis with the users, under other keys.\<close>

lemma rates_key: "entry_ok m (''exchange:rates:'' @ b) u"
  by (simp add: entry_ok_def userIDCacheKey_def userEmailCacheKey_def userUsernameCacheKey_def)

lemma rates_get_coherent:
  assumes "redis_ok R kv" "coherent m (may_user kv c)" "RedisCache_Get R dec c k = (r, c')"
  shows "coherent m (may_user kv c')"
  using coherent_mono [OF assms(2)] may_read_mono [OF RedisCache_Get_may(2) [OF assms(1,3)]] by blast

lemma rates_set_coherent:
  assumes "redis_ok R kv" "coherent m (may_user kv c)"
  shows "coherent m (may_user kv (snd (RedisCache_Set R enc c (ratesCacheKey uni B) rs ttl)))"
  unfolding coherent_def
proof (intro allI impI)
  fix k u assume *: "may_user kv (snd (RedisCache_Set R enc c (ratesCacheKey uni B) rs ttl)) k u"
  show "entry_ok m k u"
  proof (cases "k = ratesCacheKey uni B")
    case False
    from RedisCache_Set_other [OF assms(1) this *] assms(2) show ?thesis by (simp add: coherent_def)
  qed (use rates_key in \<open>simp add: ratesCacheKey_def\<close>)
qed

lemma rates_keep_coherent:
  assumes R: "redis_ok R kv" and coh: "coherent m (may_user kv c)"
    and res: "CachedHTTPClient_GetRates uni X R ttl (x, c) B = (r, (x', c'))"
  shows "coherent m (may_user kv c')"
proof -
  obtain g c1 where g: "RedisCache_Get R dec_float_map c (ratesCacheKey uni B) = (g, c1)" by force
  note c1 = rates_get_coherent [OF R coh g]
  from res g c1 rates_set_coherent [OF R c1] show ?thesis
    by (auto simp: CachedHTTPClient_GetRates_def split: sum.splits prod.splits)
qed

lemma acct_inv_rates:
  assumes "acct_inv W rows kv v"
    and "deps_ExchangeClient W cfg (co_api v, co_redis v) B = (r, (x, c))"
  shows "acct_inv W rows kv (v\<lparr>co_api := x, co_redis := c\<rparr>)"
  using assms rates_keep_coherent [OF _ _ assms(2) [unfolded deps_ExchangeClient_def]]
  by (auto simp: acct_inv_def cache_inv_def)

lemma acct_inv_read:
  assumes "acct_inv W rows kv v" "db_inv (wl_gorm W) rows d" "db_tbl rows background d = core_tbl rows v"
  shows "acct_inv W rows kv (with_auth v (d, Some (co_filter v)))"
  using assms by (simp add: acct_inv_def cache_inv_def with_auth_def)

lemma core_step_acct:
  assumes "core_step W cfg op v v'" and inv: "acct_inv W rows kv v" and L: "libs_ok W sig"
    and "\<And>i. op \<noteq> OpUpdate i" "\<And>i. op \<noteq> OpDelete i"
  shows "acct_inv W rows kv v'"
proof -
  from L have J: "jwt_ok (lib_jwt (wl_libs W)) sig" and P: "bcrypt_ok (lib_bcrypt (wl_libs W))"
    and B: "bloom_ok (lib_bloom (wl_libs W))" by (simp_all add: libs_ok_def)
  have db: "db_inv (wl_gorm W) rows (co_db v)"
    and cinv: "cache_inv (db_inv (wl_gorm W) rows) (db_tbl rows background) (wl_redis W) kv (co_db v, co_redis v)"
    and cov: "covers (lib_bloom (wl_libs W)) (co_filter v) (core_tbl rows v)"
    using inv by (simp_all add: acct_inv_def cache_inv_def)
  from assms(1) show ?thesis
  proof cases
    case (Register E req r s)
    obtain d f where s: "s = (d, f)" by force
    note S = impl.Register_spec [OF db deps_AuthService_repo J P Register(3) [unfolded s]]
    show ?thesis
    proof (cases r)
      case (Inl e)
      with S Register(2) s acct_inv_read [OF inv] show ?thesis by auto
    next
      case (Inr resp)
      with S obtain row where "registered (lib_bcrypt (wl_libs W)) (env_salt E) req row"
        and fresh: "core_tbl rows v (usr_ID row) = None"
        and tbl: "db_tbl rows background d = (core_tbl rows v)(usr_ID row \<mapsto> row)"
        and f: "f = filter_add_user (lib_bloom (wl_libs W)) (Some (co_filter v)) (reg_Email req) (reg_Username req)"
        and d: "db_inv (wl_gorm W) rows d" by auto
      then have "usr_Email row = reg_Email req" "usr_Username row = reg_Username req" by (simp_all add: registered_def)
      with covers_add [OF B cov fresh, of row] coherent_add [where m = "core_tbl rows v" and i = "usr_ID row"] fresh cinv d tbl f Register(2) s show ?thesis
        by (simp add: acct_inv_def cache_inv_def with_auth_def filter_add_user_def)
    qed
  next
    case (Login E lreq r s)
    obtain d f where s: "s = (d, f)" by force
    from impl.Login_spec [OF db deps_AuthService_repo J Login(3) [unfolded s]] Login(2) s acct_inv_read [OF inv] show ?thesis by simp
  next
    case (Refresh E tok r s)
    obtain d f where s: "s = (d, f)" by force
    from impl.RefreshToken_spec [OF db deps_AuthService_repo J Refresh(3) [unfolded s]] Refresh(2) s acct_inv_read [OF inv]
    show ?thesis by simp
  next
    case (Profile i pr s)
    obtain d f where s: "s = (d, f)" by force
    from impl.GetProfile_spec [OF db deps_AuthService_repo Profile(3) [unfolded s]] Profile(2) s acct_inv_read [OF inv]
    show ?thesis by simp
  next
    case (Check email username cr d c f)
    from impl.caching.CheckAvailability_spec [OF cinv, of "deps_UserSvc W cfg"] cov Check show ?thesis
      by (fastforce simp: acct_inv_def deps_UserSvc_def)
  next
    case (ListUsers off lim us d c)
    then obtain r where "CachingUserRepository_List (NewUserRepository (wl_gorm W)) background (co_db v, co_redis v) off lim = (r, (d, c))"
      by (auto simp: userServiceImpl_List_def deps_UserSvc_eq split: prod.splits sum.splits)
    from impl.caching_List [OF cinv this] cov ListUsers(2) show ?thesis by (simp add: acct_inv_def)
  next
    case (Convert creq xr x c)
    then obtain r where "deps_ExchangeClient W cfg (co_api v, co_redis v) (ToUpper (wl_uni W) (conv_From creq)) = (r, (x, c))"
      by (auto simp: exchangeServiceImpl_Convert_def Let_def split: prod.splits sum.splits option.splits)
    from acct_inv_rates [OF inv this] Convert(2) show ?thesis by simp
  next
    case (Rates base rr x c)
    from acct_inv_rates [OF inv Rates(3) [unfolded exchangeServiceImpl_GetRates_def]] Rates(2) show ?thesis by simp
  qed (use assms(4,5) inv in \<open>simp_all add: acct_inv_def\<close>)
qed

text \<open>Requests that neither update a profile nor delete a user.\<close>

definition keeps_ids :: "request \<Rightarrow> bool" where
  "keeps_ids req = (case req of Http rq c \<Rightarrow> gc_Method c \<notin> {''PUT'', ''DELETE''} | Grpc rpc \<Rightarrow> True)"

lemma keeps_ids_allowed: "keeps_ids req \<Longrightarrow> allowed W cfg req op \<Longrightarrow> op \<noteq> OpUpdate i \<and> op \<noteq> OpDelete i"
  by (auto simp: keeps_ids_def allowed_def permitted_def harmless_def split: request.splits)

lemma run_acct:
  assumes "acct_inv W rows kv (ss_core w)" "libs_ok W sig" "gin_ok gin" "\<forall>req \<in> set reqs. plain req \<and> keeps_ids req"
  shows "acct_inv W rows kv (ss_core (fold (handle fmt scan W Obs gin cfg) reqs w))"
  by (rule run_invariant [OF assms(3), where ok = keeps_ids])
     (use core_step_acct [OF _ _ assms(2)] keeps_ids_allowed assms(1,4) in blast)+

text \<open>With the invariant, the availability check is exact.\<close>

lemma acct_inv_check:
  assumes v: "acct_inv W rows kv v"
    and res: "userServiceImpl_CheckAvailability (lib_bloom (wl_libs W)) (deps_UserSvc W cfg) background
           ((co_db v, co_redis v), co_filter v) email username = (r, s')"
  shows "case r of
           Inr (emailAvail, usernameAvail) \<Rightarrow>
             emailAvail = (email = [] \<or> \<not> email_taken (core_tbl rows v) email) \<and>
             usernameAvail = (username = [] \<or> \<not> username_taken (core_tbl rows v) username)
         | Inl e \<Rightarrow> lib_error e"
proof -
  obtain d' c' f' where s': "s' = ((d', c'), f')" by (metis surj_pair)
  from v have inv: "cache_inv (db_inv (wl_gorm W) rows) (db_tbl rows background) (wl_redis W) kv (co_db v, co_redis v)"
    and cov: "covers (lib_bloom (wl_libs W)) (co_filter v) (db_tbl rows background (fst (co_db v, co_redis v)))"
    by (simp_all add: acct_inv_def)
  have "us_userRepo (deps_UserSvc W cfg) = NewCachingUserRepository (NewUserRepository (wl_gorm W)) (wl_redis W) (cfg_CacheTTL cfg)"
    by (simp add: deps_UserSvc_def)
  from impl.caching.CheckAvailability_spec [OF inv this cov res [unfolded s']] show ?thesis by (simp only: fst_conv)
qed

text \<open>Seeding the filter at start-up.\<close>

lemma seed_filter_covers:
  assumes B: "bloom_ok B" and inv: "db_inv g rows d" and seed: "seed_filter B (NewUserRepository g) d = (fl, d')"
  shows "db_inv g rows d' \<and> rows d' = rows d \<and>
         (is_ok (fst (UserRepositoryImpl_AllEmailsAndUsernames g background d)) \<longrightarrow> covers B fl (db_tbl rows background d))"
proof -
  from inv have ok: "gorm_ok g rows" "db_wf rows d" by (simp_all add: db_inv_def)
  obtain r0 d0 where q: "gorm_Select_Scan g DB d ''email, username'' = (r0, d0)" by force
  note S = gorm_Select_Scan_D [OF ok q]
  show ?thesis
  proof (cases r0)
    case (Inl e)
    with q have "UserRepositoryImpl_AllEmailsAndUsernames g background d = (Inl (Errorf ''fetch all emails and usernames: '' e []), d0)"
      by (simp add: UserRepositoryImpl_AllEmailsAndUsernames_def)
    with seed S ok show ?thesis by (auto simp: seed_filter_def Let_def db_inv_def db_wf_def is_ok_def)
  next
    case (Inr ps)
    with q have a: "UserRepositoryImpl_AllEmailsAndUsernames g background d = (Inr (map fst ps, map snd ps), d0)"
      by (simp add: UserRepositoryImpl_AllEmailsAndUsernames_def)
    have "covers B fl (rows d DB)"
    proof -
      have fl: "fl = foldl (\<lambda>f u. Filter_Add B f (''username:'' @ u))
          (foldl (\<lambda>f e. Filter_Add B f (''email:'' @ e)) (bloom_New B 1000000 fpRate) (map fst ps)) (map snd ps)"
        using seed a by (simp add: seed_filter_def Let_def)
      show ?thesis unfolding fl
        by (rule covers_foldl [OF B]) (use S(2) [OF Inr] in \<open>force simp: image_iff\<close>)
    qed
    with seed a S ok show ?thesis by (auto simp: seed_filter_def Let_def db_inv_def db_wf_def db_tbl_def)
  qed
qed

text \<open>
  C8. The availability check is exact. The server starts with a filter seeded from the users table and a
  cache coherent with it, and then handles any sequence of requests and calls other than profile
  updates and deletions. A check that returns says "available" of an e-mail or a user name exactly if no row has it
  (an empty one counts as available), whatever the filter's false positives, the cache and Redis do;
  otherwise it fails with the error of a library.
\<close>

theorem availability_exact:
  assumes "libs_ok W sig" and "gin_ok gin" and "redis_ok (wl_redis W) kv"
    and "db_inv (wl_gorm W) rows d"
    and "seed_filter (lib_bloom (wl_libs W)) (NewUserRepository (wl_gorm W)) d = (co_filter (ss_core w), co_db (ss_core w))"
    and "is_ok (fst (UserRepositoryImpl_AllEmailsAndUsernames (wl_gorm W) background d))"
    and "coherent (db_tbl rows background d) (may_user kv (co_redis (ss_core w)))"
    and "\<forall>req \<in> set reqs. plain req \<and> keeps_ids req"
    and "v = ss_core (fold (handle fmt scan W Obs gin cfg) reqs w)"
    and "userServiceImpl_CheckAvailability (lib_bloom (wl_libs W)) (deps_UserSvc W cfg) background
           ((co_db v, co_redis v), co_filter v) email username = (r, s')"
  shows "case r of
           Inr (emailAvail, usernameAvail) \<Rightarrow>
             emailAvail = (email = [] \<or> \<not> email_taken (core_tbl rows v) email) \<and>
             usernameAvail = (username = [] \<or> \<not> username_taken (core_tbl rows v) username)
         | Inl e \<Rightarrow> lib_error e"
proof -
  from assms(1) have B: "bloom_ok (lib_bloom (wl_libs W))" by (simp add: libs_ok_def)
  note S = seed_filter_covers [OF B assms(4,5)]
  have "acct_inv W rows kv (ss_core w)"
    using S assms(3,6,7) by (simp add: acct_inv_def cache_inv_def db_tbl_def)
  from run_acct [OF this assms(1,2,8), of fmt scan Obs cfg] have v: "acct_inv W rows kv v" unfolding assms(9) .
  show ?thesis by (rule acct_inv_check [OF v assms(10)])
qed

lemma mem_seed: "seed_filter mem_bloom (NewUserRepository mem_gorm) empty_db = (\<lparr>f_bf = []\<rparr>, empty_db)"
  by (simp add: seed_filter_def UserRepositoryImpl_AllEmailsAndUsernames_def empty_db_def live_def bloom_New_def mem_bloom_def)

theorem availability_exact_witness:
  "\<exists>cfg v r s'. v = ss_core (fold (handle (\<lambda>_. []) (\<lambda>_. None) mem_world mem_obs mem_gin cfg) [Http mem_rq reg_ctx] mem_state) \<and>
     userServiceImpl_CheckAvailability mem_bloom (deps_UserSvc mem_world cfg) background
       ((co_db v, co_redis v), co_filter v) ''a@x.io'' ''bob'' = (r, s') \<and>
     (case r of Inr (emailAvail, usernameAvail) \<Rightarrow> \<not> emailAvail \<and> usernameAvail | Inl e \<Rightarrow> lib_error e)"
proof -
  obtain cfg :: Config where True by blast
  define v where "v = ss_core (fold (handle (\<lambda>_. []) (\<lambda>_. None) mem_world mem_obs mem_gin cfg) [Http mem_rq reg_ctx] mem_state)"
  obtain r s' where res: "userServiceImpl_CheckAvailability (lib_bloom (wl_libs mem_world)) (deps_UserSvc mem_world cfg) background
      ((co_db v, co_redis v), co_filter v) ''a@x.io'' ''bob'' = (r, s')" by (metis surj_pair)
  have db: "co_db v = alice_db" using reg_serve [of cfg] by (simp add: v_def handle_def)
  have q: "is_ok (fst (UserRepositoryImpl_AllEmailsAndUsernames (wl_gorm mem_world) background empty_db))"
    by (simp add: UserRepositoryImpl_AllEmailsAndUsernames_def)
  have seed: "seed_filter (lib_bloom (wl_libs mem_world)) (NewUserRepository (wl_gorm mem_world)) empty_db =
      (co_filter (ss_core mem_state), co_db (ss_core mem_state))" by (simp add: mem_seed)
  have m: "gc_Method reg_ctx = ''POST''" by (simp add: reg_ctx_def)
  have taken: "email_taken (tab [alice]) ''a@x.io''" "\<not> username_taken (tab [alice]) ''bob''"
    by (simp_all add: email_taken_def username_taken_def tab_Cons tab_Nil) (simp_all add: alice_def)
  have "case r of Inr (ea, ua) \<Rightarrow> ea = (''a@x.io'' = [] \<or> \<not> email_taken (core_tbl mem_rows v) ''a@x.io'') \<and>
            ua = (''bob'' = [] \<or> \<not> username_taken (core_tbl mem_rows v) ''bob'') | Inl e \<Rightarrow> lib_error e"
    by (rule availability_exact [OF mem_libs_ok mem_gin_ok _ _ seed q _ _ v_def res, of map_of])
       (simp_all add: mem_redis_ok empty_db_inv m coherent_def may_read_def plain_def keeps_ids_def)
  then have "case r of Inr (ea, ua) \<Rightarrow> \<not> ea \<and> ua | Inl e \<Rightarrow> lib_error e"
    using taken by (simp add: db alice_tbl split: sum.splits prod.splits)
  with res show ?thesis by (intro exI [of _ cfg] exI [of _ v] exI [of _ r] exI [of _ s']) (simp add: v_def)
qed

text \<open>
  C38. Why profile updates are excluded there: an update does not add the new e-mail to the filter. After
  an update to an e-mail the filter does not know, the availability check reports that e-mail as available
  although a row has it, without asking the database.
\<close>

theorem availability_after_update:
  assumes "db_inv g rows d" and "as_userRepo svc = NewUserRepository g"
    and "authService_UpdateProfile svc ctx (d, Some fl) i req = (Inr u, (d', f'))"
    and "upd_Email req \<noteq> []" and "\<not> Filter_Contains B fl (''email:'' @ upd_Email req)"
  shows "email_taken (db_tbl rows ctx d') (upd_Email req) \<and> f' = Some fl \<and>
         userServiceImpl_CheckAvailability B usvc ctx ((d', c), fl) (upd_Email req) [] = (Inr (True, True), ((d', c), fl))"
proof -
  from impl.UpdateProfile_spec [OF assms(1-3)] obtain old t where
    t: "db_tbl rows ctx d' = (db_tbl rows ctx d)(i \<mapsto> (apply_profile req old)\<lparr>usr_UpdatedAt := t\<rparr>)" and f: "f' = Some fl"
    by auto
  have "usr_Email (apply_profile req old) = upd_Email req" using assms(4) by (simp add: apply_profile_def Let_def)
  then have "email_taken (db_tbl rows ctx d') (upd_Email req)"
    unfolding email_taken_def t by (intro bexI [of _ "(apply_profile req old)\<lparr>usr_UpdatedAt := t\<rparr>"]) (auto simp: ran_def)
  with f assms(4,5) show ?thesis by (simp add: userServiceImpl_CheckAvailability_def)
qed

definition new_mail :: UpdateProfileRequest where
  "new_mail = \<lparr>upd_Name = [], upd_Email = ''b@x.io'', upd_Username = []\<rparr>"

lemma new_mail_Update:
  "\<exists>d'. UserRepositoryImpl_Update mem_gorm background alice_db (alice\<lparr>usr_Email := ''b@x.io''\<rparr>) =
     ((None, alice\<lparr>usr_Email := ''b@x.io''\<rparr>), d')"
proof -
  let ?b = "alice\<lparr>usr_Email := ''b@x.io''\<rparr>"
  have n: "update_row [(''name'', usr_Name ?b), (''email'', usr_Email ?b), (''username'', usr_Username ?b)] x = x\<lparr>usr_Email := ''b@x.io''\<rparr>"
    if "x = alice \<or> x = ?b" for x using that by (auto simp: update_row_def)
  have u: "utf8_User ?b" using utf8_alice by (simp add: utf8_User_def valid_utf8_ascii byte_def)
  show ?thesis
    using n [of alice] n [of ?b] u
    by (simp add: UserRepositoryImpl_Update_def mem_Updates_def alice_db_def tab_Cons tab_Nil live_single clash_def Let_def)
qed

theorem availability_after_update_witness:
  "\<exists>d' u. authService_UpdateProfile mem_svc background (alice_db, Some \<lparr>f_bf = [''email:a@x.io'']\<rparr>) 1 new_mail =
       (Inr u, (d', Some \<lparr>f_bf = [''email:a@x.io'']\<rparr>)) \<and>
     email_taken (db_tbl mem_rows background d') ''b@x.io'' \<and>
     fst (userServiceImpl_CheckAvailability mem_bloom \<lparr>us_userRepo = NewCachingUserRepository (NewUserRepository mem_gorm) mem_redis 0\<rparr>
       background ((d', []), \<lparr>f_bf = [''email:a@x.io'']\<rparr>) ''b@x.io'' []) = Inr (True, True)"
proof -
  let ?fl = "\<lparr>f_bf = [''email:a@x.io'']\<rparr>"
  obtain d' where up: "UserRepositoryImpl_Update mem_gorm background alice_db (alice\<lparr>usr_Email := ''b@x.io''\<rparr>) =
     ((None, alice\<lparr>usr_Email := ''b@x.io''\<rparr>), d')" using new_mail_Update by blast
  have ap: "apply_profile new_mail alice = alice\<lparr>usr_Email := ''b@x.io''\<rparr>" by (simp add: apply_profile_def new_mail_def)
  have res: "authService_UpdateProfile mem_svc background (alice_db, Some ?fl) 1 new_mail =
      (Inr (alice\<lparr>usr_Email := ''b@x.io''\<rparr>), (d', Some ?fl))"
    using up by (simp add: authService_UpdateProfile_def alice_GetByID ap)
  have e: "upd_Email new_mail = ''b@x.io''" by (simp add: new_mail_def)
  have nf: "\<not> Filter_Contains mem_bloom ?fl (''email:'' @ upd_Email new_mail)"
    by (simp add: e Filter_Contains_def mem_bloom_def)
  from availability_after_update [OF alice_db_inv _ res _ nf, of "\<lparr>us_userRepo = NewCachingUserRepository (NewUserRepository mem_gorm) mem_redis 0\<rparr>" "[]"] res
  show ?thesis by (auto simp: e)
qed

end
