(* ===== verification/Threads.thy ===== *)
theory Threads
  imports Prelude
begin

text \<open>
  Calls that run at the same time, as the Go runtime runs them: a thread is a tree of atomic actions on
  the shared state, each of which decides how the thread goes on; a schedule says which thread acts
  next. \<open>alone\<close> runs a thread without interruption, \<open>interleave\<close> runs a list of threads along a
  schedule (a thread that has returned, or that does not exist, is passed over).

  \<open>rg R G Q s t\<close> is a rely-guarantee judgement: as long as the others only do what \<open>R\<close> allows, every
  action of \<open>t\<close> from \<open>s\<close> on does what \<open>G\<close> says, and if \<open>t\<close> has returned, \<open>Q\<close> holds of its result. The
  guarantee also sees the rest of the thread, so that a thread can be held to what it still owes.
\<close>

datatype ('s, 'r) thread = Ret 'r | Act "'s \<Rightarrow> 's \<times> ('s, 'r) thread"

primrec alone :: "('s, 'r) thread \<Rightarrow> 's \<Rightarrow> 'r \<times> 's" where
  "alone (Ret r) = (\<lambda>s. (r, s))"
| "alone (Act f) = (\<lambda>s. case (map_prod id alone \<circ> f) s of (s', k) \<Rightarrow> k s')"

lemma alone_Act [simp]: "alone (Act f) s = alone (snd (f s)) (fst (f s))"
  by (simp add: split_beta)

declare alone.simps(2) [simp del]

primrec returned :: "('s, 'r) thread \<Rightarrow> 'r option" where
  "returned (Ret r) = Some r"
| "returned (Act f) = None"

lemma returned_Some [simp]: "returned t = Some r \<longleftrightarrow> t = Ret r"
  by (cases t) auto

lemma returned_None: "returned t = None \<longleftrightarrow> (\<exists>f. t = Act f)"
  by (cases t) auto

definition advance :: "nat \<Rightarrow> 's \<times> ('s, 'r) thread list \<Rightarrow> 's \<times> ('s, 'r) thread list" where
  "advance i c =
     (case c of (s, ts) \<Rightarrow>
        if i < length ts then
          (case ts ! i of Ret r \<Rightarrow> (s, ts) | Act f \<Rightarrow> (case f s of (s', t) \<Rightarrow> (s', ts[i := t])))
        else (s, ts))"

definition interleave :: "nat list \<Rightarrow> 's \<times> ('s, 'r) thread list \<Rightarrow> 's \<times> ('s, 'r) thread list" where
  "interleave sched c = fold advance sched c"

lemma interleave_simps [simp]:
  "interleave [] c = c" "interleave (i # sched) c = interleave sched (advance i c)"
  by (simp_all add: interleave_def)

lemma advance_cases:
  obtains "advance i (s, ts) = (s, ts)"
  | f where "i < length ts" "ts ! i = Act f" "advance i (s, ts) = (fst (f s), ts[i := snd (f s)])"
  by (cases "i < length ts"; cases "ts ! i") (auto simp: advance_def split_beta)

lemma length_advance [simp]: "length (snd (advance i c)) = length (snd c)"
  by (cases c; cases rule: advance_cases [of i "fst c" "snd c"]) auto

lemma length_interleave [simp]: "length (snd (interleave sched c)) = length (snd c)"
  by (induction sched arbitrary: c) simp_all

text \<open>A result stays.\<close>

lemma advance_Ret: "ts ! i = Ret r \<Longrightarrow> snd (advance j (s, ts)) ! i = Ret r"
  by (cases rule: advance_cases [of j s ts]; cases "j = i") auto

lemma interleave_Ret: "ts ! i = Ret r \<Longrightarrow> snd (interleave sched (s, ts)) ! i = Ret r"
proof (induction sched arbitrary: s ts)
  case (Cons j sched)
  then show ?case using advance_Ret [of ts i r j s] by (cases "advance j (s, ts)") simp
qed simp

text \<open>The threads of a schedule in the order in which they return.\<close>

fun returns :: "nat list \<Rightarrow> 's \<times> ('s, 'r) thread list \<Rightarrow> nat list" where
  "returns [] c = []"
| "returns (i # sched) c =
     (let c' = advance i c
      in if i < length (snd c) \<and> returned (snd c ! i) = None \<and> returned (snd c' ! i) \<noteq> None
         then i # returns sched c' else returns sched c')"

lemma returns_once:
  assumes "interleave sched (s, ts) = (s', ts')"
  shows "distinct (returns sched (s, ts))"
    and "set (returns sched (s, ts)) = {i. i < length ts \<and> returned (ts ! i) = None \<and> returned (ts' ! i) \<noteq> None}"
proof -
  have "distinct (returns sched (s, ts)) \<and>
    set (returns sched (s, ts)) = {i. i < length ts \<and> returned (ts ! i) = None \<and> returned (ts' ! i) \<noteq> None}"
    using assms
  proof (induction sched arbitrary: s ts)
    case (Cons j sched)
    show ?case
    proof (cases rule: advance_cases [of j s ts])
      case 1
      with Cons show ?thesis by (auto simp: Let_def)
    next
      case (2 f)
      let ?ts = "ts[j := snd (f s)]" and ?R = "returns sched (fst (f s), ts[j := snd (f s)])"
      have run: "interleave sched (fst (f s), ?ts) = (s', ts')" using Cons.prems 2(3) by simp
      note IH = Cons.IH [OF run]
      show ?thesis
      proof (cases "snd (f s)")
        case (Ret r)
        with interleave_Ret [of ?ts j r sched "fst (f s)"] run 2(1) have ret: "ts' ! j = Ret r" by simp
        have "returns (j # sched) (s, ts) = j # ?R" using 2 Ret by (simp add: Let_def)
        moreover have "j \<notin> set ?R" using IH 2(1) Ret by simp
        moreover have "i \<in> set (j # ?R) \<longleftrightarrow> i < length ts \<and> returned (ts ! i) = None \<and> returned (ts' ! i) \<noteq> None" for i
          using IH ret 2(1,2) by (cases "i = j") simp_all
        ultimately show ?thesis using IH by (simp add: set_eq_iff)
      next
        case (Act g)
        have "returns (j # sched) (s, ts) = ?R" using 2 Act by (simp add: Let_def)
        moreover have "returned (?ts ! i) = None \<longleftrightarrow> returned (ts ! i) = None" for i
          using Act 2(1,2) by (cases "i = j") simp_all
        ultimately show ?thesis using IH by simp
      qed
    qed
  qed auto
  then show "distinct (returns sched (s, ts))"
    and "set (returns sched (s, ts)) = {i. i < length ts \<and> returned (ts ! i) = None \<and> returned (ts' ! i) \<noteq> None}" by blast+
qed

section \<open>Rely and guarantee\<close>

inductive rg ::
    "('s \<Rightarrow> 's \<Rightarrow> bool) \<Rightarrow> ('s \<Rightarrow> 's \<Rightarrow> ('s, 'r) thread \<Rightarrow> bool) \<Rightarrow> ('r \<Rightarrow> 's \<Rightarrow> bool) \<Rightarrow> 's \<Rightarrow> ('s, 'r) thread \<Rightarrow> bool"
  for R G Q where
  rg_Ret: "(\<And>s'. R s s' \<Longrightarrow> Q r s') \<Longrightarrow> rg R G Q s (Ret r)"
| rg_Act: "(\<And>s'. R s s' \<Longrightarrow> G s' (fst (f s')) (snd (f s')) \<and> rg R G Q (fst (f s')) (snd (f s'))) \<Longrightarrow> rg R G Q s (Act f)"

inductive_simps rg_Ret_iff [simp]: "rg R G Q s (Ret r)"
inductive_simps rg_Act_iff: "rg R G Q s (Act f)"

lemma rg_stable:
  assumes "transp R" "rg R G Q s t" "R s s'"
  shows "rg R G Q s' t"
  using assms(2)
proof cases
  case (rg_Ret r)
  then show ?thesis using assms(1,3) by (auto dest: transpD)
next
  case (rg_Act f)
  then show ?thesis using assms(1,3) by (auto simp: rg_Act_iff dest: transpD)
qed

lemma rg_weaken:
  assumes "rg R G Q s t" "\<And>s s' t. G s s' t \<Longrightarrow> G' s s' t" "\<And>r s. Q r s \<Longrightarrow> Q' r s"
  shows "rg R G' Q' s t"
  using assms(1) by induction (auto simp: rg_Act_iff assms(2,3))

text \<open>
  The rule for a pool of threads, with an invariant of state and threads together. \<open>R\<close> is the rely of
  every thread and what every guarantee gives.
\<close>

definition rely :: "('s \<Rightarrow> 's \<Rightarrow> bool) \<Rightarrow> bool" where
  "rely R \<longleftrightarrow> transp R \<and> (\<forall>s s'. R s s' \<longrightarrow> R s' s')"

lemma interleave_inv:
  assumes R: "rely R" and G: "\<And>s s' t. G s s' t \<Longrightarrow> R s s'"
    and start: "R s s" "\<And>i. i < length ts \<Longrightarrow> rg R G (Q i) s (ts ! i)" "P s ts"
    and step: "\<And>s ts i f. P s ts \<Longrightarrow> R s s \<Longrightarrow> (\<And>j. j < length ts \<Longrightarrow> rg R G (Q j) s (ts ! j)) \<Longrightarrow>
       i < length ts \<Longrightarrow> ts ! i = Act f \<Longrightarrow> G s (fst (f s)) (snd (f s)) \<Longrightarrow> P (fst (f s)) (ts[i := snd (f s)])"
    and run: "interleave sched (s, ts) = (s', ts')"
  shows "R s s' \<and> P s' ts' \<and> (\<forall>i < length ts'. rg R G (Q i) s' (ts' ! i))"
  using start run
proof (induction sched arbitrary: s ts)
  case Nil
  then show ?case by simp
next
  case (Cons i sched)
  show ?case
  proof (cases rule: advance_cases [of i s ts])
    case 1
    with Cons.prems Cons.IH [of s ts] show ?thesis by simp
  next
    case (2 f)
    have i: "G s (fst (f s)) (snd (f s))" "rg R G (Q i) (fst (f s)) (snd (f s))"
      using Cons.prems(2) [OF 2(1)] Cons.prems(1) 2(2) by (simp_all add: rg_Act_iff)
    have r: "R s (fst (f s))" "R (fst (f s)) (fst (f s))" using G [OF i(1)] R by (auto simp: rely_def)
    have "rg R G (Q j) (fst (f s)) (ts[i := snd (f s)] ! j)" if "j < length ts" for j
      using that i(2) rg_stable [OF _ Cons.prems(2) r(1)] R by (cases "j = i") (simp_all add: rely_def 2(1))
    moreover have "P (fst (f s)) (ts[i := snd (f s)])"
      by (rule step [OF Cons.prems(3,1) _ 2(1,2) i(1)]) (rule Cons.prems(2))
    ultimately have "R (fst (f s)) s' \<and> P s' ts' \<and> (\<forall>i < length ts'. rg R G (Q i) s' (ts' ! i))"
      using Cons.IH [of "fst (f s)" "ts[i := snd (f s)]"] Cons.prems(4) 2(3) r(2) by simp
    with r(1) R show ?thesis by (auto simp: rely_def dest: transpD)
  qed
qed

end
