(* ===== verification/Concurrent.thy ===== *)
theory Concurrent
  imports Accounts Threads
begin

text \<open>
  Service calls that run at the same time. Each call is a thread on the data of the server whose actions
  are single database queries, single Redis commands and single operations of the Bloom filter (which
  has a mutex), and requests to the rates API; what a call computes between two actions it does with values of its own. Calls that
  make one query (login, refresh, profile, list) or send one message are one action. \<open>thread_of\<close> gives the thread of a call;
  run alone it is the service's function (\<open>threads_refine\<close>), so the sequential model is the case of
  calls that do not overlap.
\<close>

section \<open>Actions\<close>

type_synonym ('d, 'c, 'b, 'x, 'k, 'r) core_thread = "(('d, 'c, 'b, 'x, 'k) core, 'r) thread"

definition db_call ::
    "('d \<Rightarrow> 'a \<times> 'd) \<Rightarrow> ('a \<Rightarrow> ('d, 'c, 'b, 'x, 'k, 'r) core_thread) \<Rightarrow> ('d, 'c, 'b, 'x, 'k, 'r) core_thread" where
  "db_call query k = Act (\<lambda>v. case query (co_db v) of (a, d) \<Rightarrow> (v\<lparr>co_db := d\<rparr>, k a))"

definition redis_call ::
    "('c \<Rightarrow> 'a \<times> 'c) \<Rightarrow> ('a \<Rightarrow> ('d, 'c, 'b, 'x, 'k, 'r) core_thread) \<Rightarrow> ('d, 'c, 'b, 'x, 'k, 'r) core_thread" where
  "redis_call command k = Act (\<lambda>v. case command (co_redis v) of (a, c) \<Rightarrow> (v\<lparr>co_redis := c\<rparr>, k a))"

definition redis_do ::
    "('c \<Rightarrow> 'c) \<Rightarrow> ('d, 'c, 'b, 'x, 'k, 'r) core_thread \<Rightarrow> ('d, 'c, 'b, 'x, 'k, 'r) core_thread" where
  "redis_do command t = Act (\<lambda>v. (v\<lparr>co_redis := command (co_redis v)\<rparr>, t))"

definition api_call ::
    "('x \<Rightarrow> 'a \<times> 'x) \<Rightarrow> ('a \<Rightarrow> ('d, 'c, 'b, 'x, 'k, 'r) core_thread) \<Rightarrow> ('d, 'c, 'b, 'x, 'k, 'r) core_thread" where
  "api_call request k = Act (\<lambda>v. case request (co_api v) of (a, x) \<Rightarrow> (v\<lparr>co_api := x\<rparr>, k a))"

definition filter_add ::
    "'b bloomlib \<Rightarrow> string \<Rightarrow> ('d, 'c, 'b, 'x, 'k, 'r) core_thread \<Rightarrow> ('d, 'c, 'b, 'x, 'k, 'r) core_thread" where
  "filter_add B item t = Act (\<lambda>v. (v\<lparr>co_filter := Filter_Add B (co_filter v) item\<rparr>, t))"

definition filter_test ::
    "'b bloomlib \<Rightarrow> string \<Rightarrow> (bool \<Rightarrow> ('d, 'c, 'b, 'x, 'k, 'r) core_thread) \<Rightarrow> ('d, 'c, 'b, 'x, 'k, 'r) core_thread" where
  "filter_test B item k = Act (\<lambda>v. (v, k (Filter_Contains B (co_filter v) item)))"

definition service_action ::
    "(('d, 'c, 'b, 'x, 'k) core \<Rightarrow> 'r \<times> ('d, 'c, 'b, 'x, 'k) core) \<Rightarrow> ('d, 'c, 'b, 'x, 'k, 'r) core_thread" where
  "service_action f = Act (\<lambda>v. case f v of (r, v') \<Rightarrow> (v', Ret r))"

lemmas action_defs =
  db_call_def redis_call_def redis_do_def api_call_def filter_add_def filter_test_def service_action_def

lemma alone_actions [simp]:
  "alone (db_call query k) v = (case query (co_db v) of (a, d) \<Rightarrow> alone (k a) (v\<lparr>co_db := d\<rparr>))"
  "alone (redis_call command k) v = (case command (co_redis v) of (a, c) \<Rightarrow> alone (k a) (v\<lparr>co_redis := c\<rparr>))"
  "alone (redis_do cmd t) v = alone t (v\<lparr>co_redis := cmd (co_redis v)\<rparr>)"
  "alone (api_call request ka) v = (case request (co_api v) of (a, x) \<Rightarrow> alone (ka a) (v\<lparr>co_api := x\<rparr>))"
  "alone (filter_add B item t) v = alone t (v\<lparr>co_filter := Filter_Add B (co_filter v) item\<rparr>)"
  "alone (filter_test B item kb) v = alone (kb (Filter_Contains B (co_filter v) item)) v"
  "alone (service_action f) v = f v"
  by (simp_all add: action_defs split_beta)

lemma core_update_order [simp]:
  "v\<lparr>co_redis := c, co_db := d\<rparr> = v\<lparr>co_db := d, co_redis := c\<rparr>"
  "v\<lparr>co_redis := c, co_api := x\<rparr> = v\<lparr>co_api := x, co_redis := c\<rparr>"
  by (cases v; simp)+

section \<open>Calls\<close>

datatype service_call =
    CallRegister env RegisterRequest | CallLogin env LoginRequest | CallRefresh env string | CallProfile int64
  | CallUpdate int64 UpdateProfileRequest | CallCheck string string | CallList int int | CallDelete int64
  | CallConvert ConvertRequest | CallRates string | CallPublish instant string ConversionEvent

datatype reply =
    RepTokens "error + AuthResponse" | RepUser "error + User" | RepCheck "error + bool \<times> bool"
  | RepUsers "error + User list" | RepDone "error option" | RepConvert "error + ConvertResponse" | RepRates "error + rates"

type_synonym ('d, 'c, 'b, 'x, 'k) call_thread = "(('d, 'c, 'b, 'x, 'k) core, reply) thread"

definition new_user :: "RegisterRequest \<Rightarrow> User" where
  "new_user req = zero_User\<lparr>usr_Email := reg_Email req, usr_Username := reg_Username req,
                            usr_Name := reg_Name req, usr_Role := RoleUser\<rparr>"

definition Register_filter ::
    "('d, 'c, 'b, 'x, 'k, 'l) world_libs \<Rightarrow> Config \<Rightarrow> env \<Rightarrow> RegisterRequest \<Rightarrow> User \<Rightarrow> ('d, 'c, 'b, 'x, 'k) call_thread" where
  "Register_filter W cfg E req user =
     filter_add (lib_bloom (wl_libs W)) (''email:'' @ reg_Email req)
       (filter_add (lib_bloom (wl_libs W)) (''username:'' @ reg_Username req)
         (Ret (RepTokens (authService_generateTokenPair (wl_libs W) (deps_AuthService W cfg) E user))))"

definition Register_create ::
    "('d, 'c, 'b, 'x, 'k, 'l) world_libs \<Rightarrow> Config \<Rightarrow> env \<Rightarrow> RegisterRequest \<Rightarrow> string \<Rightarrow> ('d, 'c, 'b, 'x, 'k) call_thread" where
  "Register_create W cfg E req hash =
     db_call (\<lambda>d. repo_Create (NewUserRepository (wl_gorm W)) background d (new_user req) hash)
       (\<lambda>(err, user). case err of
          Some e \<Rightarrow> Ret (RepTokens (Inl (Errorf ''create user: '' e [])))
        | None \<Rightarrow> Register_filter W cfg E req user)"

definition Register_thread ::
    "('d, 'c, 'b, 'x, 'k, 'l) world_libs \<Rightarrow> Config \<Rightarrow> env \<Rightarrow> RegisterRequest \<Rightarrow> ('d, 'c, 'b, 'x, 'k) call_thread" where
  "Register_thread W cfg E req =
     db_call (\<lambda>d. repo_GetByEmail (NewUserRepository (wl_gorm W)) background d (reg_Email req))
       (\<lambda>r. case r of
          Inr existing \<Rightarrow> Ret (RepTokens (Inl ErrEmailTaken))
        | Inl err \<Rightarrow>
            if \<not> errors_Is err ErrNotFound then Ret (RepTokens (Inl (Errorf ''check existing user: '' err [])))
            else
              (case Hash (lib_bcrypt (wl_libs W)) (env_salt E) (reg_Password req) of
                 Inl e \<Rightarrow> Ret (RepTokens (Inl (Errorf ''hash password: '' e [])))
               | Inr hash \<Rightarrow> Register_create W cfg E req hash))"

definition Update_write ::
    "('d, 'c, 'b, 'x, 'k, 'l) world_libs \<Rightarrow> UpdateProfileRequest \<Rightarrow> User \<Rightarrow> ('d, 'c, 'b, 'x, 'k) call_thread" where
  "Update_write W req user =
     db_call (\<lambda>d. repo_Update (NewUserRepository (wl_gorm W)) background d (apply_profile req user))
       (\<lambda>(err, user'). case err of
          Some e \<Rightarrow> Ret (RepUser (Inl (Errorf ''update user: '' e [])))
        | None \<Rightarrow> Ret (RepUser (Inr user')))"

definition Update_thread ::
    "('d, 'c, 'b, 'x, 'k, 'l) world_libs \<Rightarrow> int64 \<Rightarrow> UpdateProfileRequest \<Rightarrow> ('d, 'c, 'b, 'x, 'k) call_thread" where
  "Update_thread W userID req =
     db_call (\<lambda>d. repo_GetByID (NewUserRepository (wl_gorm W)) background d userID)
       (\<lambda>r. case r of
          Inl e \<Rightarrow>
            if errors_Is e ErrNotFound then Ret (RepUser (Inl ErrNotFound))
            else Ret (RepUser (Inl (Errorf ''get user: '' e [])))
        | Inr user \<Rightarrow> Update_write W req user)"

text \<open>The cache's three writes, one Redis command each, and the lookups through the cache.\<close>

definition cacheUser_thread ::
    "'c redis \<Rightarrow> duration \<Rightarrow> User \<Rightarrow> ('d, 'c, 'b, 'x, 'k) call_thread \<Rightarrow> ('d, 'c, 'b, 'x, 'k) call_thread" where
  "cacheUser_thread R ttl user t =
     (let safe = user\<lparr>usr_Password := []\<rparr>
      in redis_do (\<lambda>c. cacheSet R c (userIDCacheKey (usr_ID safe)) safe ttl)
           (redis_do (\<lambda>c. cacheSet R c (userEmailCacheKey (usr_Email safe)) safe ttl)
             (if usr_Username safe \<noteq> []
              then redis_do (\<lambda>c. cacheSet R c (userUsernameCacheKey (usr_Username safe)) safe ttl) t
              else t)))"

definition lookup_thread ::
    "'c redis \<Rightarrow> duration \<Rightarrow> string \<Rightarrow> ('d \<Rightarrow> (error + User) \<times> 'd) \<Rightarrow> (error + User \<Rightarrow> ('d, 'c, 'b, 'x, 'k) call_thread)
     \<Rightarrow> ('d, 'c, 'b, 'x, 'k) call_thread" where
  "lookup_thread R ttl key underlying k =
     redis_call (\<lambda>c. RedisCache_Get R unmarshal_User c key)
       (\<lambda>r. case r of
          Inr cached \<Rightarrow> k (Inr cached)
        | Inl _ \<Rightarrow>
            db_call underlying
              (\<lambda>r. case r of Inl e \<Rightarrow> k (Inl e) | Inr user \<Rightarrow> cacheUser_thread R ttl user (k (Inr user))))"

text \<open>One half of the availability check, for the identifier \<open>x\<close>.\<close>

definition available_thread ::
    "'b bloomlib \<Rightarrow> 'c redis \<Rightarrow> duration \<Rightarrow> string \<Rightarrow> string \<Rightarrow> string \<Rightarrow> string \<Rightarrow> ('d \<Rightarrow> (error + User) \<times> 'd)
     \<Rightarrow> (bool \<Rightarrow> ('d, 'c, 'b, 'x, 'k) call_thread) \<Rightarrow> ('d, 'c, 'b, 'x, 'k) call_thread" where
  "available_thread B R ttl x item msg key underlying k =
     (if x = [] then k True
      else
        filter_test B item
          (\<lambda>found. if found then
             lookup_thread R ttl key underlying
               (\<lambda>r. case r of
                  Inr _ \<Rightarrow> k False
                | Inl e \<Rightarrow> if \<not> errors_Is e ErrNotFound then Ret (RepCheck (Inl (Errorf msg e []))) else k True)
           else k True))"

definition Check_thread ::
    "('d, 'c, 'b, 'x, 'k, 'l) world_libs \<Rightarrow> Config \<Rightarrow> string \<Rightarrow> string \<Rightarrow> ('d, 'c, 'b, 'x, 'k) call_thread" where
  "Check_thread W cfg email username =
     available_thread (lib_bloom (wl_libs W)) (wl_redis W) (cfg_CacheTTL cfg) email (''email:'' @ email)
       ''check email availability: '' (userEmailCacheKey email)
       (\<lambda>d. repo_GetByEmail (NewUserRepository (wl_gorm W)) background d email)
       (\<lambda>emailAvail.
          available_thread (lib_bloom (wl_libs W)) (wl_redis W) (cfg_CacheTTL cfg) username (''username:'' @ username)
            ''check username availability: '' (userUsernameCacheKey username)
            (\<lambda>d. repo_GetByUsername (NewUserRepository (wl_gorm W)) background d username)
            (\<lambda>usernameAvail. Ret (RepCheck (Inr (emailAvail, usernameAvail)))))"

definition Delete_row ::
    "('d, 'c, 'b, 'x, 'k, 'l) world_libs \<Rightarrow> int64 \<Rightarrow> ('d, 'c, 'b, 'x, 'k) call_thread" where
  "Delete_row W i =
     db_call (\<lambda>d. repo_Delete (NewUserRepository (wl_gorm W)) background d i)
       (\<lambda>err. case err of
          Some e \<Rightarrow>
            if errors_Is e ErrNotFound then Ret (RepDone (Some ErrNotFound))
            else Ret (RepDone (Some (Errorf (''delete user '' @ show_int (sint i) @ '': '') e [])))
        | None \<Rightarrow> redis_do (\<lambda>c. cacheDel (wl_redis W) c [userIDCacheKey i]) (Ret (RepDone None)))"

definition Delete_thread ::
    "('d, 'c, 'b, 'x, 'k, 'l) world_libs \<Rightarrow> int64 \<Rightarrow> ('d, 'c, 'b, 'x, 'k) call_thread" where
  "Delete_thread W i =
     db_call (\<lambda>d. repo_GetByID (NewUserRepository (wl_gorm W)) background d i)
       (\<lambda>r. case r of
          Inr user \<Rightarrow> redis_do (\<lambda>c. cacheDel (wl_redis W) c [userEmailCacheKey (usr_Email user)]) (Delete_row W i)
        | Inl _ \<Rightarrow> Delete_row W i)"

text \<open>Exchange rates: one command to read the cache, one request to the API, one command to write the cache.\<close>

definition rates_thread ::
    "('d, 'c, 'b, 'x, 'k, 'l) world_libs \<Rightarrow> Config \<Rightarrow> string \<Rightarrow> (error + rates \<Rightarrow> ('d, 'c, 'b, 'x, 'k) call_thread)
     \<Rightarrow> ('d, 'c, 'b, 'x, 'k) call_thread" where
  "rates_thread W cfg base k =
     (let key = ratesCacheKey (wl_uni W) base
      in redis_call (\<lambda>c. RedisCache_Get (wl_redis W) dec_float_map c key)
           (\<lambda>r. case r of
              Inr rates \<Rightarrow> k (Inr rates)
            | Inl _ \<Rightarrow>
                api_call (\<lambda>x. HTTPClient_GetRates (wl_uni W) (wl_api W) x base)
                  (\<lambda>r. case r of
                     Inl e \<Rightarrow> k (Inl e)
                   | Inr rates \<Rightarrow>
                       redis_do (\<lambda>c. snd (RedisCache_Set (wl_redis W) marshal_float_map c key rates (cfg_CacheTTL cfg)))
                         (k (Inr rates)))))"

definition Convert_thread ::
    "('d, 'c, 'b, 'x, 'k, 'l) world_libs \<Rightarrow> Config \<Rightarrow> ConvertRequest \<Rightarrow> ('d, 'c, 'b, 'x, 'k) call_thread" where
  "Convert_thread W cfg req =
     (let from = ToUpper (wl_uni W) (conv_From req); to = ToUpper (wl_uni W) (conv_To req)
      in rates_thread W cfg from
           (\<lambda>r. case r of
              Inl e \<Rightarrow> Ret (RepConvert (Inl (Errorf (''get rates for '' @ from @ '': '') e [])))
            | Inr rates \<Rightarrow>
                (case map_of rates to of
                   None \<Rightarrow> Ret (RepConvert (Inl (Errorf [] ErrUnsupportedCurrency ('': '' @ to))))
                 | Some rate \<Rightarrow>
                     Ret (RepConvert (Inr \<lparr>cr_From = from, cr_To = to, cr_Amount = conv_Amt req, cr_Rate = rate,
                                           cr_Converted = conv_Amt req * rate\<rparr>)))))"

definition Rates_thread ::
    "('d, 'c, 'b, 'x, 'k, 'l) world_libs \<Rightarrow> Config \<Rightarrow> string \<Rightarrow> ('d, 'c, 'b, 'x, 'k) call_thread" where
  "Rates_thread W cfg base = rates_thread W cfg (ToUpper (wl_uni W) base) (\<lambda>r. Ret (RepRates r))"

section \<open>A call as one function, and as a thread\<close>

text \<open>The service's function for a call, on the data of the server.\<close>

definition atomic_call ::
    "('d, 'c, 'b, 'x, 'k, 'l) world_libs \<Rightarrow> Config \<Rightarrow> service_call \<Rightarrow> ('d, 'c, 'b, 'x, 'k) core \<Rightarrow> reply \<times> ('d, 'c, 'b, 'x, 'k) core" where
  "atomic_call W cfg call v =
     (let L = wl_libs W; asvc = deps_AuthService W cfg; usvc = deps_UserSvc W cfg; ast = (co_db v, Some (co_filter v)) in
      case call of
        CallRegister E req \<Rightarrow> (case authService_Register L asvc E background ast req of (r, s) \<Rightarrow> (RepTokens r, with_auth v s))
      | CallLogin E req \<Rightarrow> (case authService_Login L asvc E background ast req of (r, s) \<Rightarrow> (RepTokens r, with_auth v s))
      | CallRefresh E tok \<Rightarrow> (case authService_RefreshToken L asvc E background ast tok of (r, s) \<Rightarrow> (RepTokens r, with_auth v s))
      | CallProfile i \<Rightarrow> (case authService_GetProfile asvc background ast i of (r, s) \<Rightarrow> (RepUser r, with_auth v s))
      | CallUpdate i req \<Rightarrow> (case authService_UpdateProfile asvc background ast i req of (r, s) \<Rightarrow> (RepUser r, with_auth v s))
      | CallCheck email username \<Rightarrow>
          (case userServiceImpl_CheckAvailability (lib_bloom L) usvc background ((co_db v, co_redis v), co_filter v) email username of
             (r, ((d, c), f)) \<Rightarrow> (RepCheck r, v\<lparr>co_db := d, co_redis := c, co_filter := f\<rparr>))
      | CallList off lim \<Rightarrow>
          (case userServiceImpl_List usvc background (co_db v, co_redis v) off lim of
             (r, (d, c)) \<Rightarrow> (RepUsers r, v\<lparr>co_db := d, co_redis := c\<rparr>))
      | CallDelete i \<Rightarrow>
          (case userServiceImpl_Delete usvc background (co_db v, co_redis v) i of
             (r, (d, c)) \<Rightarrow> (RepDone r, v\<lparr>co_db := d, co_redis := c\<rparr>))
      | CallConvert req \<Rightarrow>
          (case exchangeServiceImpl_Convert (wl_uni W) (deps_ExchangeClient W cfg) (co_api v, co_redis v) req of
             (r, (x, c)) \<Rightarrow> (RepConvert r, v\<lparr>co_api := x, co_redis := c\<rparr>))
      | CallRates base \<Rightarrow>
          (case exchangeServiceImpl_GetRates (wl_uni W) (deps_ExchangeClient W cfg) (co_api v, co_redis v) base of
             (r, (x, c)) \<Rightarrow> (RepRates r, v\<lparr>co_api := x, co_redis := c\<rparr>))
      | CallPublish now uuid event \<Rightarrow>
          (case eventServiceImpl_PublishConversion (wl_kafka W) now uuid (NewProducer (cfg_KafkaBrokers cfg) (cfg_KafkaTopic cfg))
                  (co_kafka v) event of
             (r, k) \<Rightarrow> (RepDone r, v\<lparr>co_kafka := k\<rparr>)))"

definition thread_of ::
    "('d, 'c, 'b, 'x, 'k, 'l) world_libs \<Rightarrow> Config \<Rightarrow> service_call \<Rightarrow> ('d, 'c, 'b, 'x, 'k) call_thread" where
  "thread_of W cfg call =
     (case call of
        CallRegister E req \<Rightarrow> Register_thread W cfg E req
      | CallUpdate i req \<Rightarrow> Update_thread W i req
      | CallCheck email username \<Rightarrow> Check_thread W cfg email username
      | CallDelete i \<Rightarrow> Delete_thread W i
      | CallConvert req \<Rightarrow> Convert_thread W cfg req
      | CallRates base \<Rightarrow> Rates_thread W cfg base
      | _ \<Rightarrow> service_action (atomic_call W cfg call))"

lemma alone_Register:
  "alone (Register_thread W cfg E req) v = atomic_call W cfg (CallRegister E req) v"
  by (simp add: Register_thread_def Register_create_def Register_filter_def atomic_call_def authService_Register_def
      with_auth_def filter_add_user_def new_user_def Let_def split: prod.split sum.split option.split)

lemma alone_Update:
  "alone (Update_thread W i req) v = atomic_call W cfg (CallUpdate i req) v"
  by (simp add: Update_thread_def Update_write_def atomic_call_def authService_UpdateProfile_def with_auth_def Let_def
      split: prod.split sum.split option.split)

lemma alone_cacheUser: "alone (cacheUser_thread R ttl u t) v = alone t (v\<lparr>co_redis := cacheUser R ttl (co_redis v) u\<rparr>)"
  by (simp add: cacheUser_thread_def cacheUser_def Let_def)

lemma alone_lookup:
  "alone (lookup_thread R ttl key underlying k) v =
     (case cache_aside R ttl key underlying (co_db v, co_redis v) of (r, (d, c)) \<Rightarrow> alone (k r) (v\<lparr>co_db := d, co_redis := c\<rparr>))"
  by (simp add: lookup_thread_def cache_aside_def alone_cacheUser split: prod.split sum.split)

lemma alone_available:
  "alone (available_thread B R ttl x item msg key underlying k) v =
     (case (if x \<noteq> [] then
              if Filter_Contains B (co_filter v) item then
                (case cache_aside R ttl key underlying (co_db v, co_redis v) of
                   (Inr _, s) \<Rightarrow> (Inr False, s)
                 | (Inl e, s) \<Rightarrow> if \<not> errors_Is e ErrNotFound then (Inl (Errorf msg e []), s) else (Inr True, s))
              else (Inr True, (co_db v, co_redis v))
            else (Inr True, (co_db v, co_redis v))) of
        (Inl e, (d, c)) \<Rightarrow> (RepCheck (Inl e), v\<lparr>co_db := d, co_redis := c\<rparr>)
      | (Inr b, (d, c)) \<Rightarrow> alone (k b) (v\<lparr>co_db := d, co_redis := c\<rparr>))"
  by (simp add: available_thread_def alone_lookup split: prod.split sum.split)

lemma alone_Delete:
  "alone (Delete_thread W i) v = atomic_call W cfg (CallDelete i) v"
  by (simp add: Delete_thread_def Delete_row_def atomic_call_def userServiceImpl_Delete_def deps_UserSvc_def
      CachingUserRepository_Delete_def Let_def split: prod.split sum.split option.split)

lemma alone_Check:
  "alone (Check_thread W cfg email username) v = atomic_call W cfg (CallCheck email username) v"
  by (simp add: Check_thread_def alone_available atomic_call_def userServiceImpl_CheckAvailability_def deps_UserSvc_def
      CachingUserRepository_GetByEmail_def CachingUserRepository_GetByUsername_def Let_def split: prod.split sum.split)

lemma alone_rates:
  "alone (rates_thread W cfg base k) v =
     (case deps_ExchangeClient W cfg (co_api v, co_redis v) base of (r, (x, c)) \<Rightarrow> alone (k r) (v\<lparr>co_api := x, co_redis := c\<rparr>))"
  by (simp add: rates_thread_def deps_ExchangeClient_def CachedHTTPClient_GetRates_def Let_def split: prod.split sum.split)

lemma alone_Convert:
  "alone (Convert_thread W cfg req) v = atomic_call W cfg (CallConvert req) v"
  by (simp add: Convert_thread_def alone_rates atomic_call_def exchangeServiceImpl_Convert_def Let_def
      split: prod.split sum.split option.split)

lemma alone_Rates:
  "alone (Rates_thread W cfg base) v = atomic_call W cfg (CallRates base) v"
  by (simp add: Rates_thread_def alone_rates atomic_call_def exchangeServiceImpl_GetRates_def Let_def split: prod.split)

section \<open>Uninterrupted calls\<close>

text \<open>
  A call whose actions are not interrupted by others returns what the service's function returns, and
  leaves the data as it does.
\<close>

lemma threads_refine: "alone (thread_of W cfg call) v = atomic_call W cfg call v"
  by (cases call) (simp_all add: thread_of_def alone_Register alone_Update [where cfg = cfg] alone_Check alone_Delete [where cfg = cfg]
      alone_Convert alone_Rates)

end
