(* ===== verification/Interleavings.thy ===== *)
theory Interleavings
  imports Concurrent
begin

text \<open>
  What holds of calls that run at the same time, whatever the schedule. The proofs give each thread a
  rely-guarantee judgement (\<open>rg\<close>) and combine them with \<open>interleave_inv\<close>.
\<close>

section \<open>Judgements for actions\<close>

lemma rg_db_call:
  "(\<And>v' a d. R v v' \<Longrightarrow> query (co_db v') = (a, d) \<Longrightarrow> G v' (v'\<lparr>co_db := d\<rparr>) (k a) \<and> rg R G Q (v'\<lparr>co_db := d\<rparr>) (k a)) \<Longrightarrow>
   rg R G Q v (db_call query k)"
  by (auto simp: db_call_def rg_Act_iff split_beta)

lemma rg_redis_call:
  "(\<And>v' a c. R v v' \<Longrightarrow> command (co_redis v') = (a, c) \<Longrightarrow> G v' (v'\<lparr>co_redis := c\<rparr>) (k a) \<and> rg R G Q (v'\<lparr>co_redis := c\<rparr>) (k a)) \<Longrightarrow>
   rg R G Q v (redis_call command k)"
  by (auto simp: redis_call_def rg_Act_iff split_beta)

lemma rg_redis_do:
  "(\<And>v'. R v v' \<Longrightarrow> G v' (v'\<lparr>co_redis := cmd (co_redis v')\<rparr>) t \<and> rg R G Q (v'\<lparr>co_redis := cmd (co_redis v')\<rparr>) t) \<Longrightarrow>
   rg R G Q v (redis_do cmd t)"
  by (auto simp: redis_do_def rg_Act_iff)

lemma rg_api_call:
  "(\<And>v' a x. R v v' \<Longrightarrow> request (co_api v') = (a, x) \<Longrightarrow> G v' (v'\<lparr>co_api := x\<rparr>) (k a) \<and> rg R G Q (v'\<lparr>co_api := x\<rparr>) (k a)) \<Longrightarrow>
   rg R G Q v (api_call request k)"
  by (auto simp: api_call_def rg_Act_iff split_beta)

lemma rg_filter_add:
  "(\<And>v'. R v v' \<Longrightarrow> G v' (v'\<lparr>co_filter := Filter_Add B (co_filter v') item\<rparr>) t \<and>
      rg R G Q (v'\<lparr>co_filter := Filter_Add B (co_filter v') item\<rparr>) t) \<Longrightarrow>
   rg R G Q v (filter_add B item t)"
  by (auto simp: filter_add_def rg_Act_iff)

lemma rg_filter_test:
  "(\<And>v'. R v v' \<Longrightarrow> G v' v' (k (Filter_Contains B (co_filter v') item)) \<and> rg R G Q v' (k (Filter_Contains B (co_filter v') item))) \<Longrightarrow>
   rg R G Q v (filter_test B item k)"
  by (auto simp: filter_test_def rg_Act_iff)

lemma rg_service_action:
  "(\<And>v' r w. R v v' \<Longrightarrow> f v' = (r, w) \<Longrightarrow> G v' w (Ret r) \<and> (\<forall>w'. R w w' \<longrightarrow> Q r w')) \<Longrightarrow> rg R G Q v (service_action f)"
  by (force simp: service_action_def rg_Act_iff split_beta)

lemmas rg_actions = rg_db_call rg_redis_call rg_redis_do rg_api_call rg_filter_add rg_filter_test rg_service_action

text \<open>One action of a schedule, for the examples.\<close>

lemma advance_actions:
  "i < length ts \<Longrightarrow> ts ! i = db_call query k \<Longrightarrow> query (co_db v) = (a, d) \<Longrightarrow> advance i (v, ts) = (v\<lparr>co_db := d\<rparr>, ts[i := k a])"
  "i < length ts \<Longrightarrow> ts ! i = redis_do cmd t \<Longrightarrow> advance i (v, ts) = (v\<lparr>co_redis := cmd (co_redis v)\<rparr>, ts[i := t])"
  "i < length ts \<Longrightarrow> ts ! i = filter_add B item t \<Longrightarrow>
   advance i (v, ts) = (v\<lparr>co_filter := Filter_Add B (co_filter v) item\<rparr>, ts[i := t])"
  by (simp_all add: advance_def action_defs)

text \<open>Schedules of two threads.\<close>

lemma advance_two [simp]:
  "advance 0 (v, [db_call query k, t]) = (case query (co_db v) of (a, d) \<Rightarrow> (v\<lparr>co_db := d\<rparr>, [k a, t]))"
  "advance (Suc 0) (v, [t, db_call query k]) = (case query (co_db v) of (a, d) \<Rightarrow> (v\<lparr>co_db := d\<rparr>, [t, k a]))"
  "advance 0 (v, [redis_call command kr, t]) = (case command (co_redis v) of (a, c) \<Rightarrow> (v\<lparr>co_redis := c\<rparr>, [kr a, t]))"
  "advance (Suc 0) (v, [t, redis_call command kr]) = (case command (co_redis v) of (a, c) \<Rightarrow> (v\<lparr>co_redis := c\<rparr>, [t, kr a]))"
  "advance 0 (v, [redis_do cmd t', t]) = (v\<lparr>co_redis := cmd (co_redis v)\<rparr>, [t', t])"
  "advance (Suc 0) (v, [t, redis_do cmd t']) = (v\<lparr>co_redis := cmd (co_redis v)\<rparr>, [t, t'])"
  "advance 0 (v, [api_call request ka, t]) = (case request (co_api v) of (a, x) \<Rightarrow> (v\<lparr>co_api := x\<rparr>, [ka a, t]))"
  "advance (Suc 0) (v, [t, api_call request ka]) = (case request (co_api v) of (a, x) \<Rightarrow> (v\<lparr>co_api := x\<rparr>, [t, ka a]))"
  "advance 0 (v, [filter_test B item kb, t]) = (v, [kb (Filter_Contains B (co_filter v) item), t])"
  "advance 0 (v, [Ret r, t]) = (v, [Ret r, t])"
  "advance (Suc 0) (v, [t, Ret r]) = (v, [t, Ret r])"
  by (simp_all add: advance_def action_defs split: prod.split)

lemma mem_redis_miss: "RedisCache_Get mem_redis dec [] k = (Inl ErrCacheMiss, [])"
  by (simp add: RedisCache_Get_def mem_redis_def)

section \<open>The users table\<close>

definition op_of :: "service_call \<Rightarrow> op" where
  "op_of call =
     (case call of
        CallRegister _ _ \<Rightarrow> OpRegister | CallLogin _ _ \<Rightarrow> OpLogin | CallRefresh _ _ \<Rightarrow> OpRefresh | CallProfile _ \<Rightarrow> OpProfile
      | CallUpdate i _ \<Rightarrow> OpUpdate i | CallCheck _ _ \<Rightarrow> OpCheck | CallList _ _ \<Rightarrow> OpList | CallDelete i \<Rightarrow> OpDelete i
      | CallConvert _ \<Rightarrow> OpConvert | CallRates _ \<Rightarrow> OpConvert | CallPublish _ _ _ \<Rightarrow> OpPublish)"

lemma atomic_call_step: "core_step W cfg (op_of call) v (snd (atomic_call W cfg call v))"
  by (cases call)
     (auto simp: atomic_call_def op_of_def Let_def split: prod.split intro: core_step.intros)

definition effect_guar ::
    "('d, 'c, 'b, 'x, 'k, 'l) world_libs \<Rightarrow> 'd rows \<Rightarrow> op set \<Rightarrow> ('d, 'c, 'b, 'x, 'k) core \<Rightarrow> ('d, 'c, 'b, 'x, 'k) core
     \<Rightarrow> ('d, 'c, 'b, 'x, 'k) call_thread \<Rightarrow> bool" where
  "effect_guar W rows ops v v' t \<longleftrightarrow>
     core_inv W rows v' \<and> (core_tbl rows v' = core_tbl rows v \<or> (\<exists>op \<in> ops. table_effect op (core_tbl rows v) (core_tbl rows v')))"

abbreviation effect_rg ::
    "('d, 'c, 'b, 'x, 'k, 'l) world_libs \<Rightarrow> 'd rows \<Rightarrow> op \<Rightarrow> ('d, 'c, 'b, 'x, 'k) core \<Rightarrow> ('d, 'c, 'b, 'x, 'k) call_thread \<Rightarrow> bool" where
  "effect_rg W rows op \<equiv> rg (\<lambda>_. core_inv W rows) (effect_guar W rows {op}) (\<lambda>_ _. True)"

lemma effect_lookup:
  assumes "\<And>d r d'. db_inv (wl_gorm W) rows d \<Longrightarrow> query d = (r, d') \<Longrightarrow>
      db_inv (wl_gorm W) rows d' \<and> db_tbl rows background d' = db_tbl rows background d"
    and k: "\<And>v r. effect_rg W rows op v (k r)"
  shows "effect_rg W rows op v (lookup_thread R ttl key query k)"
  unfolding lookup_thread_def cacheUser_thread_def Let_def
  by (intro rg_actions conjI)
     (auto simp: effect_guar_def k dest: assms(1) split: sum.split intro!: rg_actions)

lemma effect_available:
  assumes "\<And>d r d'. db_inv (wl_gorm W) rows d \<Longrightarrow> query d = (r, d') \<Longrightarrow>
      db_inv (wl_gorm W) rows d' \<and> db_tbl rows background d' = db_tbl rows background d"
    and k: "\<And>v b. effect_rg W rows op v (k b)"
  shows "effect_rg W rows op v (available_thread B R ttl x item msg key query k)"
  unfolding available_thread_def
  by (auto intro!: rg_filter_test effect_lookup k dest: assms(1) simp: effect_guar_def split: sum.split)

lemma effect_rates:
  assumes "\<And>v r. effect_rg W rows op v (k r)"
  shows "effect_rg W rows op v (rates_thread W cfg base k)"
  unfolding rates_thread_def Let_def
  by (intro rg_actions conjI) (auto simp: effect_guar_def assms split: sum.split intro!: rg_actions)

text \<open>What creating the row of a registration does, as a step on the table.\<close>

lemma new_user_created:
  assumes L: "libs_ok W sig" and inv: "core_inv W rows v"
    and h: "Hash (lib_bcrypt (wl_libs W)) (env_salt E) (reg_Password req) = Inr h"
    and c: "repo_Create (NewUserRepository (wl_gorm W)) background (co_db v) (new_user req) h = ((err, u), d)"
  shows "db_inv (wl_gorm W) rows d \<and>
    (case err of
       Some e \<Rightarrow> db_tbl rows background d = core_tbl rows v
     | None \<Rightarrow> \<exists>row resp. registered (lib_bcrypt (wl_libs W)) (env_salt E) req row \<and> core_tbl rows v (usr_ID row) = None \<and>
                 db_tbl rows background d = (core_tbl rows v)(usr_ID row \<mapsto> row) \<and>
                 authService_generateTokenPair (wl_libs W) (deps_AuthService W cfg) E u = Inr resp)"
proof (cases err)
  case None
  from L have J: "jwt_ok (lib_jwt (wl_libs W)) sig" by (simp add: libs_ok_def)
  from impl.create_registered [OF inv J h, folded new_user_def, OF c [unfolded None], of "deps_AuthService W cfg" E] None
  show ?thesis by auto
next
  case (Some e)
  with impl.Create [OF inv _ c] show ?thesis by (simp add: new_user_def zero_User_def)
qed

lemma effect_Register:
  assumes "libs_ok W sig"
  shows "effect_rg W rows OpRegister v (Register_thread W cfg E req)"
proof -
  have filter: "effect_rg W rows OpRegister v (Register_filter W cfg E req u)" for u v
    by (auto simp: Register_filter_def effect_guar_def intro!: rg_filter_add)
  have create: "effect_rg W rows OpRegister v (Register_create W cfg E req h)"
    if h: "Hash (lib_bcrypt (wl_libs W)) (env_salt E) (reg_Password req) = Inr h" for v h
    unfolding Register_create_def
  proof (rule rg_db_call)
    fix v' :: "('a, 'b, 'c, 'd, 'e) core" and a d
    assume inv: "core_inv W rows v'" and c: "repo_Create (NewUserRepository (wl_gorm W)) background (co_db v') (new_user req) h = (a, d)"
    obtain err u where a: "a = (err, u)" by force
    note C = new_user_created [OF assms inv h c [unfolded a], of cfg]
    have "effect_guar W rows {OpRegister} v' (v'\<lparr>co_db := d\<rparr>) t" for t :: "('a, 'b, 'c, 'd, 'e) call_thread"
      using C by (auto simp: effect_guar_def table_effect_def dest: registered_role split: option.splits)
    then show "effect_guar W rows {OpRegister} v' (v'\<lparr>co_db := d\<rparr>)
        (case a of (err, user) \<Rightarrow> case err of None \<Rightarrow> Register_filter W cfg E req user
          | Some e \<Rightarrow> Ret (RepTokens (Inl (Errorf ''create user: '' e [])))) \<and>
      effect_rg W rows OpRegister (v'\<lparr>co_db := d\<rparr>)
        (case a of (err, user) \<Rightarrow> case err of None \<Rightarrow> Register_filter W cfg E req user
          | Some e \<Rightarrow> Ret (RepTokens (Inl (Errorf ''create user: '' e []))))"
      by (auto simp: a filter split: option.split)
  qed
  show ?thesis
    unfolding Register_thread_def
    by (rule rg_db_call)
       (auto simp: effect_guar_def create split: sum.split dest: impl.GetByEmail [where ctx = background, simplified])
qed

lemma table_effect_write:
  "m i = Some old \<Longrightarrow> table_effect (OpUpdate i) m (m(i \<mapsto> updated_row u old t))"
  unfolding table_effect_def op.case
  by (intro exI [of _ old] exI [of _ "updated_row u old t"]) (simp add: updated_row_def)

lemma effect_thread_of:
  assumes L: "libs_ok W sig"
  shows "effect_rg W rows (op_of call) v (thread_of W cfg call)"
proof -
  have act: "effect_rg W rows (op_of call) v (service_action (atomic_call W cfg call))" for v
  proof (rule rg_service_action)
    fix v' r w assume "core_inv W rows v'" "atomic_call W cfg call v' = (r, w)"
    with core_step_table [OF atomic_call_step [of W cfg call v'] _ L]
    show "effect_guar W rows {op_of call} v' w (Ret r) \<and> (\<forall>w'. core_inv W rows w' \<longrightarrow> True)" by (simp add: effect_guar_def)
  qed
  show ?thesis
  proof (cases call)
    case (CallRegister E req)
    then show ?thesis by (simp add: thread_of_def op_of_def effect_Register [OF L])
  next
    case (CallUpdate i req)
    have upd: "effect_rg W rows (OpUpdate i) v (Update_write W req u)" if "usr_ID u = i" for v u
      unfolding Update_write_def
    proof (rule rg_db_call)
      fix v' :: "('a, 'b, 'c, 'd, 'e) core" and a d
      assume inv: "core_inv W rows v'"
        and q: "repo_Update (NewUserRepository (wl_gorm W)) background (co_db v') (apply_profile req u) = (a, d)"
      obtain err u' where a: "a = (err, u')" by force
      from impl.Update [OF inv q [unfolded a]] that
      show "effect_guar W rows {OpUpdate i} v' (v'\<lparr>co_db := d\<rparr>) (case a of (err, user') \<Rightarrow> case err of
            None \<Rightarrow> Ret (RepUser (Inr user')) | Some e \<Rightarrow> Ret (RepUser (Inl (Errorf ''update user: '' e [])))) \<and>
          effect_rg W rows (OpUpdate i) (v'\<lparr>co_db := d\<rparr>) (case a of (err, user') \<Rightarrow> case err of
            None \<Rightarrow> Ret (RepUser (Inr user')) | Some e \<Rightarrow> Ret (RepUser (Inl (Errorf ''update user: '' e []))))"
        unfolding a by (cases err) (auto simp: effect_guar_def intro!: table_effect_write)
    qed
    show ?thesis
      unfolding CallUpdate thread_of_def service_call.case op_of_def Update_thread_def
      by (rule rg_db_call) (auto simp: effect_guar_def lookup_ok_def intro!: upd dest!: impl_GetByID [rotated] split: sum.splits)
  next
    case (CallCheck email username)
    show ?thesis
      unfolding CallCheck thread_of_def service_call.case Check_thread_def
      by (intro effect_available)
         (auto dest: impl_GetByEmail impl_GetByUsername)
  next
    case (CallDelete i)
    have row: "effect_rg W rows (OpDelete i) v (Delete_row W i)" for v
      unfolding Delete_row_def
      by (rule rg_db_call)
         (auto simp: effect_guar_def table_effect_def intro!: rg_redis_do dest!: impl_Delete [rotated] split: option.splits)
    show ?thesis
      unfolding CallDelete thread_of_def service_call.case op_of_def Delete_thread_def
      by (rule rg_db_call) (auto simp: effect_guar_def row intro!: rg_redis_do dest!: impl_GetByID [rotated] split: sum.splits)
  next
    case (CallConvert req)
    show ?thesis
      unfolding CallConvert thread_of_def service_call.case Convert_thread_def Let_def
      by (rule effect_rates) (auto split: sum.split option.split)
  next
    case (CallRates base)
    show ?thesis unfolding CallRates thread_of_def service_call.case Rates_thread_def by (rule effect_rates) simp
  qed (use act in \<open>simp_all add: thread_of_def\<close>)
qed

text \<open>
  C11. Calls may overlap in any way: every interleaving of registrations, logins, refreshes, profile reads
  and updates, availability checks, lists, deletions, conversions and events keeps the constraints of the users table, and
  changes the table only by effects one of the calls may have on its own (a new row with the role
  \<^verbatim>\<open>user\<close>, a change of the updated row other than of its role and password, the deletion of the named row),
  one after the other. In particular no account gains a role.
\<close>

theorem interleaved_effects:
  assumes "core_inv W rows v" and "libs_ok W sig"
    and "interleave sched (v, map (thread_of W cfg) calls) = (v', ts)"
  shows "core_inv W rows v' \<and>
         rtranclp (\<lambda>m m'. \<exists>call \<in> set calls. table_effect (op_of call) m m') (core_tbl rows v) (core_tbl rows v') \<and>
         privileged (core_tbl rows v') \<subseteq> privileged (core_tbl rows v)"
proof -
  let ?E = "\<lambda>m m'. \<exists>call \<in> set calls. table_effect (op_of call) m m'" and ?R = "\<lambda>_. core_inv W rows"
  let ?G = "effect_guar W rows (op_of ` set calls)"
  have "?R v v' \<and> rtranclp ?E (core_tbl rows v) (core_tbl rows v') \<and> (\<forall>i < length ts. rg ?R ?G (\<lambda>_ _. True) v' (ts ! i))"
  proof (rule interleave_inv [OF _ _ _ _ _ _ assms(3)])
    show "rely ?R" by (simp add: rely_def transp_def)
    show "?G s s' t \<Longrightarrow> core_inv W rows s'" for s s' t by (simp add: effect_guar_def)
    show "rg ?R ?G (\<lambda>_ _. True) v (map (thread_of W cfg) calls ! i)" if "i < length (map (thread_of W cfg) calls)" for i
    proof -
      have "?G s s' t" if "effect_guar W rows {op_of (calls ! i)} s s' t" for s s' t
        using that nth_mem [of i calls] \<open>i < _\<close> by (auto simp: effect_guar_def)
      from rg_weaken [OF effect_thread_of [OF assms(2)] this] that show ?thesis by simp
    qed
    show "rtranclp ?E (core_tbl rows v) (core_tbl rows (fst (f s)))"
      if "rtranclp ?E (core_tbl rows v) (core_tbl rows s)" "?G s (fst (f s)) (snd (f s))" for s f
      using that by (auto simp: effect_guar_def intro: rtranclp.rtrancl_into_rtrancl)
  qed (use assms(1) in auto)
  moreover have "privileged m' \<subseteq> privileged m" if "rtranclp ?E m m'" for m m'
    using that by induction (auto dest: table_effect_privileged)
  ultimately show ?thesis by simp
qed

section \<open>An example\<close>

text \<open>Two registrations of the same user: both find the e-mail free, one gets the account.\<close>

definition race_calls :: "service_call list" where
  "race_calls = [CallRegister mem_env alice_reg, CallRegister mem_env alice_reg]"

lemma race_lookup:
  "UserRepositoryImpl_GetByEmail mem_gorm background empty_db ''a@x.io'' = (Inl ErrNotFound, empty_db)"
  by (simp add: UserRepositoryImpl_GetByEmail_def empty_db_def live_def)

lemma race_create:
  "UserRepositoryImpl_Create mem_gorm background empty_db (new_user alice_reg) ''112 119 '' = ((None, alice), alice_db)"
  using alice_Create by (simp add: new_user_def alice_reg_def)

lemma race_conflict:
  "\<exists>e u. UserRepositoryImpl_Create mem_gorm background alice_db (new_user alice_reg) ''112 119 '' = ((Some e, u), alice_db)"
proof -
  have "clash (new_user alice_reg\<lparr>usr_Password := p, usr_ID := 2\<rparr>) (live (alice_db DB))" for p
    by (simp add: clash_def alice_db_def live_single new_user_def alice_reg_def alice_def)
  moreover have "length (alice_db DB) = 1" by (simp add: alice_db_def)
  ultimately show ?thesis by (simp add: UserRepositoryImpl_Create_def mem_Create_def Let_def)
qed

lemma race_run:
  "\<exists>v' resp e. interleave [0, 1, 0, 1, 0, 0] (ss_core mem_state, map (thread_of mem_world cfg) race_calls) =
     (v', [Ret (RepTokens (Inr resp)), Ret (RepTokens (Inl e))]) \<and> co_db v' = alice_db \<and> co_redis v' = []"
proof -
  let ?reg = "Register_thread mem_world cfg mem_env alice_reg" and ?cr = "Register_create mem_world cfg mem_env alice_reg ''112 119 ''"
  obtain resp where resp: "authService_generateTokenPair mem_libs (deps_AuthService mem_world cfg) mem_env alice = Inr resp"
    using mem_generate by blast
  obtain e u where no: "UserRepositoryImpl_Create mem_gorm background alice_db (new_user alice_reg) ''112 119 '' = ((Some e, u), alice_db)"
    using race_conflict by blast
  have look: "advance i (v, ts) = (v, ts[i := ?cr])" if "i < length ts" "ts ! i = ?reg" "co_db v = empty_db" for i v ts
    using advance_actions(1) [OF that(1) that(2) [unfolded Register_thread_def], of v] race_lookup that(3)
    by (simp add: alice_reg_def alice_hash)
  have create: "advance i (v, ts) = (v\<lparr>co_db := alice_db\<rparr>, ts[i := Register_filter mem_world cfg mem_env alice_reg alice])"
    if "i < length ts" "ts ! i = ?cr" "co_db v = empty_db" for i v ts
    using advance_actions(1) [OF that(1) that(2) [unfolded Register_create_def], of v] race_create that(3) by simp
  have conflict: "advance i (v, ts) = (v\<lparr>co_db := alice_db\<rparr>, ts[i := Ret (RepTokens (Inl (Errorf ''create user: '' e [])))])"
    if "i < length ts" "ts ! i = ?cr" "co_db v = alice_db" for i v ts
    using advance_actions(1) [OF that(1) that(2) [unfolded Register_create_def], of v] no that(3) by simp
  show ?thesis
    by (simp add: race_calls_def thread_of_def look create conflict)
       (simp add: Register_filter_def advance_def filter_add_def resp)
qed

theorem interleaved_effects_witness:
  "\<exists>cfg v' ts. interleave [0, 1, 0, 1, 0, 0] (ss_core mem_state, map (thread_of mem_world cfg) race_calls) = (v', ts) \<and>
     core_tbl mem_rows v' = tab [alice] \<and> core_inv mem_world mem_rows v' \<and> privileged (core_tbl mem_rows v') = {}"
proof -
  obtain cfg :: Config where True by blast
  obtain v' resp e where run: "interleave [0, 1, 0, 1, 0, 0] (ss_core mem_state, map (thread_of mem_world cfg) race_calls) =
      (v', [Ret (RepTokens (Inr resp)), Ret (RepTokens (Inl e))])" and db: "co_db v' = alice_db" using race_run by blast
  have inv: "core_inv mem_world mem_rows (ss_core mem_state)" by (simp add: empty_db_inv)
  have "privileged (core_tbl mem_rows (ss_core mem_state)) = {}" by (simp add: alice_tbl privileged_def)
  with interleaved_effects [OF inv mem_libs_ok run]
  have "core_inv mem_world mem_rows v' \<and> privileged (core_tbl mem_rows v') = {}" by auto
  with run db show ?thesis by (metis alice_tbl(1))
qed

end
