(* ===== verification/Registrations.thy ===== *)
theory Registrations
  imports Interleavings
begin

text \<open>
  Registrations that overlap with each other and with reads. Without updates and deletions the table and
  the filter only grow (\<open>grow\<close>, the rely of every call); a registration is pending, has failed, or has
  written its row and owes the filter its identifiers (\<open>owes\<close>).
\<close>

section \<open>Registrations\<close>

text \<open>A registration that has not written its row.\<close>

definition reg_pending ::
    "('d, 'c, 'b, 'x, 'k, 'l) world_libs \<Rightarrow> Config \<Rightarrow> env \<Rightarrow> RegisterRequest \<Rightarrow> ('d, 'c, 'b, 'x, 'k) call_thread \<Rightarrow> bool" where
  "reg_pending W cfg E req t \<longleftrightarrow>
     t = Register_thread W cfg E req \<or>
     (\<exists>h. Hash (lib_bcrypt (wl_libs W)) (env_salt E) (reg_Password req) = Inr h \<and> t = Register_create W cfg E req h)"

text \<open>Its next action fails, leaves the table alone and goes on, or writes the row.\<close>

lemma reg_pending_step:
  assumes L: "libs_ok W sig" and inv: "core_inv W rows v" and p: "reg_pending W cfg E req (Act f)"
    and f: "f v = (v', t)"
  shows "core_inv W rows v' \<and> co_redis v' = co_redis v \<and> co_filter v' = co_filter v \<and>
    (core_tbl rows v' = core_tbl rows v \<and> (reg_pending W cfg E req t \<or> (\<exists>e. t = Ret (RepTokens (Inl e)))) \<or>
     (\<exists>row u resp. registered (lib_bcrypt (wl_libs W)) (env_salt E) req row \<and> core_tbl rows v (usr_ID row) = None \<and>
        core_tbl rows v' = (core_tbl rows v)(usr_ID row \<mapsto> row) \<and> t = Register_filter W cfg E req u \<and>
        authService_generateTokenPair (wl_libs W) (deps_AuthService W cfg) E u = Inr resp))"
proof -
  consider (start) "Act f = Register_thread W cfg E req"
    | (create) h where "Hash (lib_bcrypt (wl_libs W)) (env_salt E) (reg_Password req) = Inr h" "Act f = Register_create W cfg E req h"
    using p by (auto simp: reg_pending_def)
  then show ?thesis
  proof cases
    case start
    obtain r d where q: "UserRepositoryImpl_GetByEmail (wl_gorm W) background (co_db v) (reg_Email req) = (r, d)" by force
    from impl_GetByEmail [OF inv q] start f q show ?thesis
      by (auto simp: Register_thread_def db_call_def reg_pending_def split: sum.splits if_splits)
  next
    case create
    obtain err u d where q: "repo_Create (NewUserRepository (wl_gorm W)) background (co_db v) (new_user req) h = ((err, u), d)"
      by (metis surj_pair)
    note C = new_user_created [OF L inv create(1) q, of cfg]
    have v': "v' = v\<lparr>co_db := d\<rparr>" and t: "t = (case err of None \<Rightarrow> Register_filter W cfg E req u
        | Some e \<Rightarrow> Ret (RepTokens (Inl (Errorf ''create user: '' e []))))"
      using create(2) f q by (simp_all add: Register_create_def db_call_def)
    show ?thesis
    proof (cases err)
      case None
      with C obtain row resp where "registered (lib_bcrypt (wl_libs W)) (env_salt E) req row" "core_tbl rows v (usr_ID row) = None"
        "db_tbl rows background d = (core_tbl rows v)(usr_ID row \<mapsto> row)" "db_inv (wl_gorm W) rows d"
        "authService_generateTokenPair (wl_libs W) (deps_AuthService W cfg) E u = Inr resp" by auto
      with None v' t show ?thesis
        by (intro conjI disjI2 exI [of _ row] exI [of _ u] exI [of _ resp]) simp_all
    qed (use C v' t in simp)
  qed
qed

lemma reg_pending_start: "reg_pending W cfg E req (Register_thread W cfg E req)"
  by (simp add: reg_pending_def)

lemma reg_pending_Ret [simp]: "\<not> reg_pending W cfg E req (Ret r)"
  by (simp add: reg_pending_def Register_thread_def Register_create_def db_call_def)

text \<open>
  What runs without updates and deletions give each other: the table and the filter only grow, and the
  cache stays coherent.
\<close>

definition grow ::
    "('d, 'c, 'b, 'x, 'k, 'l) world_libs \<Rightarrow> 'd rows \<Rightarrow> 'c kv \<Rightarrow> ('d, 'c, 'b, 'x, 'k) core \<Rightarrow> ('d, 'c, 'b, 'x, 'k) core \<Rightarrow> bool" where
  "grow W rows kv v v' \<longleftrightarrow>
     core_inv W rows v' \<and> redis_ok (wl_redis W) kv \<and> coherent (core_tbl rows v') (may_user kv (co_redis v')) \<and>
     core_tbl rows v \<subseteq>\<^sub>m core_tbl rows v' \<and>
     Filter_Contains (lib_bloom (wl_libs W)) (co_filter v) \<le> Filter_Contains (lib_bloom (wl_libs W)) (co_filter v')"

lemma rely_grow: "rely (grow W rows kv)"
  by (auto simp: rely_def transp_def grow_def intro: map_le_trans order_trans)

lemma grow_refl: "grow W rows kv v v' \<Longrightarrow> grow W rows kv v' v'"
  by (simp add: grow_def)

lemma grow_ran: "grow W rows kv v v' \<Longrightarrow> row \<in> ran (core_tbl rows v) \<Longrightarrow> row \<in> ran (core_tbl rows v')"
  unfolding grow_def ran_def by (auto dest: map_le_upd_drop)

definition covered :: "('d, 'c, 'b, 'x, 'k, 'l) world_libs \<Rightarrow> ('d, 'c, 'b, 'x, 'k) core \<Rightarrow> User \<Rightarrow> bool" where
  "covered W v row \<longleftrightarrow>
     Filter_Contains (lib_bloom (wl_libs W)) (co_filter v) (''email:'' @ usr_Email row) \<and>
     Filter_Contains (lib_bloom (wl_libs W)) (co_filter v) (''username:'' @ usr_Username row)"

lemma covered_grow: "grow W rows kv v v' \<Longrightarrow> covered W v row \<Longrightarrow> covered W v' row"
  by (auto simp: grow_def covered_def le_fun_def)

text \<open>The thread puts the row's identifiers into the filter before it returns.\<close>

definition owes ::
    "('d, 'c, 'b, 'x, 'k, 'l) world_libs \<Rightarrow> 'd rows \<Rightarrow> 'c kv \<Rightarrow> User \<Rightarrow> ('d, 'c, 'b, 'x, 'k) core
     \<Rightarrow> ('d, 'c, 'b, 'x, 'k) call_thread \<Rightarrow> bool" where
  "owes W rows kv row = rg (grow W rows kv) (\<lambda>_ _ _. True) (\<lambda>_ v. covered W v row)"

definition grow_guar ::
    "('d, 'c, 'b, 'x, 'k, 'l) world_libs \<Rightarrow> 'd rows \<Rightarrow> 'c kv \<Rightarrow> ('d, 'c, 'b, 'x, 'k) core \<Rightarrow> ('d, 'c, 'b, 'x, 'k) core
     \<Rightarrow> ('d, 'c, 'b, 'x, 'k) call_thread \<Rightarrow> bool" where
  "grow_guar W rows kv v v' t \<longleftrightarrow>
     grow W rows kv v v' \<and> (\<forall>row \<in> ran (core_tbl rows v'). row \<in> ran (core_tbl rows v) \<or> owes W rows kv row v' t)"

abbreviation grow_rg ::
    "('d, 'c, 'b, 'x, 'k, 'l) world_libs \<Rightarrow> 'd rows \<Rightarrow> 'c kv \<Rightarrow> ('d, 'c, 'b, 'x, 'k) core \<Rightarrow> ('d, 'c, 'b, 'x, 'k) call_thread \<Rightarrow> bool" where
  "grow_rg W rows kv \<equiv> rg (grow W rows kv) (grow_guar W rows kv) (\<lambda>_ _. True)"

text \<open>Actions that leave the table alone.\<close>

lemma grow_guar_same:
  assumes "grow W rows kv v v" "core_inv W rows v'" "core_tbl rows v' = core_tbl rows v"
    "coherent (core_tbl rows v) (may_user kv (co_redis v'))"
    "Filter_Contains (lib_bloom (wl_libs W)) (co_filter v) \<le> Filter_Contains (lib_bloom (wl_libs W)) (co_filter v')"
  shows "grow_guar W rows kv v v' t"
  using assms by (simp add: grow_guar_def grow_def)

lemma grow_guar_db:
  assumes "grow W rows kv v v" "db_inv (wl_gorm W) rows d" "db_tbl rows background d = core_tbl rows v"
  shows "grow_guar W rows kv v (v\<lparr>co_db := d\<rparr>) t"
  by (rule grow_guar_same [OF assms(1)]) (use assms in \<open>simp_all add: grow_def\<close>)

lemma grow_guar_filter:
  assumes "bloom_ok (lib_bloom (wl_libs W))" "grow W rows kv v v"
  shows "grow_guar W rows kv v (v\<lparr>co_filter := Filter_Add (lib_bloom (wl_libs W)) (co_filter v) item\<rparr>) t"
  by (rule grow_guar_same [OF assms(2)])
     (use assms filter.contains_keep [OF assms(1)] in \<open>auto simp: grow_def le_fun_def\<close>)

lemma grow_guar_set:
  assumes "grow W rows kv v v" "u \<in> ran (core_tbl rows v)"
    "key \<in> {userIDCacheKey (usr_ID u), userEmailCacheKey (usr_Email u), userUsernameCacheKey (usr_Username u)}"
  shows "grow_guar W rows kv v (v\<lparr>co_redis := cacheSet (wl_redis W) (co_redis v) key (u\<lparr>usr_Password := []\<rparr>) ttl\<rparr>) t"
proof (rule grow_guar_same [OF assms(1)])
  from assms(1) have R: "redis_ok (wl_redis W) kv" and coh: "coherent (core_tbl rows v) (may_user kv (co_redis v))"
    and inv: "core_inv W rows v" by (simp_all add: grow_def)
  have "utf8_User u" using assms(2) db_inv_wf [OF inv, of background] by (auto simp: ran_def dest: table_wf_utf8)
  then have "stored_User (u\<lparr>usr_Password := []\<rparr>) = safe_User u"
    by (simp add: stored_User_utf8 [symmetric] stored_User_def)
  moreover have "entry_ok (core_tbl rows v) key (safe_User u)"
    using assms(2,3) by (auto simp: entry_ok_def intro!: bexI [of _ u])
  ultimately show "coherent (core_tbl rows v) (may_user kv (co_redis
      (v\<lparr>co_redis := cacheSet (wl_redis W) (co_redis v) key (u\<lparr>usr_Password := []\<rparr>) ttl\<rparr>)))"
    using coh unfolding coherent_def by (auto dest!: cacheSet_may [OF R])
qed (use assms(1) in \<open>simp_all add: grow_def\<close>)

lemma owes_filter:
  assumes B: "bloom_ok (lib_bloom (wl_libs W))" and row: "usr_Email row = reg_Email req" "usr_Username row = reg_Username req"
  shows "owes W rows kv row v (Register_filter W cfg E req u)"
  unfolding owes_def Register_filter_def
proof (rule rg_filter_add, intro conjI TrueI, rule rg_filter_add, intro conjI TrueI, unfold rg_Ret_iff, intro allI impI)
  fix v1 v2 v3
  let ?B = "lib_bloom (wl_libs W)"
  assume "grow W rows kv (v1\<lparr>co_filter := Filter_Add ?B (co_filter v1) (''email:'' @ reg_Email req)\<rparr>) v2"
    and "grow W rows kv (v2\<lparr>co_filter := Filter_Add ?B (co_filter v2) (''username:'' @ reg_Username req)\<rparr>) v3"
  then show "covered W v3 row"
    using filter.contains_add [OF B] filter.contains_keep [OF B] by (auto simp: grow_def covered_def row le_fun_def)
qed

lemma reg_pending_guar:
  assumes L: "libs_ok W sig" and g: "grow W rows kv v v" and p: "reg_pending W cfg E req (Act f)"
  shows "grow_guar W rows kv v (fst (f v)) (snd (f v))"
proof -
  obtain v' t where f: "f v = (v', t)" by force
  from g have inv: "core_inv W rows v" by (simp add: grow_def)
  from L have B: "bloom_ok (lib_bloom (wl_libs W))" by (simp add: libs_ok_def)
  from reg_pending_step [OF L inv p f]
  consider (same) "core_inv W rows v'" "co_redis v' = co_redis v" "co_filter v' = co_filter v" "core_tbl rows v' = core_tbl rows v"
    | (new) row u where "core_inv W rows v'" "co_redis v' = co_redis v" "co_filter v' = co_filter v"
        "registered (lib_bcrypt (wl_libs W)) (env_salt E) req row" "core_tbl rows v (usr_ID row) = None"
        "core_tbl rows v' = (core_tbl rows v)(usr_ID row \<mapsto> row)" "t = Register_filter W cfg E req u" by blast
  then show ?thesis
  proof cases
    case same
    have "grow_guar W rows kv v v' t" by (rule grow_guar_same [OF g]) (use g same in \<open>simp_all add: grow_def\<close>)
    then show ?thesis by (simp add: f)
  next
    case new
    have "grow W rows kv v v'"
      using g new coherent_add [of "core_tbl rows v" _ "usr_ID row" row] by (auto simp: grow_def map_le_def)
    moreover have "owes W rows kv row v' t"
      unfolding new(7) by (rule owes_filter [OF B]) (use new(4) in \<open>simp_all add: registered_def\<close>)
    ultimately show ?thesis using new(5,6) by (auto simp: f grow_guar_def ran_map_upd)
  qed
qed

lemma reg_pending_db:
  assumes "reg_pending W cfg E req (db_call query k)" "libs_ok W sig" "grow W rows kv v v" "query (co_db v) = (a, d)"
  shows "grow_guar W rows kv v (v\<lparr>co_db := d\<rparr>) (k a)"
  using reg_pending_guar [OF assms(2,3) assms(1) [unfolded db_call_def]] assms(4) by simp

lemma grow_Register:
  assumes L: "libs_ok W sig"
  shows "grow_rg W rows kv v (Register_thread W cfg E req)"
proof -
  from L have B: "bloom_ok (lib_bloom (wl_libs W))" by (simp add: libs_ok_def)
  have filter: "grow_rg W rows kv v (Register_filter W cfg E req u)" for u v
    unfolding Register_filter_def
    by (intro rg_filter_add conjI) (auto intro: grow_guar_filter [OF B] grow_refl)
  have create: "grow_rg W rows kv v (Register_create W cfg E req h)"
    if "Hash (lib_bcrypt (wl_libs W)) (env_salt E) (reg_Password req) = Inr h" for v h
  proof -
    from that have "reg_pending W cfg E req (Register_create W cfg E req h)" by (simp add: reg_pending_def)
    note G = reg_pending_db [OF this [unfolded Register_create_def] L grow_refl]
    show ?thesis
      unfolding Register_create_def by (rule rg_db_call, rule conjI, erule G) (auto simp: filter split: prod.split option.split)
  qed
  note G = reg_pending_db [OF reg_pending_start [unfolded Register_thread_def] L grow_refl]
  show ?thesis
    unfolding Register_thread_def by (rule rg_db_call, rule conjI, erule G) (auto simp: create split: sum.split)
qed

lemma grow_set:
  assumes "u \<in> ran (core_tbl rows v)"
    "key \<in> {userIDCacheKey (usr_ID u), userEmailCacheKey (usr_Email u), userUsernameCacheKey (usr_Username u)}"
    "\<And>v. u \<in> ran (core_tbl rows v) \<Longrightarrow> grow_rg W rows kv v t"
  shows "grow_rg W rows kv v (redis_do (\<lambda>c. cacheSet (wl_redis W) c key (u\<lparr>usr_Password := []\<rparr>) ttl) t)"
proof (rule rg_redis_do)
  fix v' assume g: "grow W rows kv v v'"
  with assms(1) have u: "u \<in> ran (core_tbl rows v')" by (rule grow_ran [rotated])
  with grow_guar_set [OF grow_refl [OF g] _ assms(2)] assms(3)
  show "grow_guar W rows kv v' (v'\<lparr>co_redis := cacheSet (wl_redis W) (co_redis v') key (u\<lparr>usr_Password := []\<rparr>) ttl\<rparr>) t \<and>
    grow_rg W rows kv (v'\<lparr>co_redis := cacheSet (wl_redis W) (co_redis v') key (u\<lparr>usr_Password := []\<rparr>) ttl\<rparr>) t" by simp
qed

lemma grow_lookup:
  assumes query: "\<And>d r d'. db_inv (wl_gorm W) rows d \<Longrightarrow> query d = (r, d') \<Longrightarrow>
      db_inv (wl_gorm W) rows d' \<and> db_tbl rows background d' = db_tbl rows background d \<and>
      (\<forall>u. r = Inr u \<longrightarrow> u \<in> ran (db_tbl rows background d))"
    and k: "\<And>v r. grow_rg W rows kv v (k r)"
  shows "grow_rg W rows kv v (lookup_thread (wl_redis W) ttl key query k)"
proof -
  have get: "grow_guar W rows kv v (v\<lparr>co_redis := c\<rparr>) t"
    if g: "grow W rows kv v v" and "RedisCache_Get (wl_redis W) unmarshal_User (co_redis v) key = (a, c)" for v a c t
  proof (rule grow_guar_same [OF g])
    have "may_user kv c k w \<Longrightarrow> may_user kv (co_redis v) k w" for k w
      using redis.get_keeps [OF conjI [OF _ codec_User] that(2)] g by (auto simp: grow_def)
    then show "coherent (core_tbl rows v) (may_user kv (co_redis (v\<lparr>co_redis := c\<rparr>)))"
      using g coherent_mono by (simp add: grow_def) blast
  qed (use g in \<open>simp_all add: grow_def\<close>)
  have set: "grow_rg W rows kv v (cacheUser_thread (wl_redis W) ttl u (k r))" if "u \<in> ran (core_tbl rows v)" for v u r
    using that k unfolding cacheUser_thread_def Let_def by (auto intro!: grow_set)
  have db: "grow_guar W rows kv v (v\<lparr>co_db := d\<rparr>) t \<and> (\<forall>u. r = Inr u \<longrightarrow> u \<in> ran (core_tbl rows (v\<lparr>co_db := d\<rparr>)))"
    if g: "grow W rows kv v v" and "query (co_db v) = (r, d)" for v r d t
    using query [OF _ that(2)] g grow_guar_db [OF g, of d t] by (simp add: grow_def)
  have under: "grow_rg W rows kv v (db_call query
      (\<lambda>r. case r of Inl e \<Rightarrow> k (Inl e) | Inr user \<Rightarrow> cacheUser_thread (wl_redis W) ttl user (k (Inr user))))" for v
    by (rule rg_db_call) (use db grow_refl k set in \<open>fastforce split: sum.split\<close>)
  show ?thesis
    unfolding lookup_thread_def
    by (rule rg_redis_call) (use get grow_refl k under in \<open>fastforce split: sum.split\<close>)
qed

lemma grow_rates:
  assumes k: "\<And>v r. grow_rg W rows kv v (k r)"
  shows "grow_rg W rows kv v (rates_thread W cfg base k)"
proof -
  let ?key = "ratesCacheKey (wl_uni W) base"
  have redis: "grow_guar W rows kv v (v\<lparr>co_redis := c\<rparr>) t"
    if "grow W rows kv v v" "coherent (core_tbl rows v) (may_user kv c)" for v c t
    by (rule grow_guar_same [OF that(1)]) (use that in \<open>simp_all add: grow_def\<close>)
  have api: "grow_guar W rows kv v (v\<lparr>co_api := x\<rparr>) t" if "grow W rows kv v v" for v x t
    by (rule grow_guar_same [OF that]) (use that in \<open>simp_all add: grow_def\<close>)
  have store: "grow_rg W rows kv v (redis_do (\<lambda>c. snd (RedisCache_Set (wl_redis W) marshal_float_map c ?key rs (cfg_CacheTTL cfg))) (k r))"
    for v rs r
    by (rule rg_redis_do) (auto simp: grow_def k intro!: redis rates_set_coherent)
  have ask: "grow_rg W rows kv v (api_call (\<lambda>x. HTTPClient_GetRates (wl_uni W) (wl_api W) x base) (\<lambda>r. case r of
      Inl e \<Rightarrow> k (Inl e)
    | Inr rates \<Rightarrow> redis_do (\<lambda>c. snd (RedisCache_Set (wl_redis W) marshal_float_map c ?key rates (cfg_CacheTTL cfg))) (k (Inr rates))))" for v
    by (rule rg_api_call) (auto simp: k store intro!: api dest: grow_refl split: sum.split)
  show ?thesis
    unfolding rates_thread_def Let_def
    by (rule rg_redis_call) (auto simp: k ask grow_def intro!: redis elim: rates_get_coherent split: sum.split)
qed

lemma grow_available:
  assumes query: "\<And>d r d'. db_inv (wl_gorm W) rows d \<Longrightarrow> query d = (r, d') \<Longrightarrow>
      db_inv (wl_gorm W) rows d' \<and> db_tbl rows background d' = db_tbl rows background d \<and>
      (\<forall>u. r = Inr u \<longrightarrow> u \<in> ran (db_tbl rows background d))"
    and k: "\<And>v b. grow_rg W rows kv v (k b)"
  shows "grow_rg W rows kv v (available_thread B (wl_redis W) ttl x item msg key query k)"
proof -
  have test: "grow_guar W rows kv v v t" if "grow W rows kv v v" for v t
    by (rule grow_guar_same [OF that]) (use that in \<open>simp_all add: grow_def\<close>)
  have look: "grow_rg W rows kv v (lookup_thread (wl_redis W) ttl key query (\<lambda>r. case r of
      Inr _ \<Rightarrow> k False | Inl e \<Rightarrow> if \<not> errors_Is e ErrNotFound then Ret (RepCheck (Inl (Errorf msg e []))) else k True))" for v
    by (rule grow_lookup [OF query]) (auto simp: k split: sum.split)
  show ?thesis
    unfolding available_thread_def using k by (auto intro!: rg_filter_test test grow_refl look)
qed

definition keeps_call :: "service_call \<Rightarrow> bool" where
  "keeps_call call = (case call of CallUpdate _ _ \<Rightarrow> False | CallDelete _ \<Rightarrow> False | _ \<Rightarrow> True)"

text \<open>The calls that are one action read the table or leave it alone.\<close>

definition reading_call :: "service_call \<Rightarrow> bool" where
  "reading_call call =
     (case call of CallLogin _ _ \<Rightarrow> True | CallRefresh _ _ \<Rightarrow> True | CallProfile _ \<Rightarrow> True | CallList _ _ \<Rightarrow> True
      | CallPublish _ _ _ \<Rightarrow> True | _ \<Rightarrow> False)"

lemma reading_call_same:
  assumes L: "libs_ok W sig" and inv: "core_inv W rows v" and call: "reading_call call" and res: "atomic_call W cfg call v = (r, w)"
  shows "core_inv W rows w \<and> core_tbl rows w = core_tbl rows v \<and> co_redis w = co_redis v \<and> co_filter w = co_filter v"
proof -
  from L have J: "jwt_ok (lib_jwt (wl_libs W)) sig" by (simp add: libs_ok_def)
  have auth: ?thesis if "w = with_auth v (d, f)" "db_inv (wl_gorm W) rows d" "db_tbl rows background d = core_tbl rows v"
      "f = Some (co_filter v)" for d f
    using that by (simp add: with_auth_def)
  show ?thesis
  proof (cases call)
    case (CallLogin E req)
    with res obtain r0 d f where q: "authService_Login (wl_libs W) (deps_AuthService W cfg) E background
        (co_db v, Some (co_filter v)) req = (r0, (d, f))" and "w = with_auth v (d, f)"
      by (auto simp: atomic_call_def Let_def split: prod.splits)
    with impl.Login_spec [OF inv deps_AuthService_repo J q] auth show ?thesis by simp
  next
    case (CallRefresh E tok)
    with res obtain r0 d f where q: "authService_RefreshToken (wl_libs W) (deps_AuthService W cfg) E background
        (co_db v, Some (co_filter v)) tok = (r0, (d, f))" and "w = with_auth v (d, f)"
      by (auto simp: atomic_call_def Let_def split: prod.splits)
    with impl.RefreshToken_spec [OF inv deps_AuthService_repo J q] auth show ?thesis by simp
  next
    case (CallProfile i)
    with res obtain r0 d f where q: "authService_GetProfile (deps_AuthService W cfg) background
        (co_db v, Some (co_filter v)) i = (r0, (d, f))" and "w = with_auth v (d, f)"
      by (auto simp: atomic_call_def Let_def split: prod.splits)
    with impl.GetProfile_spec [OF inv deps_AuthService_repo q] auth show ?thesis by simp
  next
    case (CallList off lim)
    obtain r0 d where q: "UserRepositoryImpl_List (wl_gorm W) background (co_db v) off lim = (r0, d)" by force
    with CallList res have "w = v\<lparr>co_db := d\<rparr>"
      by (auto simp: atomic_call_def userServiceImpl_List_def deps_UserSvc_eq CachingUserRepository_List_def Let_def split: sum.splits)
    with impl_List [OF inv q] show ?thesis by simp
  next
    case (CallPublish now uuid event)
    with res inv show ?thesis by (auto simp: atomic_call_def Let_def split: prod.splits)
  qed (use call in \<open>simp_all add: reading_call_def\<close>)
qed

lemma grow_reading:
  assumes L: "libs_ok W sig" and "reading_call call"
  shows "grow_rg W rows kv v (service_action (atomic_call W cfg call))"
proof (rule rg_service_action)
  fix v' r w assume g: "grow W rows kv v v'" and "atomic_call W cfg call v' = (r, w)"
  with reading_call_same [OF L _ assms(2)] have "core_inv W rows w \<and> core_tbl rows w = core_tbl rows v' \<and>
      co_redis w = co_redis v' \<and> co_filter w = co_filter v'" by (auto simp: grow_def)
  then show "grow_guar W rows kv v' w (Ret r) \<and> (\<forall>w'. grow W rows kv w w' \<longrightarrow> True)"
    using g by (auto intro!: grow_guar_same grow_refl simp: grow_def)
qed

lemma grow_thread_of:
  assumes L: "libs_ok W sig" and call: "keeps_call call"
  shows "grow_rg W rows kv v (thread_of W cfg call)"
proof (cases call)
  case (CallRegister E req)
  then show ?thesis by (simp add: thread_of_def grow_Register [OF L])
next
  case (CallCheck email username)
  show ?thesis
    unfolding CallCheck thread_of_def service_call.case Check_thread_def
    by (intro grow_available; auto simp: lookup_ok_def dest!: impl_GetByEmail [rotated] impl_GetByUsername [rotated])
next
  case (CallConvert req)
  show ?thesis
    unfolding CallConvert thread_of_def service_call.case Convert_thread_def Let_def
    by (rule grow_rates) (auto split: sum.split option.split)
next
  case (CallRates base)
  show ?thesis unfolding CallRates thread_of_def service_call.case Rates_thread_def by (rule grow_rates) simp
qed (use call grow_reading [OF L, of call] in \<open>simp_all add: thread_of_def reading_call_def keeps_call_def\<close>)

section \<open>One account per identifier\<close>

abbreviation succeeded :: "reply \<Rightarrow> bool" where
  "succeeded rep \<equiv> \<exists>resp. rep = RepTokens (Inr resp)"

text \<open>A registration that has written its row, and will return tokens.\<close>

definition reg_won ::
    "('d, 'c, 'b, 'x, 'k, 'l) world_libs \<Rightarrow> 'd rows \<Rightarrow> 'c kv \<Rightarrow> RegisterRequest \<Rightarrow> ('d, 'c, 'b, 'x, 'k) core
     \<Rightarrow> ('d, 'c, 'b, 'x, 'k) call_thread \<Rightarrow> bool" where
  "reg_won W rows kv req v t \<longleftrightarrow>
     rg (grow W rows kv) (\<lambda>_ _ _. True) (\<lambda>r _. succeeded r) v t \<and>
     (\<exists>row \<in> ran (core_tbl rows v). usr_Email row = reg_Email req \<and> usr_Username row = reg_Username req)"

lemma transp_grow: "transp (grow W rows kv)"
  using rely_grow [of W rows kv] by (simp add: rely_def)

lemma reg_won_stable:
  assumes g: "grow W rows kv v v'" and won: "reg_won W rows kv req v t"
  shows "reg_won W rows kv req v' t"
  using won rg_stable [OF transp_grow _ g] grow_ran [OF g] unfolding reg_won_def by blast

lemma reg_won_step:
  assumes "grow W rows kv v v" and g: "grow W rows kv v (fst (f v))" and won: "reg_won W rows kv req v (Act f)"
  shows "reg_won W rows kv req (fst (f v)) (snd (f v))"
  using won assms(1) grow_ran [OF g] unfolding reg_won_def rg_Act_iff by blast

lemma reg_won_filter:
  assumes "authService_generateTokenPair (wl_libs W) (deps_AuthService W cfg) E u = Inr resp"
    and "row \<in> ran (core_tbl rows v)" "usr_Email row = reg_Email req" "usr_Username row = reg_Username req"
  shows "reg_won W rows kv req v (Register_filter W cfg E req u)"
  using assms unfolding reg_won_def Register_filter_def by (auto intro!: rg_filter_add)

text \<open>
  The state of a registration, \<open>b\<close> telling whether it has written its row. In a pool, those that have
  (\<open>S\<close>) have no identifier in common.
\<close>

definition reg_state ::
    "('d, 'c, 'b, 'x, 'k, 'l) world_libs \<Rightarrow> 'd rows \<Rightarrow> 'c kv \<Rightarrow> Config \<Rightarrow> bool \<Rightarrow> service_call \<Rightarrow> ('d, 'c, 'b, 'x, 'k) core
     \<Rightarrow> ('d, 'c, 'b, 'x, 'k) call_thread \<Rightarrow> bool" where
  "reg_state W rows kv cfg b call v t =
     (case call of
        CallRegister E req \<Rightarrow>
          if b then reg_won W rows kv req v t else reg_pending W cfg E req t \<or> (\<exists>e. t = Ret (RepTokens (Inl e)))
      | _ \<Rightarrow> True)"

definition same_ids :: "service_call \<Rightarrow> service_call \<Rightarrow> bool" where
  "same_ids c c' =
     (case (c, c') of
        (CallRegister _ req, CallRegister _ req') \<Rightarrow> reg_Email req = reg_Email req' \<or> reg_Username req = reg_Username req'
      | _ \<Rightarrow> False)"

definition reg_pool ::
    "('d, 'c, 'b, 'x, 'k, 'l) world_libs \<Rightarrow> 'd rows \<Rightarrow> 'c kv \<Rightarrow> Config \<Rightarrow> service_call list \<Rightarrow> ('d, 'c, 'b, 'x, 'k) core
     \<Rightarrow> ('d, 'c, 'b, 'x, 'k) call_thread list \<Rightarrow> bool" where
  "reg_pool W rows kv cfg calls v ts \<longleftrightarrow>
     length ts = length calls \<and>
     (\<exists>S. S \<subseteq> {..< length calls} \<and> (\<forall>i < length calls. reg_state W rows kv cfg (i \<in> S) (calls ! i) v (ts ! i)) \<and>
          (\<forall>i \<in> S. \<forall>j \<in> S. i \<noteq> j \<longrightarrow> \<not> same_ids (calls ! i) (calls ! j)))"

lemma same_ids_sym: "same_ids c c' = same_ids c' c"
  by (auto simp: same_ids_def split: service_call.splits)

lemma reg_state_stable:
  "grow W rows kv v v' \<Longrightarrow> reg_state W rows kv cfg b call v t \<Longrightarrow> reg_state W rows kv cfg b call v' t"
  by (auto simp: reg_state_def reg_won_stable split: service_call.splits if_splits)

text \<open>A new row has no identifier of an old one.\<close>

lemma new_row_distinct:
  assumes wf: "table_wf (m(usr_ID row \<mapsto> row))" and fresh: "m (usr_ID row) = None" and old: "row' \<in> ran m"
  shows "usr_Email row' \<noteq> usr_Email row \<and> usr_Username row' \<noteq> usr_Username row"
proof -
  from old obtain j where j: "m j = Some row'" by (auto simp: ran_def)
  with fresh have "j \<noteq> usr_ID row" by auto
  with j table_wf_email [OF wf, of j row' "usr_ID row" row] table_wf_username [OF wf, of j row' "usr_ID row" row] show ?thesis by auto
qed

lemma reg_state_step:
  assumes L: "libs_ok W sig" and g: "grow W rows kv v v" "grow W rows kv v (fst (f v))"
    and st: "reg_state W rows kv cfg b call v (Act f)"
  shows "reg_state W rows kv cfg b call (fst (f v)) (snd (f v)) \<or>
    (\<exists>E req. call = CallRegister E req \<and> reg_state W rows kv cfg True call (fst (f v)) (snd (f v)) \<and>
       (\<forall>row \<in> ran (core_tbl rows v). usr_Email row \<noteq> reg_Email req \<and> usr_Username row \<noteq> reg_Username req))"
proof (cases "(\<exists>E req. call = CallRegister E req) \<and> \<not> b")
  case False
  with st reg_won_step [of W rows kv v f] g show ?thesis
    by (auto simp: reg_state_def split: service_call.splits if_splits)
next
  case True
  then obtain E req where call: "call = CallRegister E req" and "\<not> b" by blast
  with st have p: "reg_pending W cfg E req (Act f)" by (simp add: reg_state_def)
  obtain v' t where f: "f v = (v', t)" by force
  from g have inv: "core_inv W rows v" by (simp add: grow_def)
  from reg_pending_step [OF L inv p f]
  consider (same) "reg_pending W cfg E req t \<or> (\<exists>e. t = Ret (RepTokens (Inl e)))"
    | (new) row u resp where "core_inv W rows v'" "registered (lib_bcrypt (wl_libs W)) (env_salt E) req row" "core_tbl rows v (usr_ID row) = None"
        "core_tbl rows v' = (core_tbl rows v)(usr_ID row \<mapsto> row)" "t = Register_filter W cfg E req u"
        "authService_generateTokenPair (wl_libs W) (deps_AuthService W cfg) E u = Inr resp" by blast
  then show ?thesis
  proof cases
    case same
    with call \<open>\<not> b\<close> f show ?thesis by (simp add: reg_state_def)
  next
    case new
    from new(2) have ids: "usr_Email row = reg_Email req" "usr_Username row = reg_Username req" by (simp_all add: registered_def)
    have "row \<in> ran (core_tbl rows v')" by (simp add: new(3,4) ran_map_upd)
    from reg_won_filter [OF new(6) this ids, of kv] have "reg_state W rows kv cfg True call v' t"
      by (simp add: reg_state_def call new(5))
    moreover have "table_wf ((core_tbl rows v)(usr_ID row \<mapsto> row))"
      using db_inv_wf [OF new(1), of background] new(4) by simp
    from new_row_distinct [OF this new(3)] have "\<forall>row \<in> ran (core_tbl rows v). usr_Email row \<noteq> reg_Email req \<and> usr_Username row \<noteq> reg_Username req"
      by (simp add: ids)
    ultimately show ?thesis using call f by simp
  qed
qed

lemma reg_pool_step:
  assumes L: "libs_ok W sig" and pool: "reg_pool W rows kv cfg calls v ts" and g: "grow W rows kv v v"
    and i: "i < length ts" "ts ! i = Act f" and guar: "grow W rows kv v (fst (f v))"
  shows "reg_pool W rows kv cfg calls (fst (f v)) (ts[i := snd (f v)])"
proof -
  let ?st = "\<lambda>b j. reg_state W rows kv cfg b (calls ! j)" and ?v = "fst (f v)" and ?t = "snd (f v)"
  from pool obtain S where len: "length ts = length calls" and S: "S \<subseteq> {..< length calls}"
    and st: "\<And>j. j < length calls \<Longrightarrow> ?st (j \<in> S) j v (ts ! j)"
    and dis: "\<And>j k. j \<in> S \<Longrightarrow> k \<in> S \<Longrightarrow> j \<noteq> k \<Longrightarrow> \<not> same_ids (calls ! j) (calls ! k)"
    unfolding reg_pool_def by blast
  have oth: "?st (j \<in> S) j ?v (ts[i := ?t] ! j)" if "j < length calls" "j \<noteq> i" for j
    using reg_state_stable [OF guar st [OF that(1)]] that(2) by simp
  from st [of i] i len have "?st (i \<in> S) i v (Act f)" by simp
  from reg_state_step [OF L g guar this] show ?thesis
  proof (elim disjE exE conjE)
    assume "?st (i \<in> S) i ?v ?t"
    then have "?st (j \<in> S) j ?v (ts[i := ?t] ! j)" if "j < length calls" for j
      using oth [OF that] i(1) by (cases "j = i") simp_all
    with len S dis show ?thesis unfolding reg_pool_def by (intro conjI exI [of _ S] allI impI) simp_all
  next
    fix E req
    assume c: "calls ! i = CallRegister E req" and won: "?st True i ?v ?t"
      and no: "\<forall>row \<in> ran (core_tbl rows v). usr_Email row \<noteq> reg_Email req \<and> usr_Username row \<noteq> reg_Username req"
    have new: "\<not> same_ids (calls ! j) (calls ! i)" if "j \<in> S" "j \<noteq> i" for j
      using st [of j] that S no c by (auto simp: same_ids_def reg_state_def reg_won_def split: service_call.splits)
    have "?st (j \<in> insert i S) j ?v (ts[i := ?t] ! j)" if "j < length calls" for j
      using won oth [OF that] i(1) by (cases "j = i") simp_all
    moreover have "\<forall>j \<in> insert i S. \<forall>k \<in> insert i S. j \<noteq> k \<longrightarrow> \<not> same_ids (calls ! j) (calls ! k)"
      using dis new same_ids_sym [of "calls ! i"] by blast
    ultimately show ?thesis
      unfolding reg_pool_def using len S i(1) by (intro conjI exI [of _ "insert i S"] allI impI) simp_all
  qed
qed

lemma grow_pool:
  assumes L: "libs_ok W sig" and start: "grow W rows kv v v" and calls: "\<forall>call \<in> set calls. keeps_call call"
    and base: "P v (map (thread_of W cfg) calls)"
    and step: "\<And>v ts i f. P v ts \<Longrightarrow> grow W rows kv v v \<Longrightarrow> i < length ts \<Longrightarrow> ts ! i = Act f \<Longrightarrow>
       grow_guar W rows kv v (fst (f v)) (snd (f v)) \<Longrightarrow> P (fst (f v)) (ts[i := snd (f v)])"
    and run: "interleave sched (v, map (thread_of W cfg) calls) = (v', ts)"
  shows "grow W rows kv v v' \<and> P v' ts"
proof -
  have "rg (grow W rows kv) (grow_guar W rows kv) (\<lambda>_ _. True) v (map (thread_of W cfg) calls ! i)"
    if "i < length (map (thread_of W cfg) calls)" for i
    using that calls grow_thread_of [OF L] by simp
  note rgs = this
  have "grow W rows kv v v' \<and> P v' ts \<and> (\<forall>i < length ts. rg (grow W rows kv) (grow_guar W rows kv) (\<lambda>_ _. True) v' (ts ! i))"
    by (rule interleave_inv [where P = P and R = "grow W rows kv" and G = "grow_guar W rows kv" and Q = "\<lambda>_ _ _. True",
          OF rely_grow _ start rgs base _ run])
       (simp_all add: grow_guar_def [of W rows kv], rule step, simp_all add: grow_guar_def)
  then show ?thesis by blast
qed

text \<open>
  C12. Concurrent registrations do not share an identifier. Among calls that overlap in any way, without
  updates and deletions between them, two registrations with the same e-mail or the same user name do
  not both return tokens, although each may have found the e-mail free; and every registration that
  returned tokens has its row in the table.
\<close>

theorem registered_once:
  assumes "libs_ok W sig" and "redis_ok (wl_redis W) kv" and "core_inv W rows v"
    and "coherent (core_tbl rows v) (may_user kv (co_redis v))"
    and "\<forall>call \<in> set calls. keeps_call call"
    and "interleave sched (v, map (thread_of W cfg) calls) = (v', ts)"
    and "i < length calls" and "calls ! i = CallRegister E req" and "returned (ts ! i) = Some (RepTokens (Inr resp))"
  shows "(\<exists>row \<in> ran (core_tbl rows v'). usr_Email row = reg_Email req \<and> usr_Username row = reg_Username req) \<and>
         (\<forall>j E' req' resp'. j < length calls \<and> j \<noteq> i \<and> calls ! j = CallRegister E' req' \<and>
            (reg_Email req' = reg_Email req \<or> reg_Username req' = reg_Username req) \<longrightarrow>
            returned (ts ! j) \<noteq> Some (RepTokens (Inr resp')))"
proof -
  from assms(2-4) have start: "grow W rows kv v v" by (simp add: grow_def)
  have base: "reg_pool W rows kv cfg calls v (map (thread_of W cfg) calls)"
    unfolding reg_pool_def
    by (intro conjI exI [of _ "{}"]) (auto simp: reg_state_def thread_of_def reg_pending_start split: service_call.split)
  have "grow W rows kv v v' \<and> reg_pool W rows kv cfg calls v' ts"
    by (rule grow_pool [where P = "reg_pool W rows kv cfg calls", OF assms(1) start assms(5) base _ assms(6)])
       (simp add: grow_guar_def reg_pool_step [OF assms(1)])
  then obtain S where g: "grow W rows kv v' v'" and st: "\<And>j. j < length calls \<Longrightarrow> reg_state W rows kv cfg (j \<in> S) (calls ! j) v' (ts ! j)"
    and dis: "\<And>j k. j \<in> S \<Longrightarrow> k \<in> S \<Longrightarrow> j \<noteq> k \<Longrightarrow> \<not> same_ids (calls ! j) (calls ! k)"
    unfolding reg_pool_def using grow_refl by blast
  have inS: "j \<in> S" if "j < length calls" "calls ! j = CallRegister E' req'" "ts ! j = Ret (RepTokens (Inr resp'))" for j E' req' resp'
    using st [OF that(1)] that(2,3) by (auto simp: reg_state_def split: if_splits)
  have iS: "i \<in> S" using inS assms(7-9) by simp
  with st [OF assms(7)] assms(8) have "reg_won W rows kv req v' (ts ! i)" by (simp add: reg_state_def)
  moreover have "False" if "j < length calls" "j \<noteq> i" "calls ! j = CallRegister E' req'" "ts ! j = Ret (RepTokens (Inr resp'))"
      "reg_Email req' = reg_Email req \<or> reg_Username req' = reg_Username req" for j E' req' resp'
    using dis [OF iS inS [OF that(1,3,4)]] that(2,3,5) assms(8) by (auto simp: same_ids_def)
  ultimately show ?thesis by (auto simp: reg_won_def)
qed

section \<open>The filter at rest\<close>

text \<open>Between writing a row and adding it to the filter, a registration owes the filter its identifiers.\<close>

definition filter_pool ::
    "('d, 'c, 'b, 'x, 'k, 'l) world_libs \<Rightarrow> 'd rows \<Rightarrow> 'c kv \<Rightarrow> ('d, 'c, 'b, 'x, 'k) core
     \<Rightarrow> ('d, 'c, 'b, 'x, 'k) call_thread list \<Rightarrow> bool" where
  "filter_pool W rows kv v ts \<longleftrightarrow>
     (\<forall>row \<in> ran (core_tbl rows v). covered W v row \<or> (\<exists>i < length ts. owes W rows kv row v (ts ! i)))"

lemma filter_pool_step:
  assumes pool: "filter_pool W rows kv v ts" and g: "grow W rows kv v v" and i: "i < length ts" "ts ! i = Act f"
    and guar: "grow_guar W rows kv v (fst (f v)) (snd (f v))"
  shows "filter_pool W rows kv (fst (f v)) (ts[i := snd (f v)])"
  unfolding filter_pool_def
proof
  let ?v = "fst (f v)" and ?ts = "ts[i := snd (f v)]"
  fix row assume "row \<in> ran (core_tbl rows ?v)"
  from guar have grown: "grow W rows kv v ?v" by (simp add: grow_guar_def)
  from guar \<open>row \<in> _\<close> pool consider (new) "owes W rows kv row ?v (snd (f v))" | (old) "covered W v row"
    | (owed) j where "j < length ts" "owes W rows kv row v (ts ! j)"
    by (auto simp: grow_guar_def filter_pool_def)
  then show "covered W ?v row \<or> (\<exists>j < length ?ts. owes W rows kv row ?v (?ts ! j))"
  proof cases
    case new
    then show ?thesis using i(1) by auto
  next
    case old
    then show ?thesis using covered_grow [OF grown] by blast
  next
    case owed
    have "owes W rows kv row ?v (?ts ! j)"
    proof (cases "j = i")
      case True
      with owed i g show ?thesis by (simp add: owes_def rg_Act_iff)
    next
      case False
      with owed rg_stable [OF transp_grow _ grown] show ?thesis by (simp add: owes_def)
    qed
    with owed(1) show ?thesis by auto
  qed
qed

text \<open>
  C13. Once every call has returned, the availability check is exact again. From a table that the filter
  covers and a coherent cache, any interleaving of calls other than updates and deletions ends, when
  the last call has returned, with a filter that knows every identifier in the table and a coherent
  cache: a check then says "available" exactly of what no row has.
\<close>

theorem quiescent_availability:
  assumes "libs_ok W sig" and "acct_inv W rows kv v" and "\<forall>call \<in> set calls. keeps_call call"
    and "interleave sched (v, map (thread_of W cfg) calls) = (v', ts)" and "\<forall>t \<in> set ts. returned t \<noteq> None"
    and "atomic_call W cfg (CallCheck email username) v' = (RepCheck r, w)"
  shows "acct_inv W rows kv v' \<and>
         (case r of
            Inr (emailAvail, usernameAvail) \<Rightarrow>
              emailAvail = (email = [] \<or> \<not> email_taken (core_tbl rows v') email) \<and>
              usernameAvail = (username = [] \<or> \<not> username_taken (core_tbl rows v') username)
          | Inl e \<Rightarrow> lib_error e)"
proof
  from assms(2) have start: "grow W rows kv v v" and base: "filter_pool W rows kv v (map (thread_of W cfg) calls)"
    by (auto simp: acct_inv_def cache_inv_def grow_def filter_pool_def covers_def covered_def)
  have "grow W rows kv v v' \<and> filter_pool W rows kv v' ts"
    by (rule grow_pool [where P = "filter_pool W rows kv", OF assms(1) start assms(3) base _ assms(4)]) (rule filter_pool_step)
  then have g: "grow W rows kv v' v'" and pool: "filter_pool W rows kv v' ts" using grow_refl by blast+
  have "covered W v' row" if "row \<in> ran (core_tbl rows v')" for row
  proof -
    have "covered W v' row" if "i < length ts" "owes W rows kv row v' (ts ! i)" for i
    proof -
      from that(1) assms(5) obtain r where "ts ! i = Ret r" by (metis nth_mem not_None_eq returned_Some)
      with that(2) g show ?thesis by (simp add: owes_def)
    qed
    with pool that show ?thesis by (auto simp: filter_pool_def)
  qed
  then have cov: "covers (lib_bloom (wl_libs W)) (co_filter v') (core_tbl rows v')"
    by (auto simp: covers_def covered_def)
  with g show inv: "acct_inv W rows kv v'" by (simp add: acct_inv_def cache_inv_def grow_def)
  obtain r0 d c f where q: "userServiceImpl_CheckAvailability (lib_bloom (wl_libs W)) (deps_UserSvc W cfg) background
      ((co_db v', co_redis v'), co_filter v') email username = (r0, ((d, c), f))" by (metis surj_pair)
  with assms(6) have "r0 = r" by (simp add: atomic_call_def Let_def)
  with acct_inv_check [OF inv q] show "case r of
      Inr (emailAvail, usernameAvail) \<Rightarrow>
        emailAvail = (email = [] \<or> \<not> email_taken (core_tbl rows v') email) \<and>
        usernameAvail = (username = [] \<or> \<not> username_taken (core_tbl rows v') username)
    | Inl e \<Rightarrow> lib_error e" by simp
qed

section \<open>Examples\<close>

lemma mem_acct_inv: "acct_inv mem_world mem_rows map_of (ss_core mem_state)"
  by (simp add: acct_inv_def cache_inv_def empty_db_inv mem_redis_ok covers_def alice_tbl coherent_def may_read_def)

lemma race_keeps: "\<forall>call \<in> set race_calls. keeps_call call"
  by (simp add: race_calls_def keeps_call_def)

theorem registered_once_witness:
  "\<exists>cfg v' ts resp. interleave [0, 1, 0, 1, 0, 0] (ss_core mem_state, map (thread_of mem_world cfg) race_calls) = (v', ts) \<and>
     returned (ts ! 0) = Some (RepTokens (Inr resp)) \<and> email_taken (core_tbl mem_rows v') ''a@x.io'' \<and>
     (\<forall>resp'. returned (ts ! 1) \<noteq> Some (RepTokens (Inr resp')))"
proof -
  obtain cfg :: Config where True by blast
  obtain v' resp e where run: "interleave [0, 1, 0, 1, 0, 0] (ss_core mem_state, map (thread_of mem_world cfg) race_calls) =
      (v', [Ret (RepTokens (Inr resp)), Ret (RepTokens (Inl e))])" using race_run by blast
  have "redis_ok (wl_redis mem_world) map_of" "core_inv mem_world mem_rows (ss_core mem_state)"
    "coherent (core_tbl mem_rows (ss_core mem_state)) (may_user map_of (co_redis (ss_core mem_state)))"
    using mem_acct_inv by (simp_all add: acct_inv_def cache_inv_def)
  note O = registered_once [OF mem_libs_ok this race_keeps run, of 0 mem_env alice_reg resp]
  have "0 < length race_calls" "race_calls ! 0 = CallRegister mem_env alice_reg"
    "returned ([Ret (RepTokens (Inr resp)), Ret (RepTokens (Inl e))] ! 0) = Some (RepTokens (Inr resp))"
    by (simp_all add: race_calls_def)
  from O [OF this] have "email_taken (core_tbl mem_rows v') ''a@x.io''"
    "\<forall>resp'. returned ([Ret (RepTokens (Inr resp)), Ret (RepTokens (Inl e))] ! 1) \<noteq> Some (RepTokens (Inr resp'))"
    by (auto simp: email_taken_def alice_reg_def race_calls_def)
  with run show ?thesis by (intro exI [of _ cfg] exI [of _ v'] exI [of _ "[Ret (RepTokens (Inr resp)), Ret (RepTokens (Inl e))]"] exI [of _ resp]) simp
qed

theorem quiescent_availability_witness:
  "\<exists>cfg v' ts r w. interleave [0, 1, 0, 1, 0, 0] (ss_core mem_state, map (thread_of mem_world cfg) race_calls) = (v', ts) \<and>
     atomic_call mem_world cfg (CallCheck ''a@x.io'' []) v' = (RepCheck r, w) \<and> r \<noteq> Inr (True, True)"
proof -
  obtain cfg :: Config where True by blast
  obtain v' resp e where run: "interleave [0, 1, 0, 1, 0, 0] (ss_core mem_state, map (thread_of mem_world cfg) race_calls) =
      (v', [Ret (RepTokens (Inr resp)), Ret (RepTokens (Inl e))])" and db: "co_db v' = alice_db" using race_run by blast
  obtain r w where check: "atomic_call mem_world cfg (CallCheck ''a@x.io'' []) v' = (RepCheck r, w)"
  proof -
    obtain r d c f where "userServiceImpl_CheckAvailability (lib_bloom mem_libs) (deps_UserSvc mem_world cfg) background
        ((co_db v', co_redis v'), co_filter v') ''a@x.io'' [] = (r, ((d, c), f))" by (metis surj_pair)
    then show ?thesis by (intro that [of r]) (simp add: atomic_call_def Let_def)
  qed
  have "tab [alice] (usr_ID alice) = Some alice" by (simp add: tab_Cons)
  then have "alice \<in> ran (tab [alice])" by (rule ranI)
  then have taken: "email_taken (core_tbl mem_rows v') ''a@x.io''"
    unfolding db alice_tbl email_taken_def by (rule bexI [rotated]) (simp add: alice_def)
  have "\<forall>t \<in> set [Ret (RepTokens (Inr resp)), Ret (RepTokens (Inl e))]. returned t \<noteq> None" by simp
  from quiescent_availability [OF mem_libs_ok mem_acct_inv race_keeps run this check] taken have "r \<noteq> Inr (True, True)" by auto
  with run check show ?thesis by blast
qed

end
