(* ===== verification/Races.thy ===== *)
theory Races
  imports Registrations
begin

text \<open>
  Two schedules in which calls disturb each other: concurrent profile updates lose a change, and a
  lookup that overlaps a deletion leaves the deleted user in the cache.
\<close>

section \<open>Lost updates\<close>

lemma read_row:
  assumes "core_inv W rows v" "core_tbl rows v i = Some row"
    and "UserRepositoryImpl_GetByID (wl_gorm W) background (co_db v) i = (r, d)"
  shows "core_inv W rows (v\<lparr>co_db := d\<rparr>) \<and> core_tbl rows (v\<lparr>co_db := d\<rparr>) = core_tbl rows v \<and>
         (r = Inr row \<or> (\<exists>e. r = Inl e \<and> lib_error e))"
  using impl_GetByID [OF assms(1,3)] assms(2) db_inv_wf [OF assms(1), of background]
  by (auto simp: lookup_ok_def ran_def dest: table_wf_id split: sum.splits)

text \<open>
  C36. Profile updates of the same user that overlap lose changes. If two updates both read the row before
  either writes it, and both succeed, the row is the first one read with the changes of the second
  update only: whatever the first update changed and reported as changed is undone.
\<close>

theorem lost_update:
  assumes "core_inv W rows v" and "core_tbl rows v i = Some row"
    and "interleave [0, 1, 0, 1] (v, map (thread_of W cfg) [CallUpdate i req1, CallUpdate i req2]) = (v', ts)"
    and "returned (ts ! 0) = Some (RepUser (Inr u1))" and "returned (ts ! 1) = Some (RepUser (Inr u2))"
  shows "\<exists>row'. core_tbl rows v' i = Some row' \<and>
           usr_Name row' = (if upd_Name req2 = [] then usr_Name row else upd_Name req2) \<and>
           usr_Email row' = (if upd_Email req2 = [] then usr_Email row else upd_Email req2) \<and>
           usr_Username row' = (if upd_Username req2 = [] then usr_Username row else upd_Username req2) \<and>
           no_times u1 = no_times (apply_profile req1 row)"
proof -
  let ?g = "wl_gorm W" and ?k = "\<lambda>req r. case r of
          Inl e \<Rightarrow>
            if errors_Is e ErrNotFound then Ret (RepUser (Inl ErrNotFound))
            else Ret (RepUser (Inl (Errorf ''get user: '' e [])))
        | Inr user \<Rightarrow> Update_write W req user"
  obtain r1 d1 where q1: "UserRepositoryImpl_GetByID ?g background (co_db v) i = (r1, d1)" by force
  note R1 = read_row [OF assms(1,2) q1]
  obtain r2 d2 where q2: "UserRepositoryImpl_GetByID ?g background d1 i = (r2, d2)" by force
  have "core_inv W rows (v\<lparr>co_db := d1\<rparr>)" "core_tbl rows (v\<lparr>co_db := d1\<rparr>) i = Some row" using R1 assms(2) by simp_all
  note R2 = read_row [OF this, of r2 d2]
  have run: "interleave [0, 1] (v\<lparr>co_db := d2\<rparr>, [?k req1 r1, ?k req2 r2]) = (v', ts)"
    using assms(3) q1 q2 by (simp add: thread_of_def Update_thread_def)
  have r1: "r1 = Inr row"
    using R1 interleave_Ret [of "[?k req1 r1, ?k req2 r2]" 0 _ "[0, 1]" "v\<lparr>co_db := d2\<rparr>"] run assms(4) by (auto split: if_splits)
  have r2: "r2 = Inr row"
    using R2 q2 interleave_Ret [of "[?k req1 r1, ?k req2 r2]" 1 _ "[0, 1]" "v\<lparr>co_db := d2\<rparr>"] run assms(5) by (auto split: if_splits)
  obtain e1 w1 d3 where q3: "UserRepositoryImpl_Update ?g background d2 (apply_profile req1 row) = ((e1, w1), d3)" by (metis surj_pair)
  obtain e2 w2 d4 where q4: "UserRepositoryImpl_Update ?g background d3 (apply_profile req2 row) = ((e2, w2), d4)" by (metis surj_pair)
  have fin: "e1 = None" "w1 = u1" "e2 = None" "v' = v\<lparr>co_db := d4\<rparr>"
    using run assms(4,5) q3 q4 by (auto simp: r1 r2 Update_write_def split: option.splits)
  have inv2: "db_inv ?g rows d2" using R2 q2 by simp
  have id: "usr_ID row = i" using assms(2) table_wf_id db_inv_wf [OF assms(1)] by blast
  from impl_Update [OF inv2 q3] fin(1,2) have inv3: "db_inv ?g rows d3" and u1: "no_times u1 = no_times (apply_profile req1 row)" by auto
  from impl_Update [OF inv3 q4] fin(3) id obtain old t where "db_tbl rows background d4 i = Some (updated_row (apply_profile req2 row) old t)"
    by auto
  with u1 fin(4) show ?thesis by (intro exI [of _ "updated_row (apply_profile req2 row) old t"]) (simp add: updated_row_def)
qed

definition new_name :: UpdateProfileRequest where
  "new_name = \<lparr>upd_Name = ''Bo'', upd_Email = [], upd_Username = []\<rparr>"

definition alice_core :: "(db_mem, redis_mem, string list, unit, kafka_msg list) core" where
  "alice_core = (ss_core mem_state)\<lparr>co_db := alice_db, co_filter := \<lparr>f_bf = [''email:a@x.io'']\<rparr>\<rparr>"

lemma alice_core_simps [simp]:
  "co_db alice_core = alice_db" "co_redis alice_core = []" "co_filter alice_core = \<lparr>f_bf = [''email:a@x.io'']\<rparr>"
  by (simp_all add: alice_core_def)

lemma single_Update:
  assumes "tab (d DB) = [usr_ID u \<mapsto> x]" "usr_ID x = usr_ID u" "utf8_User u" "valid_utf8 (usr_Role x)"
  shows "\<exists>d' x'. UserRepositoryImpl_Update mem_gorm background d u = ((None, u), d') \<and>
     tab (d' DB) = [usr_ID u \<mapsto> x'] \<and> usr_ID x' = usr_ID u \<and> usr_Role x' = usr_Role x"
proof -
  let ?up = "update_row [(''name'', usr_Name u), (''email'', usr_Email u), (''username'', usr_Username u)]"
  have n: "?up y = y\<lparr>usr_Name := usr_Name u, usr_Email := usr_Email u, usr_Username := usr_Username u\<rparr>" for y
    by (cases y) (simp add: update_row_def)
  have c: "\<not> clash y (live (d DB))" if "usr_ID y = usr_ID x" for y
    using that by (simp add: clash_def list_ex_iff set_live assms(1))
  show ?thesis
    using assms c unfolding UserRepositoryImpl_Update_def
    by (simp add: mem_Updates_def tab_Cons Let_def n utf8_User_def)
       (intro exI [of _ "?up x"], simp add: n)
qed

theorem lost_update_witness:
  "\<forall>cfg. \<exists>v' u1 u2 row.
     interleave [0, 1, 0, 1] (alice_core, map (thread_of mem_world cfg) [CallUpdate 1 new_name, CallUpdate 1 new_mail]) =
       (v', [Ret (RepUser (Inr u1)), Ret (RepUser (Inr u2))]) \<and>
     usr_Name u1 = ''Bo'' \<and> core_tbl mem_rows v' 1 = Some row \<and> usr_Name row = ''Al''"
proof
  fix cfg
  let ?u1 = "apply_profile new_name alice" and ?u2 = "apply_profile new_mail alice"
  have id: "usr_ID alice = 1" "usr_Name alice = ''Al''" by (simp_all add: alice_def)
  have utf8: "utf8_User ?u1" "utf8_User ?u2" "valid_utf8 (usr_Role alice)"
    using utf8_alice by (simp_all add: utf8_User_def valid_utf8_ascii byte_def new_name_def new_mail_def)
  have "tab (alice_db DB) = [usr_ID ?u1 \<mapsto> alice]" by (simp add: alice_db_def tab_Cons tab_Nil)
  from single_Update [where d = alice_db and u = ?u1 and x = alice, OF this _ utf8(1,3)] obtain d x where
    up1: "UserRepositoryImpl_Update mem_gorm background alice_db ?u1 = ((None, ?u1), d)"
    and d: "tab (d DB) = [usr_ID ?u2 \<mapsto> x]" "usr_ID x = usr_ID ?u2" "usr_Role x = usr_Role alice" by auto
  from single_Update [where d = d and u = ?u2 and x = x, OF d(1,2) utf8(2)] utf8(3) d(3) obtain d2 where
    up2: "UserRepositoryImpl_Update mem_gorm background d ?u2 = ((None, ?u2), d2)" by auto
  have run: "interleave [0, 1, 0, 1] (alice_core, map (thread_of mem_world cfg) [CallUpdate 1 new_name, CallUpdate 1 new_mail]) =
      (alice_core\<lparr>co_db := d2\<rparr>, [Ret (RepUser (Inr ?u1)), Ret (RepUser (Inr ?u2))])"
    by (simp add: thread_of_def Update_thread_def Update_write_def alice_GetByID up1 up2)
  have "core_inv mem_world mem_rows alice_core" "core_tbl mem_rows alice_core 1 = Some alice"
    by (simp_all add: alice_db_inv alice_tbl tab_Cons id)
  from lost_update [OF this run, of ?u1 ?u2]
  show "\<exists>v' u1 u2 row.
     interleave [0, 1, 0, 1] (alice_core, map (thread_of mem_world cfg) [CallUpdate 1 new_name, CallUpdate 1 new_mail]) =
       (v', [Ret (RepUser (Inr u1)), Ret (RepUser (Inr u2))]) \<and>
     usr_Name u1 = ''Bo'' \<and> core_tbl mem_rows v' 1 = Some row \<and> usr_Name row = ''Al''"
    unfolding run by (auto simp: new_name_def new_mail_def id)
qed

section \<open>A lookup that overlaps a deletion\<close>

lemma kv_cacheUser_email:
  assumes "redis_exact R kv" "marshal_User u = Inr j"
  shows "kv (cacheUser R ttl c u) (userEmailCacheKey (usr_Email u)) = Some j"
proof -
  have set: "kv (cacheSet R x k (u\<lparr>usr_Password := []\<rparr>) ttl) = (kv x)(k \<mapsto> j)" for x k
    using exact_Set [OF assms(1), of marshal_User x k "u\<lparr>usr_Password := []\<rparr>" ttl] assms(2)
    by (metis cacheSet_def prod.collapse marshal_User_password sum.case(2))
  show ?thesis by (simp add: cacheUser_def Let_def set)
qed

lemma read_email:
  assumes "core_inv W rows v" "core_tbl rows v i = Some row"
    and "UserRepositoryImpl_GetByEmail (wl_gorm W) background (co_db v) (usr_Email row) = (r, d)"
  shows "core_inv W rows (v\<lparr>co_db := d\<rparr>) \<and> core_tbl rows (v\<lparr>co_db := d\<rparr>) = core_tbl rows v \<and>
         (r = Inr row \<or> (\<exists>e. r = Inl e \<and> \<not> errors_Is e ErrNotFound))"
proof -
  have "row \<in> ran (core_tbl rows v)" using assms(2) by (rule ranI)
  moreover have "u = row" if "u \<in> ran (core_tbl rows v)" "usr_Email u = usr_Email row" for u
    using that \<open>row \<in> _\<close> db_inv_wf [OF assms(1), of background] by (auto dest: table_wf_ran_email)
  ultimately show ?thesis
    using impl_GetByEmail [OF assms(1,3)] by (auto simp: lookup_ok_def split: sum.splits)
qed

text \<open>
  C37. A deletion that overlaps an availability check can leave the deleted user in the cache. If the check
  has read the row before the deletion starts and writes its cache entries after the deletion has
  finished, the e-mail address is free in the table and yet the next check, which reads the cache,
  reports it as taken.
\<close>

theorem stale_after_delete:
  fixes W :: "('d, 'c, 'b, 'x, 'k, 'l) world_libs" and v :: "('d, 'c, 'b, 'x, 'k) core"
  assumes "redis_exact (wl_redis W) kv" and "core_inv W rows v" and "core_tbl rows v i = Some row"
    and "usr_Email row = email" and "email \<noteq> []" and "is_ok (marshal_User row)"
    and "Filter_Contains (lib_bloom (wl_libs W)) (co_filter v) (''email:'' @ email)"
    and "kv (co_redis v) (userEmailCacheKey email) = None"
    and "interleave [0, 0, 0, 1, 1, 1, 1, 0, 0, 0] (v, map (thread_of W cfg) [CallCheck email [], CallDelete i]) = (v', ts)"
    and "returned (ts ! 0) = Some (RepCheck (Inr avail))" and "returned (ts ! 1) = Some (RepDone None)"
  shows "\<not> email_taken (core_tbl rows v') email \<and>
         fst (atomic_call W cfg (CallCheck email []) v') = RepCheck (Inr (False, True))"
proof -
  let ?g = "wl_gorm W" and ?R = "wl_redis W" and ?ttl = "cfg_CacheTTL cfg"
  let ?t0 = "\<lambda>r :: error + User. case r of
        Inl e \<Rightarrow> if \<not> errors_Is e ErrNotFound then Ret (RepCheck (Inl (Errorf ''check email availability: '' e [])))
                 else Ret (RepCheck (Inr (True, True)))
      | Inr u \<Rightarrow> (cacheUser_thread ?R ?ttl u (Ret (RepCheck (Inr (False, True)))) :: ('d, 'c, 'b, 'x, 'k) call_thread)"
  obtain c where miss: "RedisCache_Get ?R unmarshal_User (co_redis v) (userEmailCacheKey email) = (Inl ErrCacheMiss, c)"
    using exact_Get(2) [OF assms(1), of unmarshal_User "co_redis v" "userEmailCacheKey email"] assms(8) by (metis option.case(1) surj_pair)
  obtain r d where q: "UserRepositoryImpl_GetByEmail ?g background (co_db v) email = (r, d)" by force
  note E = read_email [OF assms(2,3), unfolded assms(4), OF q]
  let ?v = "v\<lparr>co_db := d, co_redis := c\<rparr>"
  have run: "interleave [1, 1, 1, 1, 0, 0, 0] (?v, [?t0 r, Delete_thread W i]) = (v', ts)"
    using assms(5,7,9) miss q by (simp add: thread_of_def Check_thread_def available_thread_def lookup_thread_def)
  have r: "r = Inr row"
    using E interleave_Ret [of "[?t0 r, Delete_thread W i]" 0 _ "[1, 1, 1, 1, 0, 0, 0]" ?v] run assms(10) by (auto split: if_splits)
  obtain r1 d1 where q1: "UserRepositoryImpl_GetByID ?g background d i = (r1, d1)" by force
  have "core_inv W rows ?v" "core_tbl rows ?v i = Some row" using E assms(3) by simp_all
  note R = read_row [OF this, of r1 d1]
  obtain r2 d2 where q2: "UserRepositoryImpl_Delete ?g background d1 i = (r2, d2)" by force
  from run assms(11) q1 q2 obtain c' where fin: "r2 = None" "v' = ?v\<lparr>co_db := d2, co_redis := cacheUser ?R ?ttl c' row\<rparr>"
    by (cases r1; cases r2) (auto simp: r Delete_thread_def Delete_row_def cacheUser_thread_def cacheUser_def Let_def split: if_splits)
  have "core_tbl rows v' = (core_tbl rows v)(i := None)"
    using impl_Delete [of ?g rows d1 background i r2 d2] R q1 q2 fin E by simp
  with db_inv_wf [OF assms(2), of background] assms(3,4) have free: "\<not> email_taken (core_tbl rows v') email"
    by (auto simp: email_taken_def ran_def dest: table_wf_email split: if_splits)
  obtain j where j: "marshal_User row = Inr j" using assms(6) by (auto simp: is_ok_iff)
  then have "kv (co_redis v') (userEmailCacheKey email) = Some j"
    using kv_cacheUser_email [OF assms(1)] assms(4) fin(2) by auto
  then have hit: "fst (RedisCache_Get ?R unmarshal_User (co_redis v') (userEmailCacheKey email)) = unmarshal_User j"
    using exact_Get(2) [OF assms(1), of unmarshal_User "co_redis v'" "userEmailCacheKey email"] by (metis option.case(2) prod.collapse)
  then have "fst (atomic_call W cfg (CallCheck email []) v') = RepCheck (Inr (False, True))"
    using assms(5,7) fin(2) unmarshal_marshal_User [OF j]
    by (cases "RedisCache_Get ?R unmarshal_User (co_redis v') (userEmailCacheKey email)")
       (simp add: alone_Check [symmetric] Check_thread_def available_thread_def lookup_thread_def)
  with free show ?thesis by blast
qed

lemma alice_marshal: "is_ok (marshal_User alice)"
  by (simp add: is_ok_iff marshal_User_Inr alice_def year_ok_def zero_time_def)

lemma alice_Delete: "\<exists>d. UserRepositoryImpl_Delete mem_gorm background alice_db 1 = (None, d)"
  by (simp add: UserRepositoryImpl_Delete_def) (simp add: mem_gorm_def alice_db_def tab_Cons tab_Nil alice_def)

theorem stale_after_delete_witness:
  "\<forall>cfg. \<exists>v'. interleave [0, 0, 0, 1, 1, 1, 1, 0, 0, 0]
       (alice_core, map (thread_of mem_world cfg) [CallCheck ''a@x.io'' [], CallDelete 1]) =
       (v', [Ret (RepCheck (Inr (False, True))), Ret (RepDone None)]) \<and>
     \<not> email_taken (core_tbl mem_rows v') ''a@x.io'' \<and>
     fst (atomic_call mem_world cfg (CallCheck ''a@x.io'' []) v') = RepCheck (Inr (False, True))"
proof
  fix cfg
  have alice: "usr_ID alice = 1" "usr_Email alice = ''a@x.io''" "usr_Username alice \<noteq> []" by (simp_all add: alice_def)
  have known: "Filter_Contains mem_bloom \<lparr>f_bf = [''email:a@x.io'']\<rparr> (''email:'' @ ''a@x.io'')"
    by (simp add: Filter_Contains_def mem_bloom_def)
  obtain d where del: "UserRepositoryImpl_Delete mem_gorm background alice_db 1 = (None, d)" using alice_Delete by blast
  obtain v' where run: "interleave [0, 0, 0, 1, 1, 1, 1, 0, 0, 0]
      (alice_core, map (thread_of mem_world cfg) [CallCheck ''a@x.io'' [], CallDelete 1]) =
      (v', [Ret (RepCheck (Inr (False, True))), Ret (RepDone None)])"
    using known by (simp add: thread_of_def Check_thread_def available_thread_def lookup_thread_def mem_redis_miss alice_GetByEmail
        Delete_thread_def alice_GetByID Delete_row_def del cacheUser_thread_def Let_def alice)
  have "core_inv mem_world mem_rows alice_core" "core_tbl mem_rows alice_core 1 = Some alice"
    by (simp_all add: alice_db_inv alice_tbl tab_Cons alice)
  from stale_after_delete [OF _ this alice(2) _ alice_marshal _ _ run, of map_of] known
  have "\<not> email_taken (core_tbl mem_rows v') ''a@x.io''"
    "fst (atomic_call mem_world cfg (CallCheck ''a@x.io'' []) v') = RepCheck (Inr (False, True))"
    by (simp_all add: mem_redis_exact)
  with run show "\<exists>v'. interleave [0, 0, 0, 1, 1, 1, 1, 0, 0, 0]
       (alice_core, map (thread_of mem_world cfg) [CallCheck ''a@x.io'' [], CallDelete 1]) =
       (v', [Ret (RepCheck (Inr (False, True))), Ret (RepDone None)]) \<and>
     \<not> email_taken (core_tbl mem_rows v') ''a@x.io'' \<and>
     fst (atomic_call mem_world cfg (CallCheck ''a@x.io'' []) v') = RepCheck (Inr (False, True))" by blast
qed

end
