(* ===== verification/Conversions.thy ===== *)
theory Conversions
  imports Interleavings
begin

text \<open>
  Conversions that overlap with each other and with the other calls. The rates share Redis with the cached
  users; every call keeps the entries under the rates' keys to quoted rates (\<open>quoted\<close>, the rely and the
  guarantee of every call), so a conversion multiplies with a quoted rate whatever runs beside it.
\<close>

definition quoted ::
    "('d, 'c, 'b, 'x, 'k, 'l) world_libs \<Rightarrow> (string \<Rightarrow> rates \<Rightarrow> bool) \<Rightarrow> 'c kv \<Rightarrow> ('d, 'c, 'b, 'x, 'k) core \<Rightarrow> bool" where
  "quoted W Q kv v = rates_inv (wl_api W) Q (wl_redis W) kv (co_api v, co_redis v)"

abbreviation quoted_rg ::
    "('d, 'c, 'b, 'x, 'k, 'l) world_libs \<Rightarrow> (string \<Rightarrow> rates \<Rightarrow> bool) \<Rightarrow> 'c kv \<Rightarrow> (reply \<Rightarrow> bool) \<Rightarrow> ('d, 'c, 'b, 'x, 'k) core
     \<Rightarrow> ('d, 'c, 'b, 'x, 'k) call_thread \<Rightarrow> bool" where
  "quoted_rg W Q kv P \<equiv> rg (\<lambda>_. quoted W Q kv) (\<lambda>_ v _. quoted W Q kv v) (\<lambda>r _. P r)"

section \<open>Actions that keep the quoted rates\<close>

lemma quoted_same [simp]:
  "quoted W Q kv (v\<lparr>co_db := d\<rparr>) = quoted W Q kv v"
  "quoted W Q kv (v\<lparr>co_filter := f\<rparr>) = quoted W Q kv v"
  "quoted W Q kv (v\<lparr>co_api := x\<rparr>) = quoted W Q kv v"
  by (simp_all add: quoted_def rates_inv_def)

lemma quoted_redis: "co_redis w = co_redis v \<Longrightarrow> quoted W Q kv w = quoted W Q kv v"
  by (simp add: quoted_def rates_inv_def)

lemma quoted_le:
  assumes "quoted W Q kv v" "kv c \<subseteq>\<^sub>m kv (co_redis v)"
  shows "quoted W Q kv (v\<lparr>co_redis := c\<rparr>)"
proof -
  have "Q B rs" if "may_read kv dec_float_map c (''exchange:rates:'' @ B) rs" for B rs
    using may_read_mono [OF assms(2) that] assms(1) unfolding quoted_def rates_inv_def snd_conv by blast
  with assms(1) show ?thesis by (simp add: quoted_def rates_inv_def)
qed

lemma quoted_Get:
  assumes "quoted W Q kv v" "RedisCache_Get (wl_redis W) dec (co_redis v) k = (r, c)"
  shows "quoted W Q kv (v\<lparr>co_redis := c\<rparr>)"
  using assms RedisCache_Get_may(2) [OF _ assms(2)] by (intro quoted_le) (auto simp: quoted_def rates_inv_def)

lemma quoted_Del:
  assumes "quoted W Q kv v"
  shows "quoted W Q kv (v\<lparr>co_redis := cacheDel (wl_redis W) (co_redis v) ks\<rparr>)"
proof (rule quoted_le [OF assms])
  have "redis_ok (wl_redis W) kv" using assms by (simp add: quoted_def rates_inv_def)
  then show "kv (cacheDel (wl_redis W) (co_redis v) ks) \<subseteq>\<^sub>m kv (co_redis v)"
    unfolding cacheDel_def by (rule RedisCache_Delete_may(1) [OF _ prod.collapse [symmetric]])
qed

text \<open>The keys of the users are not keys of the rates.\<close>

definition user_keys :: "string set" where
  "user_keys = range userIDCacheKey \<union> range userEmailCacheKey \<union> range userUsernameCacheKey"

lemma user_keysI [simp, intro]:
  "userIDCacheKey i \<in> user_keys" "userEmailCacheKey e \<in> user_keys" "userUsernameCacheKey n \<in> user_keys"
  by (simp_all add: user_keys_def)

lemma user_keys_rates: "''exchange:rates:'' @ B \<notin> user_keys"
  by (auto simp: user_keys_def userIDCacheKey_def userEmailCacheKey_def userUsernameCacheKey_def)

lemma quoted_cacheSet:
  assumes "quoted W Q kv v" "k \<in> user_keys"
  shows "quoted W Q kv (v\<lparr>co_redis := cacheSet (wl_redis W) (co_redis v) k u ttl\<rparr>)"
  using assms user_keys_rates RedisCache_Set_other [of "wl_redis W" kv _ k dec_float_map marshal_User "co_redis v" u ttl]
  unfolding quoted_def rates_inv_def cacheSet_def by fastforce

lemma quoted_Set:
  assumes "quoted W Q kv v" "Q (ToUpper (wl_uni W) B) rs" "good_rates rs"
  shows "quoted W Q kv (v\<lparr>co_redis :=
           snd (RedisCache_Set (wl_redis W) marshal_float_map (co_redis v) (ratesCacheKey (wl_uni W) B) rs ttl)\<rparr>)"
  using assms(1) rates_inv_Set [of "wl_redis W" kv Q "ToUpper (wl_uni W) B" rs "co_redis v" ttl] assms(2,3)
  unfolding quoted_def rates_inv_def ratesCacheKey_def by auto

section \<open>The calls\<close>

lemma quoted_lookup:
  assumes k: "\<And>v r. quoted_rg W Q kv P v (k r)"
  shows "quoted_rg W Q kv P v (lookup_thread (wl_redis W) ttl key query k)"
proof -
  have set: "quoted_rg W Q kv P v (redis_do (\<lambda>c. cacheSet (wl_redis W) c key u ttl) t)"
    if "key \<in> user_keys" "\<And>v. quoted_rg W Q kv P v t" for v key u t
    using that by (auto intro!: rg_redis_do quoted_cacheSet)
  have cache: "quoted_rg W Q kv P v (cacheUser_thread (wl_redis W) ttl u (k r))" for v u r
    unfolding cacheUser_thread_def Let_def by (auto intro!: set k)
  have under: "quoted_rg W Q kv P v (db_call query
      (\<lambda>r. case r of Inl e \<Rightarrow> k (Inl e) | Inr user \<Rightarrow> cacheUser_thread (wl_redis W) ttl user (k (Inr user))))" for v
    by (rule rg_db_call) (auto simp: k cache split: sum.split)
  show ?thesis
    unfolding lookup_thread_def by (rule rg_redis_call) (auto simp: k under elim: quoted_Get split: sum.split)
qed

lemma quoted_available:
  assumes k: "\<And>v b. quoted_rg W Q kv P v (k b)" and err: "\<And>e. P (RepCheck (Inl e))"
  shows "quoted_rg W Q kv P v (available_thread B (wl_redis W) ttl x item msg key query k)"
proof -
  have "quoted_rg W Q kv P v (lookup_thread (wl_redis W) ttl key query (\<lambda>r. case r of
      Inr _ \<Rightarrow> k False | Inl e \<Rightarrow> if \<not> errors_Is e ErrNotFound then Ret (RepCheck (Inl (Errorf msg e []))) else k True))" for v
    by (rule quoted_lookup) (auto simp: k err split: sum.split)
  then show ?thesis unfolding available_thread_def using k by (auto intro!: rg_filter_test)
qed

text \<open>Fetching rates hands on quoted rates, or an error that is not about the currency.\<close>

lemma quoted_rates:
  assumes "\<And>v r. (case r of Inr rs \<Rightarrow> Q (ToUpper (wl_uni W) base) rs | Inl e \<Rightarrow> \<not> errors_Is e ErrUnsupportedCurrency) \<Longrightarrow>
      quoted_rg W Q kv P v (k r)"
  shows "quoted_rg W Q kv P v (rates_thread W cfg base k)"
proof -
  let ?key = "ratesCacheKey (wl_uni W) base" and ?up = "\<lambda>x. HTTPClient_GetRates (wl_uni W) (wl_api W) x base"
  let ?t = "\<lambda>r. case r of Inl e \<Rightarrow> k (Inl e)
    | Inr rates \<Rightarrow> redis_do (\<lambda>c. snd (RedisCache_Set (wl_redis W) marshal_float_map c ?key rates (cfg_CacheTTL cfg))) (k (Inr rates))"
  have store: "quoted_rg W Q kv P v (?t r)"
    if "case r of Inr rs \<Rightarrow> Q (ToUpper (wl_uni W) base) rs \<and> good_rates rs | Inl e \<Rightarrow> \<not> errors_Is e ErrUnsupportedCurrency" for v r
  proof (cases r)
    case (Inr rs)
    with that assms [of "Inr rs"] show ?thesis by (auto intro!: rg_redis_do quoted_Set)
  qed (use that assms in simp)
  have ask: "quoted_rg W Q kv P v (api_call ?up ?t)" for v
  proof (rule rg_api_call)
    fix v' a x assume q: "quoted W Q kv v'" and up: "?up (co_api v') = (a, x)"
    from q have "upstream_ok (wl_api W) Q" by (simp add: quoted_def rates_inv_def)
    from store [OF HTTPClient_GetRates_ok [OF this up]] q
    show "quoted W Q kv (v'\<lparr>co_api := x\<rparr>) \<and> quoted_rg W Q kv P (v'\<lparr>co_api := x\<rparr>) (?t a)" by simp
  qed
  show ?thesis
    unfolding rates_thread_def Let_def
  proof (rule rg_redis_call)
    fix v' r c assume q: "quoted W Q kv v'" and g: "RedisCache_Get (wl_redis W) dec_float_map (co_redis v') ?key = (r, c)"
    have "Q (ToUpper (wl_uni W) base) rs" if "r = Inr rs" for rs
      using q RedisCache_Get_may(1) [OF _ g that] by (auto simp: quoted_def rates_inv_def ratesCacheKey_def)
    with assms ask quoted_Get [OF q g]
    show "quoted W Q kv (v'\<lparr>co_redis := c\<rparr>) \<and> quoted_rg W Q kv P (v'\<lparr>co_redis := c\<rparr>)
        (case r of Inl _ \<Rightarrow> api_call ?up ?t | Inr rates \<Rightarrow> k (Inr rates))" by (cases r) simp_all
  qed
qed

text \<open>What a conversion, or a request for rates, may answer.\<close>

definition converted :: "(string \<Rightarrow> string) \<Rightarrow> (string \<Rightarrow> rates \<Rightarrow> bool) \<Rightarrow> ConvertRequest \<Rightarrow> error + ConvertResponse \<Rightarrow> bool" where
  "converted uni Q req r =
     (let from = ToUpper uni (conv_From req); to = ToUpper uni (conv_To req) in
      case r of
        Inr resp \<Rightarrow>
          \<exists>rs rate. Q (ToUpper uni from) rs \<and> map_of rs to = Some rate \<and>
            resp = \<lparr>cr_From = from, cr_To = to, cr_Amount = conv_Amt req, cr_Rate = rate, cr_Converted = conv_Amt req * rate\<rparr>
      | Inl e \<Rightarrow> errors_Is e ErrUnsupportedCurrency \<longrightarrow> (\<exists>rs. Q (ToUpper uni from) rs \<and> map_of rs to = None))"

definition quoted_reply :: "(string \<Rightarrow> string) \<Rightarrow> (string \<Rightarrow> rates \<Rightarrow> bool) \<Rightarrow> service_call \<Rightarrow> reply \<Rightarrow> bool" where
  "quoted_reply uni Q call rep =
     (case call of
        CallConvert req \<Rightarrow> \<exists>r. rep = RepConvert r \<and> converted uni Q req r
      | CallRates base \<Rightarrow> \<exists>r. rep = RepRates r \<and> (\<forall>rs. r = Inr rs \<longrightarrow> Q (ToUpper uni (ToUpper uni base)) rs)
      | _ \<Rightarrow> True)"

lemma atomic_call_redis:
  assumes "case call of CallLogin _ _ \<Rightarrow> True | CallRefresh _ _ \<Rightarrow> True | CallProfile _ \<Rightarrow> True | CallList _ _ \<Rightarrow> True
      | CallPublish _ _ _ \<Rightarrow> True | _ \<Rightarrow> False"
  shows "co_redis (snd (atomic_call W cfg call v)) = co_redis v"
  using assms
  by (auto simp: atomic_call_def with_auth_def userServiceImpl_List_def deps_UserSvc_eq CachingUserRepository_List_def Let_def
      split: service_call.splits prod.splits sum.splits)

lemma quoted_action:
  assumes "case call of CallLogin _ _ \<Rightarrow> True | CallRefresh _ _ \<Rightarrow> True | CallProfile _ \<Rightarrow> True | CallList _ _ \<Rightarrow> True
      | CallPublish _ _ _ \<Rightarrow> True | _ \<Rightarrow> False"
  shows "quoted_rg W Q kv (\<lambda>_. True) v (service_action (atomic_call W cfg call))"
proof (rule rg_service_action)
  fix v' r w assume q: "quoted W Q kv v'" and "atomic_call W cfg call v' = (r, w)"
  then have "co_redis w = co_redis v'" using atomic_call_redis [OF assms, of W cfg v'] by simp
  with q show "quoted W Q kv w \<and> (\<forall>w'. quoted W Q kv w' \<longrightarrow> True)" by (simp add: quoted_redis [of w v'])
qed

lemma quoted_thread_of: "quoted_rg W Q kv (quoted_reply (wl_uni W) Q call) v (thread_of W cfg call)"
proof (cases call)
  case (CallConvert req)
  show ?thesis
    unfolding CallConvert thread_of_def service_call.case Convert_thread_def Let_def
    by (rule quoted_rates)
       (auto simp: quoted_reply_def converted_def Let_def split: sum.splits option.splits)
next
  case (CallRates base)
  show ?thesis
    unfolding CallRates thread_of_def service_call.case Rates_thread_def
    by (rule quoted_rates) (auto simp: quoted_reply_def split: sum.splits)
next
  case (CallCheck email username)
  show ?thesis
    unfolding CallCheck thread_of_def service_call.case Check_thread_def
    by (intro quoted_available) (simp_all add: quoted_reply_def)
next
  case (CallRegister E req)
  then show ?thesis
    by (auto simp: thread_of_def quoted_reply_def Register_thread_def Register_create_def Register_filter_def
        intro!: rg_db_call rg_filter_add split: sum.split option.split prod.split)
next
  case (CallUpdate i req)
  then show ?thesis
    by (auto simp: thread_of_def quoted_reply_def Update_thread_def Update_write_def intro!: rg_db_call split: sum.split option.split prod.split)
next
  case (CallDelete i)
  then show ?thesis
    by (auto simp: thread_of_def quoted_reply_def Delete_thread_def Delete_row_def intro!: rg_db_call rg_redis_do quoted_Del
        split: sum.split option.split prod.split)
qed (simp_all add: thread_of_def quoted_reply_def quoted_action)

section \<open>Conversions under every schedule\<close>

text \<open>
  C15. Overlapping conversions use quoted rates. Whatever calls run beside it and however they are
  interleaved, a conversion that succeeds carries the upper-case codes, the amount, a rate the API
  quoted for the source currency and their rounded product, and reports an unsupported currency only
  if quoted rates lack the target; and the cache, which users and rates share, still holds quoted rates
  only.
\<close>

theorem overlapping_conversions:
  assumes "rates_inv (wl_api W) Q (wl_redis W) kv (co_api v, co_redis v)"
    and "interleave sched (v, map (thread_of W cfg) calls) = (v', ts)"
    and "i < length calls" and "calls ! i = CallConvert req" and "returned (ts ! i) = Some rep"
  shows "rates_inv (wl_api W) Q (wl_redis W) kv (co_api v', co_redis v') \<and>
         (\<exists>r. rep = RepConvert r \<and> converted (wl_uni W) Q req r)"
proof -
  let ?R = "\<lambda>_. quoted W Q kv" and ?G = "\<lambda>_ v _. quoted W Q kv v" and ?Q = "\<lambda>i r _. quoted_reply (wl_uni W) Q (calls ! i) r"
  have "?R v v' \<and> length ts = length calls \<and> (\<forall>i < length ts. rg ?R ?G (?Q i) v' (ts ! i))"
  proof (rule interleave_inv [where P = "\<lambda>_ ts. length ts = length calls", OF _ _ _ _ _ _ assms(2)])
    show "rely ?R" by (simp add: rely_def transp_def)
    show "rg ?R ?G (?Q i) v (map (thread_of W cfg) calls ! i)" if "i < length (map (thread_of W cfg) calls)" for i
      using that by (simp add: quoted_thread_of)
  qed (use assms(1) in \<open>simp_all add: quoted_def\<close>)
  then have "quoted W Q kv v'" "rg ?R ?G (?Q i) v' (ts ! i)" using assms(3) by simp_all
  with assms(4,5) show ?thesis by (auto simp: quoted_def [symmetric] quoted_reply_def)
qed

section \<open>An example\<close>

definition dollars :: ConvertRequest where
  "dollars = \<lparr>conv_From = ''usd'', conv_To = ''eur'', conv_Amt = two\<rparr>"

lemma dollars_rates: "HTTPClient_GetRates id mem_api x (ToUpper id (conv_From dollars)) = (Inr [(''EUR'', two)], x)"
  by (simp add: HTTPClient_GetRates_def mem_api_def mem_api_result)

lemma dollars_to: "ToUpper id (conv_To dollars) = ''EUR''"
  by (simp add: dollars_def ToUpper_def upper_char_def byte_def char_of_def bit_Suc_0_iff)

lemma mem_world_api [simp]: "wl_api mem_world = mem_api" "wl_uni mem_world = id"
  by (simp_all add: mem_world_def)

lemma dollars_run:
  "\<exists>v' resp. interleave [0, 1, 0, 1, 0, 1] (ss_core mem_state, map (thread_of mem_world cfg) [CallConvert dollars, CallConvert dollars]) =
     (v', [Ret (RepConvert (Inr resp)), Ret (RepConvert (Inr resp))])"
  by (simp add: thread_of_def Convert_thread_def rates_thread_def Let_def mem_redis_miss dollars_rates dollars_to)

theorem overlapping_conversions_witness:
  "\<forall>cfg. \<exists>v' resp. interleave [0, 1, 0, 1, 0, 1]
       (ss_core mem_state, map (thread_of mem_world cfg) [CallConvert dollars, CallConvert dollars]) =
       (v', [Ret (RepConvert (Inr resp)), Ret (RepConvert (Inr resp))]) \<and> cr_Rate resp = two"
proof
  fix cfg
  obtain v' resp where run: "interleave [0, 1, 0, 1, 0, 1]
      (ss_core mem_state, map (thread_of mem_world cfg) [CallConvert dollars, CallConvert dollars]) =
      (v', [Ret (RepConvert (Inr resp)), Ret (RepConvert (Inr resp))])" using dollars_run by blast
  have "rates_inv (wl_api mem_world) (\<lambda>B rs. rs = [(''EUR'', two)]) (wl_redis mem_world) map_of
      (co_api (ss_core mem_state), co_redis (ss_core mem_state))" using mem_rates_inv by simp
  from overlapping_conversions [OF this run, of 0 dollars "RepConvert (Inr resp)"]
  have "cr_Rate resp = two" by (auto simp: converted_def Let_def split: if_splits)
  with run show "\<exists>v' resp. interleave [0, 1, 0, 1, 0, 1]
       (ss_core mem_state, map (thread_of mem_world cfg) [CallConvert dollars, CallConvert dollars]) =
       (v', [Ret (RepConvert (Inr resp)), Ret (RepConvert (Inr resp))]) \<and> cr_Rate resp = two" by blast
qed

end
