(* ===== verification/ApiTypes.thy ===== *)
theory ApiTypes
  imports Router
begin

text \<open>
  The types of the HTTP interface. A \<open>jtype\<close> is the shape of a JSON body; the shapes of the response
  structs of \<^verbatim>\<open>internal/model\<close> are given under their names. \<open>api\<close> lists, for every route that answers in
  JSON, the status and the type of a success and the statuses of the errors; an error body is always an
  \<^verbatim>\<open>ErrorResponse\<close>.
\<close>

section \<open>Types of JSON values\<close>

datatype jtype = TyStr | TyInt | TyFloat | TyBool | TyTime | TyArr jtype | TyObj "(string \<times> jtype) list"

fun conforms :: "jtype \<Rightarrow> json \<Rightarrow> bool" and members_conform :: "(string \<times> jtype) list \<Rightarrow> (string \<times> json) list \<Rightarrow> bool" where
  "conforms TyStr j = (case j of JStr _ \<Rightarrow> True | _ \<Rightarrow> False)"
| "conforms TyInt j = (case j of JInt _ \<Rightarrow> True | _ \<Rightarrow> False)"
| "conforms TyFloat j = (case j of JFloat _ \<Rightarrow> True | _ \<Rightarrow> False)"
| "conforms TyBool j = (case j of JBool _ \<Rightarrow> True | _ \<Rightarrow> False)"
| "conforms TyTime j = (case j of JTime _ \<Rightarrow> True | _ \<Rightarrow> False)"
| "conforms (TyArr t) j = (case j of JArr js \<Rightarrow> list_all (conforms t) js | _ \<Rightarrow> False)"
| "conforms (TyObj fs) j = (case j of JObj ms \<Rightarrow> members_conform fs ms | _ \<Rightarrow> False)"
| "members_conform [] ms = (ms = [])"
| "members_conform ((k, t) # fs) ms = (case ms of [] \<Rightarrow> False | (k', j) # ms' \<Rightarrow> k' = k \<and> conforms t j \<and> members_conform fs ms')"

lemma conforms_jstr [simp]: "conforms TyStr (jstr s)"
  by (simp add: jstr_def)

declare conforms.simps(1) [simp del]

section \<open>The response types of the model\<close>

definition User_type :: jtype where
  "User_type =
     TyObj [(''id'', TyInt), (''email'', TyStr), (''username'', TyStr), (''name'', TyStr), (''role'', TyStr),
            (''created_at'', TyTime), (''updated_at'', TyTime)]"

definition AuthResponse_type :: jtype where
  "AuthResponse_type = TyObj [(''access_token'', TyStr), (''refresh_token'', TyStr), (''expires_at'', TyInt)]"

definition CheckAvailabilityResponse_type :: jtype where
  "CheckAvailabilityResponse_type = TyObj [(''email_available'', TyBool), (''username_available'', TyBool)]"

definition ConvertResponse_type :: jtype where
  "ConvertResponse_type =
     TyObj [(''from'', TyStr), (''to'', TyStr), (''amount'', TyFloat), (''rate'', TyFloat), (''converted'', TyFloat)]"

definition MessageResponse_type :: jtype where
  "MessageResponse_type = TyObj [(''message'', TyStr)]"

text \<open>\<^verbatim>\<open>details\<close> has the tag \<^verbatim>\<open>omitempty\<close>.\<close>

definition ErrorResponse_types :: "jtype list" where
  "ErrorResponse_types = [TyObj [(''error'', TyStr)], TyObj [(''error'', TyStr), (''details'', TyStr)]]"

definition status_type :: jtype where
  "status_type = TyObj [(''status'', TyStr)]"

lemmas type_defs =
  User_type_def AuthResponse_type_def CheckAvailabilityResponse_type_def ConvertResponse_type_def
  MessageResponse_type_def ErrorResponse_types_def status_type_def

lemma marshal_types:
  "marshal_User u = Inr j \<Longrightarrow> conforms User_type j"
  "conforms AuthResponse_type (marshal_AuthResponse a)"
  "conforms CheckAvailabilityResponse_type (marshal_CheckAvailabilityResponse r)"
  by (auto simp: type_defs marshal_User_Inr marshal_AuthResponse_def marshal_CheckAvailabilityResponse_def)

lemma marshal_float_type: "marshal_float f = Inr j \<Longrightarrow> conforms TyFloat j"
  by (auto simp: marshal_float_def split: float64.splits)

lemma marshal_Convert_type: "marshal_ConvertResponse r = Inr j \<Longrightarrow> conforms ConvertResponse_type j"
  by (auto simp: type_defs marshal_ConvertResponse_def marshal_obj_def dest!: marshal_float_type split: sum.splits simp del: conforms.simps(3))

lemma marshal_users_type: "marshal_users us = Inr js \<Longrightarrow> list_all (conforms User_type) js"
  by (induction us arbitrary: js) (auto simp: bind_r_Inr_iff marshal_types)

section \<open>The interface\<close>

definition api :: "((string \<times> string) \<times> (nat \<times> jtype) \<times> nat list) list" where
  "api =
     [((''GET'', ''/health''), (200, status_type), []),
      ((''GET'', ''/readyz''), (200, status_type), []),
      ((''GET'', ''/api/v1/auth/check''), (200, CheckAvailabilityResponse_type), [400, 429, 500]),
      ((''POST'', ''/api/v1/auth/register''), (201, AuthResponse_type), [400, 409, 429, 500]),
      ((''POST'', ''/api/v1/auth/login''), (200, AuthResponse_type), [400, 401, 429, 500]),
      ((''POST'', ''/api/v1/auth/refresh''), (200, AuthResponse_type), [400, 401, 429, 500]),
      ((''POST'', ''/api/v1/auth/logout''), (200, MessageResponse_type), [401, 429]),
      ((''GET'', ''/api/v1/me''), (200, User_type), [401, 404, 429, 500]),
      ((''PUT'', ''/api/v1/me''), (200, User_type), [400, 401, 404, 429, 500]),
      ((''POST'', ''/api/v1/exchange/convert''), (200, ConvertResponse_type), [400, 401, 429, 500]),
      ((''GET'', ''/api/v1/admin/users''), (200, TyArr User_type), [401, 403, 429, 500]),
      ((''DELETE'', ''/api/v1/admin/users/:id''), (200, MessageResponse_type), [400, 401, 403, 404, 429, 500]),
      ((''POST'', ''/api/v1/events/publish''), (200, status_type), [400, 401, 429, 500])]"

text \<open>
  A response of a route: the success, whose body has the type (if it can be encoded at all), or one of
  the errors, whose body is an \<^verbatim>\<open>ErrorResponse\<close>.
\<close>

definition typed_response :: "nat \<times> jtype \<Rightarrow> nat list \<Rightarrow> nat \<Rightarrow> error + json \<Rightarrow> bool" where
  "typed_response ok errs n body =
     (n = fst ok \<and> (\<forall>j. body = Inr j \<longrightarrow> conforms (snd ok) j) \<or>
      n \<in> set errs \<and> (\<exists>j. body = Inr j \<and> (\<exists>t \<in> set ErrorResponse_types. conforms t j)))"

definition answers :: "nat \<times> jtype \<Rightarrow> nat list \<Rightarrow> 'w req_state \<Rightarrow> bool" where
  "answers ok errs st = (\<exists>n body. gc_Resp (snd st) = Some (n, body) \<and> typed_response ok errs n body)"

lemma answers_error [intro]:
  "n \<in> set errs \<Longrightarrow> answers ok errs (w, answer n msg c)"
  "400 \<in> set errs \<Longrightarrow> answers ok errs (w, bad_request msg e c)"
  by (simp_all add: answers_def typed_response_def answer_def bad_request_def gin_JSON_def gin_H_def ErrorResponse_types_def)

lemma answers_Abort [simp]: "answers ok errs (w, gin_Abort c) = answers ok errs (w, c)"
  by (simp add: answers_def gin_Abort_def)

lemma answers_ok [intro]:
  "(\<And>j. body = Inr j \<Longrightarrow> conforms t j) \<Longrightarrow> answers (n, t) errs (w, gin_JSON n body c)"
  by (simp add: answers_def typed_response_def gin_JSON_def)

section \<open>Middleware answers with errors\<close>

lemmas error_bodies = answer_def [symmetric]

lemma answers_Limit:
  assumes "429 \<in> set errs" "\<And>st. answers ok errs (next st)"
  shows "answers ok errs (RateLimiter_Limit R now get put next st)"
  using assms by (auto simp: RateLimiter_Limit_def error_bodies split: prod.split)

lemma answers_unauthorized: "401 \<in> set errs \<Longrightarrow> answers ok errs (unauthorized msg st)"
  by (auto simp: unauthorized_def error_bodies)

lemma answers_Auth:
  assumes "401 \<in> set errs" "\<And>st. answers ok errs (next st)"
  shows "answers ok errs (AuthMiddleware J now secret next st)"
  using assms by (auto simp: AuthMiddleware_def Let_def answers_unauthorized split: sum.split)

lemma answers_Role:
  assumes "{401, 403, 500} \<subseteq> set errs" "\<And>st. answers ok errs (next st)"
  shows "answers ok errs (RequireRole roles next st)"
  using assms by (auto simp: RequireRole_def answers_unauthorized error_bodies split: option.split key_val.split)

section \<open>Handlers\<close>

lemma on_state_answers:
  "(\<And>w c. answers ok errs (h (w, c))) \<Longrightarrow> answers ok errs (on_auth h st)"
  "(\<And>w c. answers ok errs (hu (w, c))) \<Longrightarrow> answers ok errs (on_users hu st)"
  "(\<And>w c. answers ok errs (hf (w, c))) \<Longrightarrow> answers ok errs (on_users_filter hf st)"
  "(\<And>w c. answers ok errs (hx (w, c))) \<Longrightarrow> answers ok errs (on_exchange hx st)"
  "(\<And>w c. answers ok errs (hk (w, c))) \<Longrightarrow> answers ok errs (on_kafka hk st)"
  unfolding answers_def
  by (cases st; simp add: on_auth_def on_users_def on_users_filter_def on_exchange_def on_kafka_def split_beta)+

lemma conforms_gin_H:
  "gin_H [(k, v)] = Inr j \<Longrightarrow> conforms (TyObj [(k, TyStr)]) j"
  by (auto simp: gin_H_def)

lemma auth_answers:
  "answers (201, AuthResponse_type) [400, 409, 429, 500] (AuthHandler_Register bd L svc E st)"
  "answers (200, AuthResponse_type) [400, 401, 429, 500] (AuthHandler_Login bd L svc E st)"
  "answers (200, AuthResponse_type) [400, 401, 429, 500] (AuthHandler_RefreshToken bd L svc E st)"
  "answers (200, MessageResponse_type) [401, 429] (AuthHandler_Logout st')"
  "answers (200, User_type) [401, 404, 429, 500] (AuthHandler_GetProfile svc st)"
  "answers (200, User_type) [400, 401, 404, 429, 500] (AuthHandler_UpdateProfile bd svc st)"
  unfolding AuthHandler_Register_def AuthHandler_Login_def AuthHandler_RefreshToken_def AuthHandler_Logout_def
    AuthHandler_GetProfile_def AuthHandler_UpdateProfile_def MessageResponse_type_def Let_def
  by (auto simp: marshal_types conforms_gin_H simp del: conforms.simps split: sum.split prod.split)

lemma list_type: "bind_r (marshal_users us) (\<lambda>js. Inr (JArr js)) = Inr j \<Longrightarrow> conforms (TyArr User_type) j"
  by (auto simp: bind_r_Inr_iff marshal_users_type)

lemma user_answers:
  "answers (200, CheckAvailabilityResponse_type) [400, 429, 500] (UserHandler_CheckAvailability bd B svc stf)"
  "answers (200, TyArr User_type) [401, 403, 429, 500] (UserHandler_List usvc stu)"
  "answers (200, MessageResponse_type) [400, 401, 403, 404, 429, 500] (UserHandler_Delete usvc stu)"
  unfolding UserHandler_CheckAvailability_def UserHandler_List_def UserHandler_Delete_def MessageResponse_type_def
  by (auto simp: marshal_types conforms_gin_H list_type simp del: conforms.simps split: sum.split prod.split option.split)

lemma other_answers:
  "answers (200, ConvertResponse_type) [400, 401, 429, 500] (ExchangeHandler_Convert bd uni client st)"
  "answers (200, status_type) [400, 401, 429, 500] (EventHandler_PublishEvent bd K now uuid p stk)"
  "answers (200, status_type) [] (health st'')" "answers (200, status_type) [] (readyz st'')"
  unfolding ExchangeHandler_Convert_def EventHandler_PublishEvent_def health_def readyz_def status_type_def
  by (auto simp: marshal_Convert_type conforms_gin_H simp del: conforms.simps split: sum.split prod.split option.split)

section \<open>Every route is well typed\<close>

lemma route_typed:
  assumes "(m, p, hs) \<in> set (routes W gin cfg rq)" "map_of api (m, p) = Some (ok, errs)"
  shows "answers ok errs (run_chain hs st)"
  using assms(1) unfolding routes_def Let_def list.set insert_iff empty_iff prod.inject
  by (elim disjE conjE FalseE;
      use assms(2) in \<open>simp add: api_def\<close>;
      auto simp: authLimit_def apiLimit_def authMW_def
        intro!: answers_Limit answers_Auth answers_Role on_state_answers auth_answers user_answers other_answers)

lemma api_routes:
  assumes "map_of api (m, p) = Some x"
  shows "\<exists>hs. (m, p, hs) \<in> set (routes W gin cfg rq)"
  using map_of_SomeD [OF assms] unfolding api_def list.set insert_iff empty_iff prod.inject
  by (elim disjE conjE FalseE; simp add: routes_def Let_def)

lemma route_handlers_found:
  assumes "(gc_Method c, gc_FullPath c, hs) \<in> set rs"
  shows "\<exists>hs'. (gc_Method c, gc_FullPath c, hs') \<in> set rs \<and> route_handlers gin rs c = hs'"
proof -
  let ?match = "\<lambda>(m, p, hs). m = gc_Method c \<and> p = gc_FullPath c"
  from assms have "filter ?match rs \<noteq> []" by (auto simp: filter_empty_conv)
  then obtain m p hs' xs where eq: "filter ?match rs = (m, p, hs') # xs" by (metis neq_Nil_conv prod_cases3)
  then have "(m, p, hs') \<in> set (filter ?match rs)" by simp
  then have "(m, p, hs') \<in> set rs" "m = gc_Method c" "p = gc_FullPath c" by auto
  with eq show ?thesis by (simp add: route_handlers_def)
qed

text \<open>
  C14. The HTTP interface is well typed. Whatever the request, the state of the server and its libraries, a
  request to a route of \<open>api\<close> gets a response: the route's success status, with a body of the route's type
  (unless the body has no JSON encoding at all: a time stamp outside the years 0 to 9999, or an
  infinite product), or one of the route's error statuses with an \<^verbatim>\<open>ErrorResponse\<close>, or the CORS
  middleware's own answer to a preflight or a foreign origin, which leaves the data alone.
\<close>

theorem responses_typed:
  assumes "gin_ok gin" and "map_of api (gc_Method c, gc_FullPath c) = Some (ok, errs)"
    and "serve W Obs gin cfg rq (w, c) = (w', c')"
  shows "\<exists>n body. gc_Resp c' = Some (n, body) \<and>
           (typed_response ok errs n body \<or> n \<in> {204, 403} \<and> ss_core w' = ss_core w)"
proof -
  obtain hs where hs: "(gc_Method c, gc_FullPath c, hs) \<in> set (routes W gin cfg rq)"
    "route_handlers gin (routes W gin cfg rq) c = hs"
    using api_routes [OF assms(2)] route_handlers_found by metis
  from globals_run [OF assms(1), of Obs cfg rq hs w c] assms(3) hs(2) show ?thesis
    using route_typed [OF hs(1) assms(2)]
    by (auto simp: serve_def answers_def resp_status_def) (metis)
qed

definition me_ctx :: gin_ctx where
  "me_ctx = (mem_ctx [])\<lparr>gc_Method := ''GET'', gc_FullPath := ''/api/v1/me''\<rparr>"

theorem responses_typed_witness:
  "\<forall>cfg. \<exists>n body. gc_Resp (snd (serve mem_world mem_obs mem_gin cfg mem_rq (mem_state, me_ctx))) = Some (n, body) \<and>
     (typed_response (200, User_type) [401, 404, 429, 500] n body \<or> n \<in> {204, 403})"
proof
  fix cfg
  obtain w' c' where s: "serve mem_world mem_obs mem_gin cfg mem_rq (mem_state, me_ctx) = (w', c')" by force
  have "map_of api (gc_Method me_ctx, gc_FullPath me_ctx) = Some ((200, User_type), [401, 404, 429, 500])"
    by (simp add: api_def me_ctx_def)
  from responses_typed [OF mem_gin_ok this s] s
  show "\<exists>n body. gc_Resp (snd (serve mem_world mem_obs mem_gin cfg mem_rq (mem_state, me_ctx))) = Some (n, body) \<and>
     (typed_response (200, User_type) [401, 404, 429, 500] n body \<or> n \<in> {204, 403})" by auto
qed

end
