(* ===== verification/LimiterThreads.thy ===== *)
theory LimiterThreads
  imports RateLimit Threads
begin

text \<open>
  The rate limiter under overlapping requests (\<^verbatim>\<open>internal/middleware/ratelimit.go\<close>). A request takes a
  pointer to the token bucket of its address from the map, under the mutex, and then asks the bucket,
  which has a lock of its own: two actions, between which other requests may run. Buckets live in a
  heap, and the map holds their addresses, as the source's \<^verbatim>\<open>*rate.Limiter\<close>. \<open>limiter\<close> forgets the heap;
  alone, the two actions are \<open>RateLimiter_allow\<close> on it.
\<close>

section \<open>Buckets behind pointers\<close>

record 'l heap_limiter =
  hl_visitors :: "string \<rightharpoonup> nat \<times> instant"
  hl_heap :: "'l list"
  hl_r :: float64
  hl_burst :: int

definition limiter :: "'l heap_limiter \<Rightarrow> 'l RateLimiter" where
  "limiter hl =
     \<lparr>rl_visitors = (\<lambda>ip. map_option (\<lambda>(p, t). \<lparr>il_limiter = hl_heap hl ! p, il_lastSeen = t\<rparr>) (hl_visitors hl ip)),
      rl_r = hl_r hl, rl_burst = hl_burst hl\<rparr>"

lemma limiter_config [simp]: "rl_r (limiter hl) = hl_r hl" "rl_burst (limiter hl) = hl_burst hl"
  by (simp_all add: limiter_def)

definition get_pointer :: "'l ratelib \<Rightarrow> instant \<Rightarrow> string \<Rightarrow> 'l heap_limiter \<Rightarrow> nat \<times> 'l heap_limiter" where
  "get_pointer R now ip hl =
     (case hl_visitors hl ip of
        None \<Rightarrow>
          let p = length (hl_heap hl)
          in (p, hl\<lparr>hl_heap := hl_heap hl @ [rate_NewLimiter R (hl_r hl) (hl_burst hl)],
                    hl_visitors := (hl_visitors hl)(ip \<mapsto> (p, now))\<rparr>)
      | Some (p, _) \<Rightarrow> (p, hl\<lparr>hl_visitors := (hl_visitors hl)(ip \<mapsto> (p, now))\<rparr>))"

definition allow_pointer :: "'l ratelib \<Rightarrow> instant \<Rightarrow> nat \<Rightarrow> 'l heap_limiter \<Rightarrow> bool \<times> 'l heap_limiter" where
  "allow_pointer R now p hl =
     (case rate_Allow R now (hl_heap hl ! p) of (ok, l) \<Rightarrow> (ok, hl\<lparr>hl_heap := (hl_heap hl)[p := l]\<rparr>))"

definition Allow_thread :: "'l ratelib \<Rightarrow> instant \<Rightarrow> nat \<Rightarrow> ('l heap_limiter, bool) thread" where
  "Allow_thread R now p = Act (\<lambda>hl. case allow_pointer R now p hl of (ok, hl') \<Rightarrow> (hl', Ret ok))"

definition Limit_thread :: "'l ratelib \<Rightarrow> instant \<times> string \<Rightarrow> ('l heap_limiter, bool) thread" where
  "Limit_thread R req =
     Act (\<lambda>hl. case get_pointer R (fst req) (snd req) hl of (p, hl') \<Rightarrow> (hl', Allow_thread R (fst req) p))"

text \<open>Every address of the map points into the heap, and no two share a bucket.\<close>

definition heap_ok :: "'l heap_limiter \<Rightarrow> bool" where
  "heap_ok hl \<longleftrightarrow>
     (\<forall>ip p t. hl_visitors hl ip = Some (p, t) \<longrightarrow> p < length (hl_heap hl)) \<and>
     (\<forall>ip ip' p t t'. hl_visitors hl ip = Some (p, t) \<longrightarrow> hl_visitors hl ip' = Some (p, t') \<longrightarrow> ip = ip')"

lemma heap_okD:
  "heap_ok hl \<Longrightarrow> hl_visitors hl ip = Some (p, t) \<Longrightarrow> p < length (hl_heap hl)"
  "heap_ok hl \<Longrightarrow> hl_visitors hl ip = Some (p, t) \<Longrightarrow> hl_visitors hl ip' = Some (p, t') \<Longrightarrow> ip = ip'"
  unfolding heap_ok_def by blast+

lemma heap_ok_get: "heap_ok hl \<Longrightarrow> heap_ok (snd (get_pointer R now ip hl))"
  by (auto simp: heap_ok_def get_pointer_def Let_def split: option.splits) fastforce+

lemma heap_ok_allow: "heap_ok hl \<Longrightarrow> heap_ok (snd (allow_pointer R now p hl))"
  by (simp add: heap_ok_def allow_pointer_def split: prod.split)

lemma get_pointer_visitor:
  assumes "get_pointer R now ip hl = (p, hl')"
  shows "hl_visitors hl' ip = Some (p, now)" and "ip' \<noteq> ip \<Longrightarrow> hl_visitors hl' ip' = hl_visitors hl ip'"
    and "hl_visitors hl ip = Some (q, t) \<Longrightarrow> q = p" and "hl_r hl' = hl_r hl" and "hl_burst hl' = hl_burst hl"
  using assms by (auto simp: get_pointer_def Let_def split: option.splits prod.splits)

lemma allow_pointer_same:
  assumes "allow_pointer R now p hl = (ok, hl')"
  shows "hl_visitors hl' = hl_visitors hl" and "hl_r hl' = hl_r hl" and "hl_burst hl' = hl_burst hl"
  using assms by (auto simp: allow_pointer_def split: prod.splits)

text \<open>The bucket of an address, a new one if it has none.\<close>

definition bucket :: "'l ratelib \<Rightarrow> 'l heap_limiter \<Rightarrow> string \<Rightarrow> 'l" where
  "bucket R hl ip = (case hl_visitors hl ip of None \<Rightarrow> rate_NewLimiter R (hl_r hl) (hl_burst hl) | Some (p, _) \<Rightarrow> hl_heap hl ! p)"

lemma bucket_get: "heap_ok hl \<Longrightarrow> bucket R (snd (get_pointer R now ip hl)) = bucket R hl"
  by (auto simp: fun_eq_iff bucket_def get_pointer_def Let_def nth_append dest: heap_okD(1) split: option.split prod.split)

lemma bucket_allow:
  assumes "heap_ok hl" "hl_visitors hl ip = Some (p, t)" "allow_pointer R now p hl = (ok, hl')"
  shows "rate_Allow R now (bucket R hl ip) = (ok, bucket R hl' ip)" and "ip' \<noteq> ip \<Longrightarrow> bucket R hl' ip' = bucket R hl ip'"
  using assms heap_okD [OF assms(1)]
  by (auto simp: bucket_def allow_pointer_def nth_list_update split: option.splits prod.splits)

text \<open>Run alone, a request does to the map what \<open>RateLimiter_allow\<close> does.\<close>

lemma visitor_bucket:
  "rl_visitors (limiter hl) ip = map_option (\<lambda>(p, t). \<lparr>il_limiter = bucket R hl ip, il_lastSeen = t\<rparr>) (hl_visitors hl ip)"
  by (auto simp: limiter_def bucket_def split: option.split)

lemma limiter_alone:
  assumes ok: "heap_ok hl" and run: "alone (Limit_thread R (now, ip)) hl = (ok, hl')"
  shows "RateLimiter_allow R now (limiter hl) ip = (ok, limiter hl') \<and> heap_ok hl'"
proof -
  obtain p hl1 where g: "get_pointer R now ip hl = (p, hl1)" by force
  with run have a: "allow_pointer R now p hl1 = (ok, hl')"
    by (cases "allow_pointer R now p hl1") (simp add: Limit_thread_def Allow_thread_def)
  note ok1 = heap_ok_get [OF ok, of R now ip, unfolded g snd_conv]
  note V = get_pointer_visitor [OF g] allow_pointer_same [OF a] and B = bucket_get [OF ok, of R now ip, unfolded g snd_conv]
  note A = bucket_allow [OF ok1 V(1) a]
  have b: "(case rl_visitors (limiter hl) ip of None \<Rightarrow> rate_NewLimiter R (rl_r (limiter hl)) (rl_burst (limiter hl)) | Some v \<Rightarrow> il_limiter v)
      = bucket R hl ip"
    by (auto simp: visitor_bucket [where R = R] bucket_def split: option.split)
  have "rl_visitors (limiter hl') = (rl_visitors (limiter hl))(ip \<mapsto> \<lparr>il_limiter = bucket R hl' ip, il_lastSeen = now\<rparr>)"
    using V A by (auto simp: fun_eq_iff visitor_bucket [where R = R] B)
  then have "limiter hl' = (limiter hl)\<lparr>rl_visitors := (rl_visitors (limiter hl))(ip \<mapsto> \<lparr>il_limiter = bucket R hl' ip, il_lastSeen = now\<rparr>)\<rparr>"
    using V by (intro RateLimiter.equality) simp_all
  then have "RateLimiter_allow R now (limiter hl) ip = (ok, limiter hl')"
    using A(1) by (simp add: RateLimiter_allow_eq Let_def b B)
  with heap_ok_allow [OF ok1, of R now p] a show ?thesis by simp
qed

section \<open>Overlapping requests\<close>

text \<open>A request that has not started, holds the pointer of its bucket, or is decided.\<close>

definition limit_state :: "'l ratelib \<Rightarrow> 'l heap_limiter \<Rightarrow> instant \<times> string \<Rightarrow> ('l heap_limiter, bool) thread \<Rightarrow> bool" where
  "limit_state R hl req t \<longleftrightarrow>
     t = Limit_thread R req \<or>
     (\<exists>p. t = Allow_thread R (fst req) p \<and> (\<exists>s. hl_visitors hl (snd req) = Some (p, s))) \<or> (\<exists>b. t = Ret b)"

text \<open>The sequential limiter that has decided the same requests has the same buckets.\<close>

definition same_buckets :: "'l ratelib \<Rightarrow> 'l heap_limiter \<Rightarrow> 'l RateLimiter \<Rightarrow> bool" where
  "same_buckets R hl rl \<longleftrightarrow>
     rl_r rl = hl_r hl \<and> rl_burst rl = hl_burst hl \<and>
     (\<forall>ip. (case rl_visitors rl ip of None \<Rightarrow> rate_NewLimiter R (rl_r rl) (rl_burst rl) | Some v \<Rightarrow> il_limiter v) = bucket R hl ip)"

lemma same_buckets_limiter: "same_buckets R hl (limiter hl)"
  by (auto simp: same_buckets_def visitor_bucket [where R = R] bucket_def split: option.split)

lemma same_buckets_get:
  "heap_ok hl \<Longrightarrow> same_buckets R hl rl \<Longrightarrow> same_buckets R (snd (get_pointer R now ip hl)) rl"
  using get_pointer_visitor(4,5) [of R now ip hl] bucket_get [of hl R now ip]
  by (cases "get_pointer R now ip hl") (simp add: same_buckets_def)

lemma same_buckets_allow:
  assumes "heap_ok hl" "hl_visitors hl ip = Some (p, t)" "allow_pointer R now p hl = (ok, hl')" "same_buckets R hl rl"
  shows "fst (RateLimiter_allow R now rl ip) = ok \<and> same_buckets R hl' (snd (RateLimiter_allow R now rl ip))"
  using assms(4) bucket_allow [OF assms(1-3)] allow_pointer_same [OF assms(3)]
  by (auto simp: RateLimiter_allow_eq Let_def same_buckets_def cong: option.case_cong)

lemma limit_state_get:
  assumes "limit_state R hl req t" "get_pointer R now ip hl = (p, hl')"
  shows "limit_state R hl' req t"
  using assms(1) get_pointer_visitor [OF assms(2)] unfolding limit_state_def by (metis)

lemma limit_state_allow:
  assumes "limit_state R hl req t" "allow_pointer R now p hl = (ok, hl')"
  shows "limit_state R hl' req t"
  using assms(1) allow_pointer_same [OF assms(2)] by (simp add: limit_state_def)

abbreviation request :: "(instant \<times> string) list \<Rightarrow> nat \<Rightarrow> rl_event" where
  "request reqs i \<equiv> Request (fst (reqs ! i)) (snd (reqs ! i))"

lemma linear:
  assumes "heap_ok hl" "same_buckets R hl rl" "length ts = length reqs"
    and "\<And>i. i < length reqs \<Longrightarrow> limit_state R hl (reqs ! i) (ts ! i)"
    and "interleave sched (hl, ts) = (hl', ts')"
  shows "decisions R rl (map (request reqs) (returns sched (hl, ts))) =
         map (\<lambda>i. (snd (reqs ! i), the (returned (ts' ! i)))) (returns sched (hl, ts))"
  using assms
proof (induction sched arbitrary: hl ts rl)
  case Nil
  then show ?case by simp
next
  case (Cons j sched)
  note prems = Cons.prems and IH = Cons.IH
  show ?case
  proof (cases rule: advance_cases [of j hl ts])
    case 1
    with prems IH [OF prems(1-4)] show ?thesis by (auto simp: Let_def)
  next
    case (2 f)
    let ?req = "reqs ! j"
    from prems(3,4) 2(1,2) have "limit_state R hl ?req (Act f)" by metis
    then consider (get) "Act f = Limit_thread R ?req"
      | (allow) p s where "Act f = Allow_thread R (fst ?req) p" "hl_visitors hl (snd ?req) = Some (p, s)"
      by (auto simp: limit_state_def)
    then show ?thesis
    proof cases
      case get
      obtain p hl1 where g: "get_pointer R (fst ?req) (snd ?req) hl = (p, hl1)" by force
      have a: "advance j (hl, ts) = (hl1, ts[j := Allow_thread R (fst ?req) p])"
        using 2(3) get g by (simp add: Limit_thread_def)
      have "limit_state R hl1 (reqs ! i) (ts[j := Allow_thread R (fst ?req) p] ! i)" if "i < length reqs" for i
        using that limit_state_get [OF prems(4) g] get_pointer_visitor(1) [OF g] 2(1)
        by (cases "i = j") (auto simp: limit_state_def)
      with IH [of hl1 rl "ts[j := Allow_thread R (fst ?req) p]"] prems(3,5) a g 2(1)
        heap_ok_get [OF prems(1), of R "fst ?req" "snd ?req"] same_buckets_get [OF prems(1,2), of "fst ?req" "snd ?req"]
      show ?thesis by (simp add: Let_def Allow_thread_def)
    next
      case allow
      obtain ok hl1 where g: "allow_pointer R (fst ?req) p hl = (ok, hl1)" by force
      note S = same_buckets_allow [OF prems(1) allow(2) g prems(2)]
      have a: "advance j (hl, ts) = (hl1, ts[j := Ret ok])" using 2(3) allow g by (simp add: Allow_thread_def)
      have st: "limit_state R hl1 (reqs ! i) (ts[j := Ret ok] ! i)" if "i < length reqs" for i
        using that limit_state_allow [OF prems(4) g] 2(1) by (cases "i = j") (auto simp: limit_state_def)
      have "ts' ! j = Ret ok"
        using interleave_Ret [of "ts[j := Ret ok]" j ok sched hl1] prems(5) a 2(1) by simp
      with IH [of hl1 "snd (RateLimiter_allow R (fst ?req) rl (snd ?req))" "ts[j := Ret ok]", OF _ _ _ st] prems(3,5) a g 2(1,2) S
        heap_ok_allow [OF prems(1), of R "fst ?req" p]
      show ?thesis by (simp add: Let_def split_beta)
    qed
  qed
qed

text \<open>
  C16. Overlapping requests are rate-limited as if they came one after the other. Between two passes of the
  eviction loop, whatever the schedule of the requests' steps, the decisions on the requests that have
  been decided are those of the sequential limiter, given the requests in the order in which they were
  decided; in particular overlapping requests cannot use a token twice.
\<close>

theorem limiter_linearizable:
  assumes "heap_ok hl" and "interleave sched (hl, map (Limit_thread R) reqs) = (hl', ts)"
    and "order = returns sched (hl, map (Limit_thread R) reqs)"
  shows "distinct order \<and> set order = {i. i < length reqs \<and> returned (ts ! i) \<noteq> None} \<and>
         decisions R (limiter hl) (map (request reqs) order) = map (\<lambda>i. (snd (reqs ! i), the (returned (ts ! i)))) order"
proof -
  have "set order = {i. i < length reqs \<and> returned (ts ! i) \<noteq> None}"
    unfolding assms(3) returns_once(2) [OF assms(2)] by (auto simp: Limit_thread_def)
  moreover have "distinct order" unfolding assms(3) by (rule returns_once(1) [OF assms(2)])
  moreover have "decisions R (limiter hl) (map (request reqs) order) = map (\<lambda>i. (snd (reqs ! i), the (returned (ts ! i)))) order"
    unfolding assms(3)
    by (rule linear [OF assms(1) same_buckets_limiter _ _ assms(2)]) (simp_all add: limit_state_def)
  ultimately show ?thesis by blast
qed

definition no_visitors :: "(int \<times> int \<times> instant) heap_limiter" where
  "no_visitors = \<lparr>hl_visitors = Map.empty, hl_heap = [], hl_r = 1, hl_burst = 1\<rparr>"

text \<open>Two requests of one address and one token: the first to ask the bucket gets it.\<close>

theorem limiter_linearizable_witness:
  "\<exists>hl' ts. interleave [0, 1, 1, 0] (no_visitors, map (Limit_thread mem_rate) [(0, ''ip''), (0, ''ip'')]) = (hl', ts) \<and>
     returned (ts ! 1) = Some True \<and> returned (ts ! 0) = Some False"
proof -
  let ?c = "(no_visitors, map (Limit_thread mem_rate) [(0, ''ip''), (0, ''ip'')])"
  obtain hl' ts where run: "interleave [0, 1, 1, 0] ?c = (hl', ts)" by force
  have ok: "heap_ok no_visitors" by (simp add: heap_ok_def no_visitors_def)
  have order: "returns [0, 1, 1, 0] ?c = [1, 0]"
    by (simp add: Let_def advance_def Limit_thread_def Allow_thread_def split_beta)
  note L = limiter_linearizable [OF ok run order [symmetric]]
  from L have "set [1, 0] \<subseteq> {i. returned (ts ! i) \<noteq> None}" by blast
  then obtain b0 b1 where b: "returned (ts ! 0) = Some b0" "returned (ts ! 1) = Some b1" by auto
  from L have "decisions mem_rate (limiter no_visitors) [Request 0 ''ip'', Request 0 ''ip''] = [(''ip'', b1), (''ip'', b0)]"
    using b by simp
  moreover have "decisions mem_rate (limiter no_visitors) [Request 0 ''ip'', Request 0 ''ip''] = [(''ip'', True), (''ip'', False)]"
    by (simp add: RateLimiter_allow_eq limiter_def no_visitors_def mem_tokens_def)
  ultimately show ?thesis using run b by simp
qed

end
