(* ===== verification/CachedUsers.thy ===== *)
theory CachedUsers
  imports AuthService UserService
begin

text \<open>
  What the caching repository promises, as properties over the database repository, and deleting by
  pattern, with examples on the reference libraries.
\<close>

section \<open>Properties\<close>

text \<open>
  C9. The caching repository answers as the database does. As long as the cache is coherent with the
  table, each of the three lookups returns, from the cache or from the database, the row with that
  key up to password and time stamps; it says "not found" only if there is none; any other error is a
  library's. It leaves the table alone and the cache coherent, whatever Redis does.
\<close>

theorem caching_lookups:
  assumes "cache_inv (db_inv g rows) (db_tbl rows ctx) R kv w"
  shows "(\<forall>i r w'. CachingUserRepository_GetByID (NewUserRepository g) R ttl ctx w i = (r, w') \<longrightarrow>
            cache_inv (db_inv g rows) (db_tbl rows ctx) R kv w' \<and> db_tbl rows ctx (fst w') = db_tbl rows ctx (fst w) \<and>
            lookup_ok same_public (db_tbl rows ctx (fst w)) (\<lambda>u. usr_ID u = i) r) \<and>
         (\<forall>e r w'. CachingUserRepository_GetByEmail (NewUserRepository g) R ttl ctx w e = (r, w') \<longrightarrow>
            cache_inv (db_inv g rows) (db_tbl rows ctx) R kv w' \<and> db_tbl rows ctx (fst w') = db_tbl rows ctx (fst w) \<and>
            lookup_ok same_public (db_tbl rows ctx (fst w)) (\<lambda>u. usr_Email u = e) r) \<and>
         (\<forall>n r w'. CachingUserRepository_GetByUsername (NewUserRepository g) R ttl ctx w n = (r, w') \<longrightarrow>
            cache_inv (db_inv g rows) (db_tbl rows ctx) R kv w' \<and> db_tbl rows ctx (fst w') = db_tbl rows ctx (fst w) \<and>
            lookup_ok same_public (db_tbl rows ctx (fst w)) (\<lambda>u. usr_Username u = n) r)"
  using impl.caching.GetByID [OF assms(1)] impl.caching.GetByEmail [OF assms(1)] impl.caching.GetByUsername [OF assms(1)]
  by (simp only: NewCachingUserRepository_simps) blast

lemma mem_cache_inv: "cache_inv (db_inv mem_gorm mem_rows) (db_tbl mem_rows background) mem_redis map_of (alice_db, [])"
  by (simp add: cache_inv_def alice_db_inv mem_redis_ok coherent_def may_read_def)

lemma mem_caching_GetByEmail:
  "\<exists>w'. CachingUserRepository_GetByEmail (NewUserRepository mem_gorm) mem_redis 0 background (alice_db, []) ''a@x.io''
     = (Inr alice, w')"
  by (simp add: CachingUserRepository_GetByEmail_def cache_aside_def RedisCache_Get_def alice_GetByEmail mem_redis_def)

theorem caching_lookups_witness:
  "\<exists>w'. CachingUserRepository_GetByEmail (NewUserRepository mem_gorm) mem_redis 0 background (alice_db, []) ''a@x.io''
     = (Inr alice, w') \<and>
   cache_inv (db_inv mem_gorm mem_rows) (db_tbl mem_rows background) mem_redis map_of w'"
proof -
  obtain w' where w': "CachingUserRepository_GetByEmail (NewUserRepository mem_gorm) mem_redis 0 background (alice_db, []) ''a@x.io''
     = (Inr alice, w')" using mem_caching_GetByEmail by blast
  with caching_lookups [OF mem_cache_inv, of 0] show ?thesis by blast
qed

text \<open>
  Creating a user through the caching repository creates the row in the database and keeps the cache
  coherent: what is cached under the three keys of the new user is that user.
\<close>

lemma caching_Create_coherent:
  assumes "cache_inv (db_inv g rows) (db_tbl rows ctx) R kv w" and "usr_ID u = 0"
    and "CachingUserRepository_Create (NewUserRepository g) R ttl ctx w u h = ((cr, u'), w')"
  shows "cache_inv (db_inv g rows) (db_tbl rows ctx) R kv w' \<and>
         (case cr of
            None \<Rightarrow> \<exists>row. created_row (db_tbl rows ctx (fst w)) u h u' row \<and>
                     db_tbl rows ctx (fst w') = (db_tbl rows ctx (fst w))(usr_ID u' \<mapsto> row)
          | Some e \<Rightarrow> db_tbl rows ctx (fst w') = db_tbl rows ctx (fst w) \<and> (e = ErrConflict \<or> lib_error e))"
  using impl.caching_Create [OF assms] .

text \<open>
  No password hash reaches Redis: caching a user writes the same, under the same keys, whatever the
  hash is, and whatever is read from the cache has an empty one.
\<close>

lemma cache_without_password:
  "cacheUser R ttl c (u\<lparr>usr_Password := p\<rparr>) = cacheUser R ttl c u \<and>
   (RedisCache_Get R unmarshal_User c key = (Inr v, c') \<longrightarrow> usr_Password v = [])"
proof -
  have "RedisCache_Get R unmarshal_User c key = (Inr v, c') \<Longrightarrow> usr_Password v = []"
    by (auto simp: RedisCache_Get_def unmarshal_User_no_password split: prod.splits redis_reply.splits)
  then show ?thesis by (simp add: cacheUser_def)
qed

text \<open>
  C30. Deleting through the caching repository, on a Redis that is up and where nothing expires. The row
  goes, or an error says why it did not and the table is as before. The user is looked up first: if
  that succeeds, the entry under its e-mail is removed, whether or not the deletion then succeeds. If
  the deletion succeeds, the entry under the id is removed. Every other entry stays: the ones under user
  names always, and the one under the e-mail if the lookup failed.
\<close>

theorem caching_Delete_evicts:
  assumes "db_inv g rows d" and "redis_exact R kv"
    and "CachingUserRepository_Delete (NewUserRepository g) R ttl ctx (d, c) i = (r, (d', c'))"
  shows "(case r of
            None \<Rightarrow> db_tbl rows ctx d i \<noteq> None \<and> db_tbl rows ctx d' = (db_tbl rows ctx d)(i := None)
          | Some e \<Rightarrow> db_tbl rows ctx d' = db_tbl rows ctx d \<and>
              (if e = ErrNotFound then db_tbl rows ctx d i = None else lib_error e)) \<and>
         (case fst (UserRepositoryImpl_GetByID g ctx d i) of
            Inr u \<Rightarrow> db_tbl rows ctx d i = Some u \<and>
              kv c' = kv c |` (- ({userEmailCacheKey (usr_Email u)} \<union> (if r = None then {userIDCacheKey i} else {})))
          | Inl e \<Rightarrow> kv c' = kv c |` (- (if r = None then {userIDCacheKey i} else {}))) \<and>
         (\<forall>n. kv c' (userUsernameCacheKey n) = kv c (userUsernameCacheKey n))"
proof -
  obtain r1 d1 where g: "UserRepositoryImpl_GetByID g ctx d i = (r1, d1)" by force
  note G = impl_GetByID [OF assms(1) g]
  obtain r2 d2 where del: "UserRepositoryImpl_Delete g ctx d1 i = (r2, d2)" by force
  note D = impl_Delete [OF G [THEN conjunct1] del]
  have res: "r = r2" "d' = d2"
    using assms(3) g del by (auto simp: CachingUserRepository_Delete_def Let_def split: option.splits)
  have kv: "kv (cacheDel R x ks) = kv x |` (- set ks)" for x ks
    using exact_Delete [OF assms(2), of x ks] by (metis cacheDel_def prod.collapse)
  have user: "db_tbl rows ctx d i = Some u" if "r1 = Inr u" for u
    using G that table_wf_ran_id [OF db_inv_wf [OF assms(1)]] by (auto simp: lookup_ok_def)
  have "case r1 of
          Inr u \<Rightarrow> kv c' = kv c |` (- ({userEmailCacheKey (usr_Email u)} \<union> (if r = None then {userIDCacheKey i} else {})))
        | Inl e \<Rightarrow> kv c' = kv c |` (- (if r = None then {userIDCacheKey i} else {}))"
    using assms(3) g del res
    by (auto simp: CachingUserRepository_Delete_def Let_def kv restrict_map_def fun_eq_iff split: option.splits sum.splits)
  with D res g G user show ?thesis
    by (auto split: option.splits sum.splits)
qed

lemma alice_caching_Delete:
  "\<exists>d' c'. CachingUserRepository_Delete (NewUserRepository mem_gorm) mem_redis 0 background (alice_db, c) 1 = (None, (d', c'))"
  by (simp add: CachingUserRepository_Delete_def alice_GetByID Let_def UserRepositoryImpl_Delete_def)
     (simp add: mem_gorm_def alice_db_def tab_Cons tab_Nil alice_def)

theorem caching_Delete_evicts_witness:
  "\<exists>d' c'. CachingUserRepository_Delete (NewUserRepository mem_gorm) mem_redis 0 background
       (alice_db, [(userIDCacheKey 1, JNull), (userEmailCacheKey ''a@x.io'', JNull), (userUsernameCacheKey ''alice'', JNull)]) 1 =
         (None, (d', c')) \<and>
     map_of c' (userIDCacheKey 1) = None \<and> map_of c' (userEmailCacheKey ''a@x.io'') = None \<and>
     map_of c' (userUsernameCacheKey ''alice'') = Some JNull"
proof -
  let ?c = "[(userIDCacheKey 1, JNull), (userEmailCacheKey ''a@x.io'', JNull), (userUsernameCacheKey ''alice'', JNull)]"
  obtain d' c' where res: "CachingUserRepository_Delete (NewUserRepository mem_gorm) mem_redis 0 background (alice_db, ?c) 1 = (None, (d', c'))"
    using alice_caching_Delete by blast
  have "usr_Email alice = ''a@x.io''" by (simp add: alice_def)
  with caching_Delete_evicts [OF alice_db_inv mem_redis_exact res] res show ?thesis
    by (auto simp: alice_GetByID)
qed

text \<open>
  C31. Deleting by pattern on a single node returns. It adds no entry, and if it returns no error, no entry
  is left whose key matches the pattern; an error of the scan or of a deletion ends it early. On a Redis
  that is up and where nothing expires, the entries whose keys do not match are all kept, error or not.
\<close>

theorem DeletePattern_removes:
  assumes "redis_ok R kv" and "scan_ok R kv matching"
  shows "\<exists>N. \<forall>fuel > N. \<exists>r c'. RedisCache_DeletePattern fuel None R c pattern = Some (r, c') \<and> kv c' \<subseteq>\<^sub>m kv c \<and>
           (r = None \<longrightarrow> (\<forall>key. matching pattern key \<longrightarrow> kv c' key = None)) \<and>
           (redis_exact R kv \<and> (\<forall>c p k. kv (snd (rd_IterNext R c p k)) = kv c) \<longrightarrow>
              (\<forall>key. \<not> matching pattern key \<longrightarrow> kv c' key = kv c key))"
proof -
  have st: "scanning R kv pattern S c [] c" if "S \<subseteq> dom (kv c)" for S using that by (rule scanning.start)
  obtain N where N: "\<forall>ks c'. scanning R kv pattern {} c ks c' \<longrightarrow> length ks \<le> N" using scan_okD(4) [OF assms(2)] by blast
  show ?thesis
  proof (intro exI [of _ N] allI impI)
    fix fuel assume "N < fuel"
    with scanAndDelete_returns [OF N st, of fuel] obtain r c' where
      run: "scanAndDelete fuel R c pattern 0 = Some (r, c')" by auto
    note le = scanAndDelete_shrinks [OF assms run]
    have "kv c' key = None" if "r = None" "matching pattern key" for key
    proof (rule ccontr)
      assume "kv c' key \<noteq> None"
      then have k: "{key} \<subseteq> dom (kv c')" by blast
      then have "scanning R kv pattern {key} c [] c" by (intro st order.trans [OF _ map_le_implies_dom_le [OF le]])
      from scanAndDelete_removes [OF assms _ this k, of fuel key] run that show False by simp
    qed
    moreover have "kv c' key = kv c key"
      if "redis_exact R kv \<and> (\<forall>c p k. kv (snd (rd_IterNext R c p k)) = kv c)" "\<not> matching pattern key" for key
      using that by (intro scanAndDelete_keeps [OF _ assms(2) _ _ run]) simp_all
    moreover have "RedisCache_DeletePattern fuel None R c pattern = Some (r, c')" using run by (simp add: RedisCache_DeletePattern_def)
    ultimately show "\<exists>r c'. RedisCache_DeletePattern fuel None R c pattern = Some (r, c') \<and> kv c' \<subseteq>\<^sub>m kv c \<and>
           (r = None \<longrightarrow> (\<forall>key. matching pattern key \<longrightarrow> kv c' key = None)) \<and>
           (redis_exact R kv \<and> (\<forall>c p k. kv (snd (rd_IterNext R c p k)) = kv c) \<longrightarrow>
              (\<forall>key. \<not> matching pattern key \<longrightarrow> kv c' key = kv c key))"
      using le by (intro exI [of _ r] exI [of _ c'] conjI) simp_all
  qed
qed

text \<open>
  An in-memory Redis that keeps, beside the entries, the keys its scan has still to return: the first
  step collects the stored keys that match a pattern of the form \<^verbatim>\<open>prefix*\<close>.
\<close>

definition star_match :: "string \<Rightarrow> string \<Rightarrow> bool" where
  "star_match p key \<longleftrightarrow> take (length p - 1) key = butlast p"

definition scan_pending :: "redis_mem \<times> string list \<Rightarrow> string \<Rightarrow> nat \<Rightarrow> string list" where
  "scan_pending c p k = filter (star_match p) (if k = 0 then map fst (fst c) else snd c)"

definition scan_redis :: "(redis_mem \<times> string list) redis" where
  "scan_redis =
     \<lparr>rd_Get = (\<lambda>c k. (fst (rd_Get mem_redis (fst c) k), c)),
      rd_Set = (\<lambda>c k j ttl. (None, (snd (rd_Set mem_redis (fst c) k j ttl), snd c))),
      rd_Del = (\<lambda>c ks. (None, (snd (rd_Del mem_redis (fst c) ks), snd c))),
      rd_IterNext = (\<lambda>c p k. case scan_pending c p k of [] \<Rightarrow> (Inl None, (fst c, [])) | x # xs \<Rightarrow> (Inr x, (fst c, xs)))\<rparr>"

lemma scan_redis_exact: "redis_exact scan_redis (\<lambda>c. map_of (fst c))"
  by (simp add: redis_exact_def scan_redis_def mem_redis_def map_of_filter_keys)

lemma scan_redis_scanning:
  "scanning scan_redis (\<lambda>c. map_of (fst c)) p S c0 ks c \<Longrightarrow>
   {x \<in> S. star_match p x} \<subseteq> set ks \<union> set (scan_pending c p (length ks)) \<and>
   length ks + length (scan_pending c p (length ks)) \<le> length (fst c0)"
proof (induction rule: scanning.induct)
  case start
  then show ?case by (auto simp: scan_pending_def dom_map_of_conv_image_fst intro: order.trans [OF length_filter_le])
next
  case (more ks c key c1 ds e c2)
  from more.hyps(2) obtain xs where xs: "scan_pending c p (length ks) = key # xs" and c1: "c1 = (fst c, xs)"
    by (auto simp: scan_redis_def split: list.splits)
  have "snd c2 = xs" using more.hyps(3) c1 by (auto simp: scan_redis_def)
  moreover have "filter (star_match p) xs = xs"
  proof (rule filter_True, rule ballI)
    fix x assume "x \<in> set xs"
    with xs have "x \<in> set (scan_pending c p (length ks))" by simp
    then show "star_match p x" by (simp add: scan_pending_def)
  qed
  ultimately have "scan_pending c2 p (length (ks @ [key])) = xs" by (simp add: scan_pending_def)
  with more.IH xs show ?case by auto
qed

lemma scan_redis_ok: "scan_ok scan_redis (\<lambda>c. map_of (fst c)) star_match"
proof -
  have "\<exists>N. \<forall>ks c. scanning scan_redis (\<lambda>c. map_of (fst c)) p {} c0 ks c \<longrightarrow> length ks \<le> N" for p c0
    using scan_redis_scanning [of p "{}" c0] by (intro exI [of _ "length (fst c0)"]) fastforce
  moreover have "{x \<in> S. star_match p x} \<subseteq> set ks"
    if "scanning scan_redis (\<lambda>c. map_of (fst c)) p S c0 ks c" "rd_IterNext scan_redis c p (length ks) = (Inl None, c')"
    for p S c0 ks c c'
  proof -
    from that(2) have "scan_pending c p (length ks) = []" by (auto simp: scan_redis_def split: list.splits)
    with scan_redis_scanning [OF that(1)] show ?thesis by simp
  qed
  moreover have "star_match p key" if "rd_IterNext scan_redis c p k = (Inr key, c')" for c p k key c'
  proof -
    from that have "key \<in> set (scan_pending c p k)" by (auto simp: scan_redis_def split: list.splits)
    then show ?thesis by (simp add: scan_pending_def)
  qed
  ultimately show ?thesis unfolding scan_ok_def by (auto simp: scan_redis_def split: list.splits)
qed

theorem DeletePattern_removes_witness:
  "\<exists>fuel c'. RedisCache_DeletePattern fuel None scan_redis ([(''user:id:1'', JNull), (''k'', JNull)], []) ''user:*'' = Some (None, c') \<and>
     map_of (fst c') ''user:id:1'' = None \<and> map_of (fst c') ''k'' = Some JNull"
proof -
  let ?kv = "\<lambda>c :: redis_mem \<times> string list. map_of (fst c)"
    and ?c = "([(''user:id:1'', JNull), (''k'', JNull)], [])"
  obtain N where N: "\<forall>fuel > N. \<exists>r c'. RedisCache_DeletePattern fuel None scan_redis ?c ''user:*'' = Some (r, c') \<and> ?kv c' \<subseteq>\<^sub>m ?kv ?c \<and>
           (r = None \<longrightarrow> (\<forall>key. star_match ''user:*'' key \<longrightarrow> ?kv c' key = None)) \<and>
           (redis_exact scan_redis ?kv \<and> (\<forall>c p k. ?kv (snd (rd_IterNext scan_redis c p k)) = ?kv c) \<longrightarrow>
              (\<forall>key. \<not> star_match ''user:*'' key \<longrightarrow> ?kv c' key = ?kv ?c key))"
    using DeletePattern_removes [OF redis_exact_ok [OF scan_redis_exact] scan_redis_ok, of ?c "''user:*''"] by blast
  have it: "\<forall>c p k. ?kv (snd (rd_IterNext scan_redis c p k)) = ?kv c" by (simp add: scan_redis_def split: list.splits)
  have "\<not> star_match ''user:*'' ''k''" "star_match ''user:*'' ''user:id:1''" by (simp_all add: star_match_def)
  moreover obtain r c' where run: "RedisCache_DeletePattern (Suc (Suc N)) None scan_redis ?c ''user:*'' = Some (r, c')"
    and "r = None \<longrightarrow> (\<forall>key. star_match ''user:*'' key \<longrightarrow> ?kv c' key = None)"
    and "\<forall>key. \<not> star_match ''user:*'' key \<longrightarrow> ?kv c' key = ?kv ?c key"
    using N [rule_format, of "Suc (Suc N)"] scan_redis_exact it by auto
  moreover have "r = None"
    using run by (auto simp: RedisCache_DeletePattern_def scan_redis_def scan_pending_def star_match_def mem_redis_def)
  ultimately show ?thesis by (intro exI [of _ "Suc (Suc N)"] exI [of _ c']) simp
qed

end
