(* ===== verification/Transactions.thy ===== *)
theory Transactions
  imports AuthService
begin

text \<open>
  \<^verbatim>\<open>transactionManager.Run\<close> with the repository under it. \<open>program\<close> is what the function given to \<open>Run\<close> may
  do: any sequence of repository calls, each chosen from the results of the earlier ones, and an error
  to return; \<open>run_program\<close> runs it on a repository with the context it is given. \<open>table_run\<close> says what such
  a function does to a users table of its own. \<open>transactional_repository\<close> is what the function needs of
  the repository: the laws of \<open>user_repository\<close> for the table the context selects, and that the pool's
  table stays as it is. It is interpreted on \<open>NewUserRepository g\<close> with the context \<open>Run\<close> passes on, whose
  transaction \<open>TXFromContext\<close> finds.
\<close>

section \<open>Functions that use the repository\<close>

datatype program =
  Return "error option"
| DoCreate User string "error option \<times> User \<Rightarrow> program"
| DoGetByID int64 "error + User \<Rightarrow> program"
| DoGetByEmail string "error + User \<Rightarrow> program"
| DoGetByUsername string "error + User \<Rightarrow> program"
| DoUpdate User "error option \<times> User \<Rightarrow> program"
| DoDelete int64 "error option \<Rightarrow> program"
| DoList int int "error + User list \<Rightarrow> program"
| DoAllEmailsAndUsernames "error + string list \<times> string list \<Rightarrow> program"

primrec run_program :: "'s UserRepository \<Rightarrow> go_context \<Rightarrow> program \<Rightarrow> 's \<Rightarrow> error option \<times> 's" where
  "run_program repo ctx (Return r) s = (r, s)"
| "run_program repo ctx (DoCreate u h k) s =
     (case repo_Create repo ctx s u h of (r, s') \<Rightarrow> run_program repo ctx (k r) s')"
| "run_program repo ctx (DoGetByID i k) s =
     (case repo_GetByID repo ctx s i of (r, s') \<Rightarrow> run_program repo ctx (k r) s')"
| "run_program repo ctx (DoGetByEmail e k) s =
     (case repo_GetByEmail repo ctx s e of (r, s') \<Rightarrow> run_program repo ctx (k r) s')"
| "run_program repo ctx (DoGetByUsername n k) s =
     (case repo_GetByUsername repo ctx s n of (r, s') \<Rightarrow> run_program repo ctx (k r) s')"
| "run_program repo ctx (DoUpdate u k) s =
     (case repo_Update repo ctx s u of (r, s') \<Rightarrow> run_program repo ctx (k r) s')"
| "run_program repo ctx (DoDelete i k) s =
     (case repo_Delete repo ctx s i of (r, s') \<Rightarrow> run_program repo ctx (k r) s')"
| "run_program repo ctx (DoList off lim k) s =
     (case repo_List repo ctx s off lim of (r, s') \<Rightarrow> run_program repo ctx (k r) s')"
| "run_program repo ctx (DoAllEmailsAndUsernames k) s =
     (case repo_AllEmailsAndUsernames repo ctx s of (r, s') \<Rightarrow> run_program repo ctx (k r) s')"

text \<open>Every user the function creates is new: its identifier is left to the database, as the services do.\<close>

primrec inserts_new :: "program \<Rightarrow> bool" where
  "inserts_new (Return r) = True"
| "inserts_new (DoCreate u h k) = (usr_ID u = 0 \<and> (\<forall>r. inserts_new (k r)))"
| "inserts_new (DoGetByID i k) = (\<forall>r. inserts_new (k r))"
| "inserts_new (DoGetByEmail e k) = (\<forall>r. inserts_new (k r))"
| "inserts_new (DoGetByUsername n k) = (\<forall>r. inserts_new (k r))"
| "inserts_new (DoUpdate u k) = (\<forall>r. inserts_new (k r))"
| "inserts_new (DoDelete i k) = (\<forall>r. inserts_new (k r))"
| "inserts_new (DoList off lim k) = (\<forall>r. inserts_new (k r))"
| "inserts_new (DoAllEmailsAndUsernames k) = (\<forall>r. inserts_new (k r))"

section \<open>What such a function does to a table\<close>

text \<open>
  \<open>table_run pool m p r m'\<close>: started on the table \<open>m\<close> the function may return \<open>r\<close> and leave \<open>m'\<close>, each call
  working on the table the calls before it left; only \<open>AllEmailsAndUsernames\<close> reads another table, \<open>pool\<close>.
\<close>

inductive table_run :: "table \<Rightarrow> table \<Rightarrow> program \<Rightarrow> error option \<Rightarrow> table \<Rightarrow> bool" for pool where
  Run_Return: "table_run pool m (Return r) r m"
| Run_Create: "created_row m u h u' row \<Longrightarrow> table_run pool (m(usr_ID u' \<mapsto> row)) (k (None, u')) r m' \<Longrightarrow>
    table_run pool m (DoCreate u h k) r m'"
| Run_Create_error: "e = ErrConflict \<or> lib_error e \<Longrightarrow> table_run pool m (k (Some e, u')) r m' \<Longrightarrow>
    table_run pool m (DoCreate u h k) r m'"
| Run_GetByID: "lookup_ok (=) m (\<lambda>u. usr_ID u = i) l \<Longrightarrow> table_run pool m (k l) r m' \<Longrightarrow>
    table_run pool m (DoGetByID i k) r m'"
| Run_GetByEmail: "lookup_ok (=) m (\<lambda>u. usr_Email u = e) l \<Longrightarrow> table_run pool m (k l) r m' \<Longrightarrow>
    table_run pool m (DoGetByEmail e k) r m'"
| Run_GetByUsername: "lookup_ok (=) m (\<lambda>u. usr_Username u = n) l \<Longrightarrow> table_run pool m (k l) r m' \<Longrightarrow>
    table_run pool m (DoGetByUsername n k) r m'"
| Run_Update: "m (usr_ID u) = Some old \<Longrightarrow> no_times u' = no_times u \<Longrightarrow>
    table_run pool (m(usr_ID u \<mapsto> updated_row u old t)) (k (None, u')) r m' \<Longrightarrow>
    table_run pool m (DoUpdate u k) r m'"
| Run_Update_error: "if e = ErrNotFound then m (usr_ID u) = None else lib_error e \<Longrightarrow>
    table_run pool m (k (Some e, u')) r m' \<Longrightarrow> table_run pool m (DoUpdate u k) r m'"
| Run_Delete: "m i \<noteq> None \<Longrightarrow> table_run pool (m(i := None)) (k None) r m' \<Longrightarrow>
    table_run pool m (DoDelete i k) r m'"
| Run_Delete_error: "if e = ErrNotFound then m i = None else lib_error e \<Longrightarrow>
    table_run pool m (k (Some e)) r m' \<Longrightarrow> table_run pool m (DoDelete i k) r m'"
| Run_List: "(\<And>us. lr = Inr us \<Longrightarrow> 0 \<le> off \<Longrightarrow> 0 < lim \<Longrightarrow>
      \<exists>xs. rows_by_id m xs \<and> us = take (nat lim) (drop (nat off) xs)) \<Longrightarrow>
    table_run pool m (k lr) r m' \<Longrightarrow> table_run pool m (DoList off lim k) r m'"
| Run_All: "(\<And>es ns. ar = Inr (es, ns) \<Longrightarrow>
      set es = usr_Email ` ran pool \<and> set ns = usr_Username ` ran pool) \<Longrightarrow>
    table_run pool m (k ar) r m' \<Longrightarrow> table_run pool m (DoAllEmailsAndUsernames k) r m'"

section \<open>The repository under a transaction\<close>

locale transactional_repository = user_repository repo ctx inv tbl
  for repo :: "'s UserRepository" and ctx inv tbl +
  fixes pool :: "'s \<Rightarrow> table"
  assumes Create_pool: "inv s \<Longrightarrow> usr_ID u = 0 \<Longrightarrow> repo_Create repo ctx s u h = (cr, s') \<Longrightarrow> pool s' = pool s"
    and GetByID_pool: "inv s \<Longrightarrow> repo_GetByID repo ctx s i = (r, s') \<Longrightarrow> pool s' = pool s"
    and GetByEmail_pool: "inv s \<Longrightarrow> repo_GetByEmail repo ctx s e = (r, s') \<Longrightarrow> pool s' = pool s"
    and GetByUsername_pool: "inv s \<Longrightarrow> repo_GetByUsername repo ctx s n = (r, s') \<Longrightarrow> pool s' = pool s"
    and Update_pool: "inv s \<Longrightarrow> repo_Update repo ctx s u = (cr, s') \<Longrightarrow> pool s' = pool s"
    and Delete_pool: "inv s \<Longrightarrow> repo_Delete repo ctx s i = (dr, s') \<Longrightarrow> pool s' = pool s"
    and List_pool: "inv s \<Longrightarrow> repo_List repo ctx s off lim = (lr, s') \<Longrightarrow> pool s' = pool s"
    and All_pool: "inv s \<Longrightarrow> repo_AllEmailsAndUsernames repo ctx s = (ar, s') \<Longrightarrow>
          inv s' \<and> tbl s' = tbl s \<and> pool s' = pool s \<and>
          (\<forall>es ns. ar = Inr (es, ns) \<longrightarrow> set es = usr_Email ` ran (pool s) \<and> set ns = usr_Username ` ran (pool s))"
begin

text \<open>The function works on the table of its context and leaves the pool's alone.\<close>

lemma run_program_table:
  assumes "inserts_new p" "inv s" "run_program repo ctx p s = (r, s')"
  shows "inv s' \<and> pool s' = pool s \<and> table_run (pool s) (tbl s) p r (tbl s')"
  using assms
proof (induction p arbitrary: s)
  case (Return x)
  then show ?case by (auto intro: Run_Return)
next
  case (DoCreate u h k)
  obtain cr u' s1 where c: "repo_Create repo ctx s u h = ((cr, u'), s1)" by (metis surj_pair)
  note C = Create [OF DoCreate.prems(2) _ c] and P = Create_pool [OF DoCreate.prems(2) _ c]
  from DoCreate.prems c C P DoCreate.IH [OF rangeI, of "(cr, u')" s1] show ?case
    by (cases cr) (auto intro: Run_Create Run_Create_error)
next
  case (DoGetByID i k)
  obtain l s1 where c: "repo_GetByID repo ctx s i = (l, s1)" by (metis surj_pair)
  from DoGetByID.prems c GetByID [OF _ c] GetByID_pool [OF _ c] DoGetByID.IH [OF rangeI, of l s1] show ?case
    by (auto intro: Run_GetByID)
next
  case (DoGetByEmail e k)
  obtain l s1 where c: "repo_GetByEmail repo ctx s e = (l, s1)" by (metis surj_pair)
  from DoGetByEmail.prems c GetByEmail [OF _ c] GetByEmail_pool [OF _ c] DoGetByEmail.IH [OF rangeI, of l s1] show ?case
    by (auto intro: Run_GetByEmail)
next
  case (DoGetByUsername n k)
  obtain l s1 where c: "repo_GetByUsername repo ctx s n = (l, s1)" by (metis surj_pair)
  from DoGetByUsername.prems c GetByUsername [OF _ c] GetByUsername_pool [OF _ c] DoGetByUsername.IH [OF rangeI, of l s1] show ?case
    by (auto intro: Run_GetByUsername)
next
  case (DoUpdate u k)
  obtain cr u' s1 where c: "repo_Update repo ctx s u = ((cr, u'), s1)" by (metis surj_pair)
  note C = Update [OF DoUpdate.prems(2) c] and P = Update_pool [OF DoUpdate.prems(2) c]
  from DoUpdate.prems c C P DoUpdate.IH [OF rangeI, of "(cr, u')" s1] show ?case
    by (cases cr) (auto intro: Run_Update Run_Update_error)
next
  case (DoDelete i k)
  obtain dr s1 where c: "repo_Delete repo ctx s i = (dr, s1)" by (metis surj_pair)
  note C = Delete [OF DoDelete.prems(2) c] and P = Delete_pool [OF DoDelete.prems(2) c]
  from DoDelete.prems c C P DoDelete.IH [OF rangeI, of dr s1] show ?case
    by (cases dr) (auto intro: Run_Delete [unfolded fun_upd_def] Run_Delete_error simp: fun_upd_def)
next
  case (DoList off lim k)
  obtain l s1 where c: "repo_List repo ctx s off lim = (l, s1)" by (metis surj_pair)
  from DoList.prems c List [OF _ c] List_pool [OF _ c] DoList.IH [OF rangeI, of l s1] show ?case
    by (auto intro: Run_List)
next
  case (DoAllEmailsAndUsernames k)
  obtain l s1 where c: "repo_AllEmailsAndUsernames repo ctx s = (l, s1)" by (metis surj_pair)
  from DoAllEmailsAndUsernames.prems c All_pool [OF _ c] DoAllEmailsAndUsernames.IH [OF rangeI, of l s1] show ?case
    by (auto intro!: Run_All [where ar = l])
qed

end

text \<open>The database implementation under the context of a transaction.\<close>

lemma TXFromContext_TX [simp]: "TXFromContext (ctx\<lparr>ctx_TXKey := Some tx\<rparr>) db = TX tx"
  by (simp add: TXFromContext_def)

lemma others_same_pool: "others_same rows (TX tx) d d' \<Longrightarrow> rows d' DB = rows d DB"
  by (simp add: others_same_def)

lemma impl_lookups_rows:
  assumes "db_inv g rows d"
  shows "UserRepositoryImpl_GetByID g ctx d i = (r, d') \<Longrightarrow> rows d' = rows d"
    and "UserRepositoryImpl_GetByEmail g ctx d e = (r, d') \<Longrightarrow> rows d' = rows d"
    and "UserRepositoryImpl_GetByUsername g ctx d n = (r, d') \<Longrightarrow> rows d' = rows d"
    and "UserRepositoryImpl_List g ctx d off lim = (lr, d') \<Longrightarrow> rows d' = rows d"
    and "UserRepositoryImpl_AllEmailsAndUsernames g ctx d = (ar, d') \<Longrightarrow> rows d' = rows d"
  using assms unfolding db_inv_def
  by (auto simp: repo_simps split: prod.splits sum.splits if_splits
      dest: gorm_First_D(1) gorm_Where_First_D(1) gorm_Find_D(1) gorm_Select_Scan_D(1))

lemma impl_Create_pool:
  assumes "db_inv g rows d" "usr_ID u = 0" "UserRepositoryImpl_Create g (ctx\<lparr>ctx_TXKey := Some tx\<rparr>) d u h = (r, d')"
  shows "rows d' DB = rows d DB"
proof -
  obtain r0 u0 where g: "gorm_Create g (TX tx) d (u\<lparr>usr_Password := h\<rparr>) = ((r0, u0), d')"
    using assms(3) by (auto simp: UserRepositoryImpl_Create_def Let_def split: prod.splits option.splits if_splits)
  with assms(1,2) show ?thesis by (auto simp: db_inv_def intro!: others_same_pool gorm_Create_D(2))
qed

lemma impl_Update_pool:
  assumes "db_inv g rows d" "UserRepositoryImpl_Update g (ctx\<lparr>ctx_TXKey := Some tx\<rparr>) d u = (r, d')"
  shows "rows d' DB = rows d DB"
proof -
  obtain r0 n0 u0 where g: "gorm_Updates g (TX tx) d u
      [(''name'', usr_Name u), (''email'', usr_Email u), (''username'', usr_Username u)] = ((r0, n0, u0), d')"
    using assms(2) by (auto simp: UserRepositoryImpl_Update_def Let_def split: prod.splits option.splits if_splits)
  with assms(1) show ?thesis by (auto simp: db_inv_def intro!: others_same_pool gorm_Updates_D(2))
qed

lemma impl_Delete_pool:
  assumes "db_inv g rows d" "UserRepositoryImpl_Delete g (ctx\<lparr>ctx_TXKey := Some tx\<rparr>) d i = (r, d')"
  shows "rows d' DB = rows d DB"
proof -
  obtain r0 n0 where g: "gorm_Delete g (TX tx) d i = ((r0, n0), d')"
    using assms(2) by (auto simp: UserRepositoryImpl_Delete_def Let_def split: prod.splits option.splits if_splits)
  with assms(1) show ?thesis by (auto simp: db_inv_def intro!: others_same_pool gorm_Delete_D(2))
qed

lemma impl_All_pool:
  assumes inv: "db_inv g rows d" and res: "UserRepositoryImpl_AllEmailsAndUsernames g ctx d = (r, d')"
  shows "db_inv g rows d' \<and> db_tbl rows ctx' d' = db_tbl rows ctx' d \<and> rows d' DB = rows d DB \<and>
    (\<forall>es ns. r = Inr (es, ns) \<longrightarrow> set es = usr_Email ` ran (rows d DB) \<and> set ns = usr_Username ` ran (rows d DB))"
proof -
  from inv have ok: "gorm_ok g rows" "db_wf rows d" by (simp_all add: db_inv_def)
  obtain r0 d0 where g: "gorm_Select_Scan g DB d ''email, username'' = (r0, d0)" by (metis surj_pair)
  note D = gorm_Select_Scan_D [OF ok g]
  have "\<forall>es ns. r = Inr (es, ns) \<longrightarrow> set es = usr_Email ` ran (rows d DB) \<and> set ns = usr_Username ` ran (rows d DB)"
    using res g D(2) by (auto simp: UserRepositoryImpl_AllEmailsAndUsernames_def image_image split: sum.splits)
  with impl_lookups_rows(5) [OF inv res] ok show ?thesis by (simp add: db_inv_def db_tbl_def db_wf_def)
qed

interpretation tx: transactional_repository "NewUserRepository g" "ctx\<lparr>ctx_TXKey := Some tx\<rparr>" "db_inv g rows"
    "db_tbl rows (ctx\<lparr>ctx_TXKey := Some tx\<rparr>)" "\<lambda>d. rows d DB"
  for g :: "'d gorm" and rows ctx tx
  by unfold_locales
     (auto dest: impl_lookups_rows impl_Create_pool impl_Update_pool impl_Delete_pool
        impl_All_pool [where ctx' = "ctx\<lparr>ctx_TXKey := Some tx\<rparr>"])

section \<open>Property\<close>

text \<open>
  C21. A transaction is atomic. For every function that reaches the database through the repository with
  the context it is given: if \<open>Run\<close> returns an error, the users table is as it was before, and the error is
  the function's own or the database's; if it returns none, the function returned none, and the table is
  what the function's calls, each seeing the effects of those before it, made of the table \<open>Run\<close> started
  from. The constraints of the table hold either way.
\<close>

theorem Run_atomic:
  assumes "gorm_ok g rows" and "db_wf rows d" and "inserts_new p"
    and "TransactionManager_Run g ctx d (\<lambda>ctx. run_program (NewUserRepository g) ctx p) = (r, d')"
  shows "table_wf (rows d' DB) \<and>
         (case r of
            Some e \<Rightarrow> rows d' DB = rows d DB \<and> (lib_error e \<or> (\<exists>m. table_run (rows d DB) (rows d DB) p (Some e) m))
          | None \<Rightarrow> table_run (rows d DB) (rows d DB) p None (rows d' DB))"
proof -
  have wf0: "table_wf (rows d DB)" using assms(2) by (simp add: db_wf_def)
  note T = assms(1) [unfolded gorm_ok_def gorm_Transaction_ok_def, THEN conjunct2, THEN conjunct2, THEN conjunct2, THEN conjunct2,
      rule_format, OF assms(4) [unfolded TransactionManager_Run_def] assms(2)]
  from T show ?thesis
  proof (elim disjE exE conjE)
    fix e assume "r = Some e" "lib_error e" "rows d' = rows d"
    with wf0 show ?thesis by simp
  next
    fix tx d1 d2 r2
    assume wf: "db_wf rows d1" and see: "rows d1 (TX tx) = rows d DB" and oth: "others_same rows (TX tx) d d1"
      and f: "run_program (NewUserRepository g) (ctx\<lparr>ctx_TXKey := Some tx\<rparr>) p d1 = (r2, d2)"
      and fin: "case r2 of Some e \<Rightarrow> r = Some e \<and> rows d' DB = rows d2 DB
                | None \<Rightarrow> r = None \<and> rows d' DB = rows d2 (TX tx) \<or>
                          (\<exists>e. r = Some e \<and> lib_error e \<and> rows d' DB = rows d2 DB)"
    from assms(1) wf have "db_inv g rows d1" by (simp add: db_inv_def)
    from tx.run_program_table [OF assms(3) this f]
    have "db_wf rows d2" and "rows d2 DB = rows d DB"
      and "table_run (rows d DB) (rows d DB) p r2 (rows d2 (TX tx))"
      using others_same_pool [OF oth] see by (auto simp: db_inv_def db_tbl_def)
    with fin wf0 show ?thesis by (cases r2) (auto simp: db_wf_def)
  qed
qed

text \<open>
  Inserting one user in a transaction stores it; inserting it twice fails at the second insertion, and
  nothing remains of the first.
\<close>

definition create_once :: "User \<Rightarrow> string \<Rightarrow> program" where
  "create_once u h = DoCreate u h (\<lambda>r. Return (fst r))"

definition create_twice :: "User \<Rightarrow> string \<Rightarrow> program" where
  "create_twice u h =
     DoCreate u h (\<lambda>r. case fst r of Some e \<Rightarrow> Return (Some e) | None \<Rightarrow> create_once u h)"

lemma inserts_new_twin [simp]:
  "usr_ID u = 0 \<Longrightarrow> inserts_new (create_once u h)"
  "usr_ID u = 0 \<Longrightarrow> inserts_new (create_twice u h)"
  by (simp_all add: create_once_def create_twice_def split: option.split)

definition twin :: User where
  "twin = zero_User\<lparr>usr_Email := ''a@x.io'', usr_Username := ''alice'', usr_Name := ''Al'', usr_Role := RoleUser\<rparr>"

lemma twin_Create:
  "UserRepositoryImpl_Create mem_gorm (ctx\<lparr>ctx_TXKey := Some 0\<rparr>) (empty_db(TX 0 := [])) twin ''112 119 '' =
     ((None, alice), empty_db(TX 0 := [alice]))"
  using utf8_alice
  by (simp add: UserRepositoryImpl_Create_def mem_Create_def empty_db_def Let_def zero_User_def twin_def 
      alice_def tab_def live_def clash_def RoleUser_def)

lemma twin_Create_again:
  "\<exists>e u d. UserRepositoryImpl_Create mem_gorm (ctx\<lparr>ctx_TXKey := Some 0\<rparr>) (empty_db(TX 0 := [alice])) twin ''112 119 '' = ((Some e, u), d)"
  by (simp add: UserRepositoryImpl_Create_def mem_Create_def Let_def twin_def live_single clash_def)
     (simp add: alice_def)

theorem Run_atomic_witness:
  "(\<exists>d'. TransactionManager_Run mem_gorm background empty_db
           (\<lambda>ctx. run_program (NewUserRepository mem_gorm) ctx (create_once twin ''112 119 '')) = (None, d') \<and>
         mem_rows d' DB = [1 \<mapsto> alice] \<and>
         table_run Map.empty Map.empty (create_once twin ''112 119 '') None [1 \<mapsto> alice]) \<and>
   (\<exists>e d'. TransactionManager_Run mem_gorm background empty_db
             (\<lambda>ctx. run_program (NewUserRepository mem_gorm) ctx (create_twice twin ''112 119 '')) = (Some e, d') \<and>
           mem_rows d' DB = Map.empty)"
proof (intro conjI)
  let ?h = "''112 119 ''" and ?ctx = "background\<lparr>ctx_TXKey := Some 0\<rparr>"
  have new: "usr_ID twin = 0" by (simp add: twin_def zero_User_def)
  have tab: "mem_rows empty_db DB = Map.empty" by (simp add: mem_rows_def empty_db_def tab_Nil)
  have d0: "empty_db(TX 0 := empty_db DB) = empty_db(TX 0 := [])" by (simp add: empty_db_def)
  have alice1: "tab [alice] = [1 \<mapsto> alice]" by (simp add: tab_def alice_def)
  have once: "TransactionManager_Run mem_gorm background empty_db
      (\<lambda>ctx. run_program (NewUserRepository mem_gorm) ctx (create_once twin ?h)) = (None, empty_db(TX 0 := [alice], DB := [alice]))"
    using twin_Create [of background] by (simp add: TransactionManager_Run_def mem_gorm_def d0 create_once_def)
  from Run_atomic [OF mem_gorm_ok empty_db_wf _ once] new tab once
  show "\<exists>d'. TransactionManager_Run mem_gorm background empty_db
           (\<lambda>ctx. run_program (NewUserRepository mem_gorm) ctx (create_once twin ?h)) = (None, d') \<and>
         mem_rows d' DB = [1 \<mapsto> alice] \<and>
         table_run Map.empty Map.empty (create_once twin ?h) None [1 \<mapsto> alice]"
    by (auto simp: mem_rows_def alice1)
  obtain e u d where again: "UserRepositoryImpl_Create mem_gorm ?ctx (empty_db(TX 0 := [alice])) twin ?h = ((Some e, u), d)"
    using twin_Create_again [of background] by auto
  have twice: "TransactionManager_Run mem_gorm background empty_db
      (\<lambda>ctx. run_program (NewUserRepository mem_gorm) ctx (create_twice twin ?h)) = (Some e, d)"
    using twin_Create [of background] again by (simp add: TransactionManager_Run_def mem_gorm_def d0 create_once_def create_twice_def)
  from Run_atomic [OF mem_gorm_ok empty_db_wf _ twice] new tab twice
  show "\<exists>e d'. TransactionManager_Run mem_gorm background empty_db
             (\<lambda>ctx. run_program (NewUserRepository mem_gorm) ctx (create_twice twin ?h)) = (Some e, d') \<and>
           mem_rows d' DB = Map.empty"
    by auto
qed

end
