(* ===== verification/Spec2Isabelle.thy ===== *)
theory Spec2Isabelle
  imports Races Conversions ApiTypes LimiterThreads CachedUsers Transactions
begin

text \<open>
  A user and authentication server in Go (\<^verbatim>\<open>cmd/api\<close>), with its HTTP interface (gin), its gRPC
  interface, PostgreSQL behind an ORM, a Redis cache, an in-process Bloom filter, a currency converter
  over a public rates API, and conversion events and log records sent through Kafka. This theory
  states the properties that span components; the theories below it hold the model.

  \<^bold>\<open>How the program is put together.\<close> A request passes the global middleware (CORS, request id, request
  log, metrics, recovery), a rate limiter, on protected routes the token check and on admin routes the
  role check, and ends in a handler. The handler binds the request and calls one service. The
  authentication service works on the database repository and adds every registration to the Bloom
  filter; the user service works on the caching repository over the same database, and answers the
  availability check from the Bloom filter where it can. The gRPC methods call the same services
  with no middleware. Log records go to the standard output and, through a bounded channel and a
  background goroutine, to a Kafka topic, from which a consumer writes them to a table.

  \<^bold>\<open>Which theory models what.\<close>
  \<^item> \<open>Prelude\<close>, \<open>GoStrings\<close>, \<open>GoErrors\<close>, \<open>Float64\<close>, \<open>Json\<close>: what the sources use of the language and
    its library. \<^verbatim>\<open>int64\<close> and \<^verbatim>\<open>time.Duration\<close> are 64-bit words, \<^verbatim>\<open>int32\<close> 32-bit words, \<^verbatim>\<open>float64\<close> is IEEE
    binary64 with its rounding, a string is a list of bytes, an \<^verbatim>\<open>error\<close> is a datatype with wrapping;
    a result with an error is a sum, and \<open>None\<close> is a run-time panic or a loop out of fuel (each
    definition's text says which).
  \<^item> \<open>Model\<close> (\<^verbatim>\<open>internal/model/user.go\<close>): users, requests, responses, JSON and binding tags.
  \<^item> \<open>Jwt\<close>, \<open>Password\<close>, \<open>Bloom\<close> (\<^verbatim>\<open>pkg/jwt\<close>, \<^verbatim>\<open>pkg/password\<close>, \<^verbatim>\<open>pkg/bloom\<close>).
  \<^item> \<open>Database\<close> (\<^verbatim>\<open>internal/database/transaction.go\<close>), \<open>UserRepository\<close> (\<^verbatim>\<open>internal/repository/user.go\<close>),
    \<open>Cache\<close> (\<^verbatim>\<open>internal/cache\<close>), \<open>CachingRepository\<close> (\<^verbatim>\<open>internal/repository/user_cache.go\<close>), with
    properties in \<open>CachedUsers\<close> and \<open>Transactions\<close>.
  \<^item> \<open>AuthService\<close>, \<open>UserService\<close>, \<open>Exchange\<close>, \<open>Kafka\<close> (\<^verbatim>\<open>internal/service\<close>, \<^verbatim>\<open>internal/adapter/exchange\<close>,
    \<^verbatim>\<open>pkg/kafka\<close>, \<^verbatim>\<open>internal/consumer/consumer.go\<close>), \<open>Logger\<close> (\<^verbatim>\<open>internal/logger\<close>,
    \<^verbatim>\<open>internal/consumer/log.go\<close>), \<open>Config\<close> (\<^verbatim>\<open>internal/config\<close>).
  \<^item> \<open>Http\<close>, \<open>Middleware\<close>, \<open>RateLimit\<close> (\<^verbatim>\<open>internal/middleware\<close>), \<open>Handlers\<close> (\<^verbatim>\<open>internal/handler\<close>), \<open>Grpc\<close>
    (\<^verbatim>\<open>internal/grpc\<close>), \<open>Router\<close> (\<^verbatim>\<open>setupRouter\<close> in \<^verbatim>\<open>internal/server/server.go\<close>), \<open>Server\<close>
    (\<^verbatim>\<open>internal/server/deps.go\<close>, \<^verbatim>\<open>App.Run\<close>, \<^verbatim>\<open>cmd/api\<close>, \<^verbatim>\<open>cmd/migrate\<close>).
  \<^item> \<open>Steps\<close> and \<open>Accounts\<close>: the server as a transition system on its data and what its runs preserve.
  \<^item> \<open>ApiTypes\<close>: the types of the responses (\<^verbatim>\<open>internal/model\<close>) and the table of the HTTP interface.
  \<^item> \<open>Threads\<close>: threads of atomic actions, schedules and a rely-guarantee rule; \<open>Concurrent\<close>: the calls of
    the services (\<^verbatim>\<open>internal/service\<close>, \<^verbatim>\<open>internal/repository/user_cache.go\<close>, \<^verbatim>\<open>internal/adapter/exchange\<close>)
    as threads whose actions are single queries, Redis commands, Bloom filter operations and requests to
    the rates API; \<open>Interleavings\<close>, \<open>Registrations\<close>, \<open>Conversions\<close> and \<open>Races\<close>: what calls that overlap
    keep, and where they disturb each other. \<open>LimiterThreads\<close>: overlapping requests at the rate limiter,
    with token buckets behind pointers (\<^verbatim>\<open>internal/middleware/ratelimit.go\<close>).
  \<^item> \<open>Reference\<close>: executable stand-ins for the libraries, on which the witnesses run the program.

  A struct is a record whose fields carry a prefix, a Go interface value is a record of its methods, a
  method is \<open>Type_Method\<close>; state is passed in and returned. One request reads the clock and draws
  random bytes once (\<open>env\<close>, \<open>req_env\<close>).

  \<^bold>\<open>Libraries are parameters.\<close> JWT, bcrypt, the Bloom filter, the ORM with PostgreSQL, the Redis client,
  the Kafka client, the rates API, the token bucket, request binding and the framework are records of
  functions. What the code relies on is stated in \<open>jwt_ok\<close>, \<open>bcrypt_ok\<close>, \<open>bloom_ok\<close>, \<open>gorm_ok\<close>,
  \<open>redis_ok\<close> (and \<open>redis_exact\<close>, a Redis that is up and expires nothing), \<open>scan_ok\<close>, \<open>upstream_ok\<close>,
  \<open>rate_refills\<close>, \<open>binders_ok\<close> and \<open>gin_ok\<close>. They allow failure: any query, command or call may return an
  error at any time unless the property says otherwise. \<open>Reference\<close> (and the witnesses' own
  definitions) satisfy them, so no property is vacuous.

  \<^bold>\<open>Interfaces.\<close> \<open>bloom_filter\<close>, \<open>kv_cache\<close>, \<open>user_reader\<close>, \<open>user_repository\<close>,
  \<open>transactional_repository\<close>, \<open>rate_source\<close> and \<open>guard\<close> are locales with the laws a client relies on;
  clients are proved inside them, and they are interpreted on \<open>Filter_Add\<close>/\<open>Filter_Contains\<close>, \<open>RedisCache\<close>,
  \<open>NewUserRepository\<close> (with and without a transaction in the context), both rate clients, the middleware
  and the rate limiters. The caching repository is a \<open>user_reader\<close> over any \<open>user_repository\<close> (a
  sublocale), and two guards in sequence are a guard (\<open>guard_seq\<close>).

  \<^bold>\<open>What the properties show.\<close>
  \<^item> Accounts over time (\<open>Accounts\<close>): every HTTP request or gRPC call changes the data by at most one
    step it is allowed to take (\<open>server_refines\<close>); who may change which row and how
    (\<open>authorised_changes\<close>); no run creates an administrator (\<open>no_new_admins\<close>); the availability check
    is exact in runs without profile updates and deletions (\<open>availability_exact\<close>), and wrong after some
    profile updates (\<open>availability_after_update\<close>).
  \<^item> Calls that overlap, for every schedule: the table stays well formed and no
    administrator is created (\<open>interleaved_effects\<close>), an identifier is registered once
    (\<open>registered_once\<close>), and once all registrations have returned the availability check is exact
    (\<open>quiescent_availability\<close>); conversions use quoted rates, although rates and users share the cache
    (\<open>overlapping_conversions\<close>); and the rate limiter decides overlapping requests as it would one after
    the other (\<open>limiter_linearizable\<close>). Two schedules show what is not guaranteed: profile updates are lost
    (\<open>lost_update\<close>), and a deleted user comes back into the cache (\<open>stale_after_delete\<close>).
  \<^item> Each operation of the authentication service on every branch, that a registration can log in, and
    what the issued tokens open and for how long (\<open>AuthService\<close>, this theory).
  \<^item> Routes and roles (\<open>Router\<close>), the statuses of login and registration (\<open>Handlers\<close>); the type of every response
    (\<open>responses_typed\<close>); agreement of HTTP and gRPC (this theory) and where gRPC registration fails
    (\<open>Grpc\<close>).
  \<^item> The caching repository refines the database's lookups while the cache is coherent, what its writes
    do to the cache, that no password hash reaches Redis, and that deleting by pattern leaves no matching
    key (\<open>CachedUsers\<close>); transactions are all or nothing for any function that works through the
    repository (\<open>Transactions\<close>).
  \<^item> The rate limiter's eviction is invisible and addresses do not influence each other (\<open>RateLimit\<close>).
  \<^item> Events and log records survive their encoding (numbers of log attributes as \<^verbatim>\<open>float64\<close>), the consumer
    loop keeps order, the log handler's buffer is bounded, every record it accepted is published once and
    in order, and closing flushes it (\<open>Kafka\<close>, \<open>Logger\<close>).
  \<^item> Configuration, what a server that has started up can be relied on for and what not
    (\<open>startup_ready\<close>, \<open>startup_unseeded\<close>), and the order of shutdown, which ends in a panic (\<open>Config\<close>,
    \<open>Server\<close>, this theory).

  \<^bold>\<open>Fuel.\<close> \<open>scanAndDelete\<close>, \<open>Consume\<close> and the drain loop take fuel. For the scan, fuel above the length of
  the iteration is enough, which is bounded (\<open>DeletePattern_removes\<close> states that it then returns); the consumer returns
  within one more round than it takes for its context to be cancelled (\<open>Consume_correct\<close>), and never with
  the background context (\<open>Consume_background\<close>); the drain loop needs one round per buffered record and
  one to end (\<open>Close_flushes\<close>). The cleanup loop of the rate limiter is its body, taken as an event
  that may happen between any two requests. A service call is a finite tree of actions, and schedules are
  lists of any length.

  \<^bold>\<open>Not modelled.\<close> The code generated by protoc, and the transport of both servers. In the runs of
  \<open>Accounts\<close> requests are handled one at a time; overlapping is modelled for the calls the handlers make
  to the services, with the background context, and, apart from them, for the rate limiter between two
  passes of its eviction loop. What the environment does while the servers run (listening, signals,
  records logged meanwhile) is an input of \<open>App_Run\<close>, the record \<open>server_events\<close>. Left out are connection
  pools, client timeouts and batch sizes, the constructors and \<^verbatim>\<open>Close\<close> methods that only call a client,
  interface declarations, the format of log lines on the standard output, and the tests. Waiting for a
  mutex, a connection of the pool or a row lock is part of the action that waits, so deadlock and pool
  exhaustion are not expressible. Read replicas are taken to be caught up. JSON is modelled at the level of values,
  not of text.
\<close>

section \<open>Issued tokens and the middleware\<close>

lemma bearer_token:
  "gc_Header c ''Authorization'' = ''Bearer '' @ tok \<Longrightarrow> bearer c = Some tok"
  by (simp add: bearer_def SplitN2_def EqualFold_def Let_def)

lemma bearer_admitted:
  assumes "gc_Header c ''Authorization'' = ''Bearer '' @ tok" "ValidateToken J t secret tok = Inr cl"
  shows "AuthMiddleware J t secret next (w, c) = next (w, with_claims cl c)"
proof -
  have "auth_claims J t secret (snd (w, c)) = Some cl" using assms by (simp add: auth_claims_def bearer_token)
  from AuthMiddleware_pass [OF this] show ?thesis by simp
qed

text \<open>
  C18. A login's access token opens the protected routes. A request that carries it passes the
  authentication middleware with the id and the role of the user it was issued for until (at most one
  second before) it expires; from its expiry on the request is answered with 401 and goes no further.
\<close>

theorem access_token_admits:
  assumes "jwt_ok (lib_jwt L) sig" and "utf8_User u"
    and "authService_generateTokenPair L svc E u = Inr resp"
    and "gc_Header c ''Authorization'' = ''Bearer '' @ auth_AccessToken resp"
  shows "(t + second \<le> env_now E + sint (as_accessExpiry svc) \<longrightarrow>
            (\<exists>cl. AuthMiddleware (lib_jwt L) t (as_jwtSecret svc) next (w, c) = next (w, with_claims cl c) \<and>
                  GetUserID (with_claims cl c) = usr_ID u \<and> GetUserRole (with_claims cl c) = usr_Role u)) \<and>
         (env_now E + sint (as_accessExpiry svc) \<le> t \<longrightarrow>
            fst (AuthMiddleware (lib_jwt L) t (as_jwtSecret svc) next (w, c)) = w \<and>
            resp_status (snd (AuthMiddleware (lib_jwt L) t (as_jwtSecret svc) next (w, c))) = Some 401 \<and>
            gc_Aborted (snd (AuthMiddleware (lib_jwt L) t (as_jwtSecret svc) next (w, c))))"
proof (intro conjI impI)
  note V = response_tokens(1) [OF assms(1-3), of t] and C = claims_unexpired(1,2) [OF assms(1)]
  assume "t + second \<le> env_now E + sint (as_accessExpiry svc)"
  with V C(1) have "ValidateToken (lib_jwt L) t (as_jwtSecret svc) (auth_AccessToken resp) =
      Inr (access_claims (lib_jwt L) (env_now E) (usr_ID u) (usr_Email u) (usr_Role u) (as_accessExpiry svc))"
    by (simp add: Let_def)
  from bearer_admitted [OF assms(4) this]
  show "\<exists>cl. AuthMiddleware (lib_jwt L) t (as_jwtSecret svc) next (w, c) = next (w, with_claims cl c) \<and>
            GetUserID (with_claims cl c) = usr_ID u \<and> GetUserRole (with_claims cl c) = usr_Role u"
    by (intro exI conjI) (assumption, simp_all add: access_claims_def)
next
  note V = response_tokens(1) [OF assms(1-3), of t] and C = claims_unexpired(1,2) [OF assms(1)]
  assume "env_now E + sint (as_accessExpiry svc) \<le> t"
  with V C(2) have "ValidateToken (lib_jwt L) t (as_jwtSecret svc) (auth_AccessToken resp) = Inl ErrTokenExpired"
    by (simp add: Let_def)
  with assms(4) have n: "auth_claims (lib_jwt L) t (as_jwtSecret svc) (snd (w, c)) = None"
    by (simp add: auth_claims_def bearer_token)
  then have s: "AuthMiddleware (lib_jwt L) t (as_jwtSecret svc) next (w, c) = auth_stop (w, c)"
    by (intro auth.reject) simp
  show "fst (AuthMiddleware (lib_jwt L) t (as_jwtSecret svc) next (w, c)) = w"
    unfolding s by (simp add: auth_stop_def unauthorized_def)
  show "resp_status (snd (AuthMiddleware (lib_jwt L) t (as_jwtSecret svc) next (w, c))) = Some 401"
    and "gc_Aborted (snd (AuthMiddleware (lib_jwt L) t (as_jwtSecret svc) next (w, c)))"
    using auth.stop_aborts [of "lib_jwt L" t "as_jwtSecret svc" "(w, c)"] n unfolding s by simp_all
qed

definition bearer_ctx :: "string \<Rightarrow> gin_ctx" where
  "bearer_ctx tok = (mem_ctx [])\<lparr>gc_Header := (\<lambda>k. if k = ''Authorization'' then ''Bearer '' @ tok else [])\<rparr>"

theorem access_token_admits_witness:
  "\<exists>resp cl. authService_generateTokenPair mem_libs mem_svc mem_env alice = Inr resp \<and>
     AuthMiddleware mem_jwt (env_now mem_env) ''s3cret'' (\<lambda>st. st) ((), bearer_ctx (auth_AccessToken resp)) =
       ((), with_claims cl (bearer_ctx (auth_AccessToken resp))) \<and>
     GetUserID (with_claims cl (bearer_ctx (auth_AccessToken resp))) = 1"
proof -
  obtain resp where resp: "authService_generateTokenPair mem_libs mem_svc mem_env alice = Inr resp"
    using mem_generate by blast
  have h: "gc_Header (bearer_ctx (auth_AccessToken resp)) ''Authorization'' = ''Bearer '' @ auth_AccessToken resp"
    by (simp add: bearer_ctx_def)
  have J: "jwt_ok (lib_jwt mem_libs) sig_mem" by (simp add: mem_jwt_ok)
  have t: "env_now mem_env + second \<le> env_now mem_env + sint (as_accessExpiry mem_svc)" by (simp add: mem_svc_def)
  from access_token_admits [OF J utf8_alice resp h, THEN conjunct1, rule_format, OF t, of "\<lambda>st. st" "()"] resp show ?thesis
    by (auto simp: mem_svc_def alice_def)
qed

text \<open>
  C40. Tokens carry no mark of their kind. A refresh token passes the authentication middleware, with the
  user's id and an empty role, for as long as it can be used to refresh; and an access token that has not
  expired is accepted for refreshing, if the user's row can be read.
\<close>

theorem token_kinds_interchange:
  assumes "jwt_ok (lib_jwt L) sig" and "utf8_User u"
    and "authService_generateTokenPair L svc E u = Inr resp"
    and "gc_Header c ''Authorization'' = ''Bearer '' @ auth_RefreshToken resp"
    and "t + second \<le> env_now E + sint (as_refreshExpiry svc)"
    and "env_now E' + second \<le> env_now E + sint (as_accessExpiry svc)"
    and "repo_GetByID (as_userRepo svc) ctx s (usr_ID u) = (Inr row, s')"
  shows "(\<exists>cl. AuthMiddleware (lib_jwt L) t (as_jwtSecret svc) next (w, c) = next (w, with_claims cl c) \<and>
               GetUserID (with_claims cl c) = usr_ID u \<and> GetUserRole (with_claims cl c) = []) \<and>
         is_ok (fst (authService_RefreshToken L svc E' ctx (s, f) (auth_AccessToken resp)))"
proof
  from response_tokens(2) [OF assms(1-3), of t] claims_unexpired(3) [OF assms(1,5)]
  have "ValidateToken (lib_jwt L) t (as_jwtSecret svc) (auth_RefreshToken resp) =
      Inr (refresh_claims (lib_jwt L) (env_now E) (usr_ID u) (as_refreshExpiry svc))" by (simp add: Let_def)
  from bearer_admitted [OF assms(4) this]
  show "\<exists>cl. AuthMiddleware (lib_jwt L) t (as_jwtSecret svc) next (w, c) = next (w, with_claims cl c) \<and>
            GetUserID (with_claims cl c) = usr_ID u \<and> GetUserRole (with_claims cl c) = []"
    by (intro exI conjI) (assumption, simp_all add: refresh_claims_def)
next
  from response_tokens(1) [OF assms(1-3), of "env_now E'"] claims_unexpired(1) [OF assms(1,6)]
  have v: "ValidateToken (lib_jwt L) (env_now E') (as_jwtSecret svc) (auth_AccessToken resp) =
      Inr (access_claims (lib_jwt L) (env_now E) (usr_ID u) (usr_Email u) (usr_Role u) (as_accessExpiry svc))" by (simp add: Let_def)
  obtain resp' where "authService_generateTokenPair L svc E' row = Inr resp'" using generateTokenPair_total [OF assms(1)] by blast
  then show "is_ok (fst (authService_RefreshToken L svc E' ctx (s, f) (auth_AccessToken resp)))"
    using assms(7) v by (simp add: authService_RefreshToken_def) (simp add: access_claims_def)
qed

theorem token_kinds_interchange_witness:
  "\<exists>resp cl. authService_generateTokenPair mem_libs mem_svc mem_env alice = Inr resp \<and>
     AuthMiddleware mem_jwt (env_now mem_env) ''s3cret'' (\<lambda>st. st) ((), bearer_ctx (auth_RefreshToken resp)) =
       ((), with_claims cl (bearer_ctx (auth_RefreshToken resp))) \<and>
     is_ok (fst (authService_RefreshToken mem_libs mem_svc mem_env background (alice_db, None) (auth_AccessToken resp)))"
proof -
  obtain resp where resp: "authService_generateTokenPair mem_libs mem_svc mem_env alice = Inr resp"
    using mem_generate by blast
  have h: "gc_Header (bearer_ctx (auth_RefreshToken resp)) ''Authorization'' = ''Bearer '' @ auth_RefreshToken resp"
    by (simp add: bearer_ctx_def)
  have J: "jwt_ok (lib_jwt mem_libs) sig_mem" by (simp add: mem_jwt_ok)
  have t: "env_now mem_env + second \<le> env_now mem_env + sint (as_refreshExpiry mem_svc)"
    and t': "env_now mem_env + second \<le> env_now mem_env + sint (as_accessExpiry mem_svc)" by (simp_all add: mem_svc_def)
  have g: "repo_GetByID (as_userRepo mem_svc) background alice_db (usr_ID alice) = (Inr alice, alice_db)"
    using alice_GetByID by (simp add: alice_def)
  from token_kinds_interchange [OF J utf8_alice resp h t t' g, of "\<lambda>st. st" "()" None] resp show ?thesis
    by (auto simp: mem_svc_def)
qed

section \<open>Two transports, one service\<close>



section \<open>Start-up\<close>













end
